(* ===== verification/Prelude.thy ===== *)
theory Prelude
  imports Main "HOL-Library.Word" "HOL-Library.AList" "HOL-Library.Sublist"
begin

unbundle bit_operations_syntax

section \<open>Shared definitions and lemmas\<close>

text \<open>
  What the component theories share: byte strings, results with errors, the parts of the C and
  C++ standard library the sources call (character classes, decimal conversion, little-endian
  stores, prefix tests), and the list and association-list lemmas that carry the component
  proofs. A \<^verbatim>\<open>std::string\<close> is a HOL \<open>string\<close>: a list of 8-bit \<open>char\<close>s, so binary data and text have
  one type, as in the sources.
\<close>

named_theorems codec_simps \<open>lengths, splits and values of encoded fields\<close>
named_theorems name_simps \<open>distinctness and injectivity of generated file names\<close>

type_synonym bytes = string

subsection \<open>Results\<close>

text \<open>A call that may throw returns \<open>Inl\<close> of the exception or \<open>Inr\<close> of its value.\<close>

fun bindE :: "'e + 'a \<Rightarrow> ('a \<Rightarrow> 'e + 'b) \<Rightarrow> 'e + 'b" where
  "bindE (Inl e) f = Inl e"
| "bindE (Inr x) f = f x"

definition ensure :: "bool \<Rightarrow> 'e \<Rightarrow> 'e + unit" where
  "ensure b e = (if b then Inr () else Inl e)"

text \<open>A name between single quotes, as the messages have it.\<close>

definition quoted :: "string \<Rightarrow> string" where
  "quoted s = CHR 0x27 # s @ [CHR 0x27]"

lemma bindE_cong [fundef_cong]:
  "m = m' \<Longrightarrow> (\<And>x. m' = Inr x \<Longrightarrow> f x = g x) \<Longrightarrow> bindE m f = bindE m' g"
  by (cases m') auto

lemma bindE_eq_Inr [simp]: "bindE m f = Inr y \<longleftrightarrow> (\<exists>x. m = Inr x \<and> f x = Inr y)"
  by (cases m) auto

lemma replicate_numeral: "replicate (numeral k) x = x # replicate (pred_numeral k) x"
  by (simp add: numeral_eq_Suc)

lemma bindE_eq_Inl: "bindE m f = Inl e \<longleftrightarrow> m = Inl e \<or> (\<exists>x. m = Inr x \<and> f x = Inl e)"
  by (cases m) auto

lemma ensure_eq_Inr [simp]: "ensure b e = Inr u \<longleftrightarrow> b"
  by (simp add: ensure_def)

lemma ensure_eq_Inl [simp]: "ensure b e = Inl e' \<longleftrightarrow> \<not> b \<and> e' = e"
  by (auto simp: ensure_def)

lemma ensure_True [simp]: "b \<Longrightarrow> ensure b e = Inr ()"
  by (simp add: ensure_def)

lemma ensure_False [simp]: "\<not> b \<Longrightarrow> ensure b e = Inl e"
  by (simp add: ensure_def)

text \<open>The first error of a loop that calls a fallible body on every element.\<close>

fun mapE :: "('a \<Rightarrow> 'e + 'b) \<Rightarrow> 'a list \<Rightarrow> 'e + 'b list" where
  "mapE f [] = Inr []"
| "mapE f (x # xs) = bindE (f x) (\<lambda>y. bindE (mapE f xs) (\<lambda>ys. Inr (y # ys)))"

lemma mapE_cong [fundef_cong]:
  "xs = ys \<Longrightarrow> (\<And>x. x \<in> set ys \<Longrightarrow> f x = g x) \<Longrightarrow> mapE f xs = mapE g ys"
  by (induction ys arbitrary: xs) auto

lemma mapE_eq_Inr: "mapE f xs = Inr ys \<longleftrightarrow> list_all2 (\<lambda>x y. f x = Inr y) xs ys"
  by (induction xs arbitrary: ys) (auto simp: list_all2_Cons1)

lemma mapE_Inr_set: "mapE f xs = Inr ys \<Longrightarrow> y \<in> set ys \<Longrightarrow> \<exists>x \<in> set xs. f x = Inr y"
  by (induction xs arbitrary: ys) auto

lemma mapE_Inr_length: "mapE f xs = Inr ys \<Longrightarrow> length ys = length xs"
  by (auto simp: mapE_eq_Inr dest: list_all2_lengthD)

fun eachE :: "('a \<Rightarrow> 'e + unit) \<Rightarrow> 'a list \<Rightarrow> 'e + unit" where
  "eachE f [] = Inr ()"
| "eachE f (x # xs) = bindE (f x) (\<lambda>_. eachE f xs)"

lemma eachE_cong [fundef_cong]:
  "xs = ys \<Longrightarrow> (\<And>x. x \<in> set ys \<Longrightarrow> f x = g x) \<Longrightarrow> eachE f xs = eachE g ys"
  by (induction ys arbitrary: xs) auto

lemma eachE_Inr [simp]: "eachE f xs = Inr u \<longleftrightarrow> (\<forall>x \<in> set xs. f x = Inr ())"
  by (induction xs) auto

subsection \<open>Characters\<close>

abbreviation code :: "char \<Rightarrow> nat" where
  "code c \<equiv> of_char c"

lemma code_less [simp]: "code c < 256"
  by simp

text \<open>The C locale's character classes, on the unsigned value of the byte.\<close>

definition is_digit :: "char \<Rightarrow> bool" where
  "is_digit c \<longleftrightarrow> 48 \<le> code c \<and> code c \<le> 57"

definition is_upper :: "char \<Rightarrow> bool" where
  "is_upper c \<longleftrightarrow> 65 \<le> code c \<and> code c \<le> 90"

definition is_lower :: "char \<Rightarrow> bool" where
  "is_lower c \<longleftrightarrow> 97 \<le> code c \<and> code c \<le> 122"

definition is_alpha :: "char \<Rightarrow> bool" where
  "is_alpha c \<longleftrightarrow> is_upper c \<or> is_lower c"

definition is_alnum :: "char \<Rightarrow> bool" where
  "is_alnum c \<longleftrightarrow> is_alpha c \<or> is_digit c"

definition is_space :: "char \<Rightarrow> bool" where
  "is_space c \<longleftrightarrow> code c = 32 \<or> (9 \<le> code c \<and> code c \<le> 13)"

definition tolower :: "char \<Rightarrow> char" where
  "tolower c = (if is_upper c then char_of (code c + 32) else c)"

definition toupper :: "char \<Rightarrow> char" where
  "toupper c = (if is_lower c then char_of (code c - 32) else c)"

definition lower :: "string \<Rightarrow> string" where
  "lower s = map tolower s"

definition upper :: "string \<Rightarrow> string" where
  "upper s = map toupper s"

lemma tolower_idem [simp]: "tolower (tolower c) = tolower c"
  by (auto simp: tolower_def is_upper_def)

lemma lower_idem [simp]: "lower (lower s) = lower s"
  by (simp add: lower_def)

lemma length_lower [simp]: "length (lower s) = length s"
  by (simp add: lower_def)

abbreviation NUL :: char where
  "NUL \<equiv> CHR 0x00"

text \<open>The order of \<^verbatim>\<open>std::string\<close>: lexicographic on unsigned bytes.\<close>

fun string_le :: "string \<Rightarrow> string \<Rightarrow> bool" where
  "string_le [] t = True"
| "string_le (c # s) [] = False"
| "string_le (c # s) (d # t) = (code c < code d \<or> code c = code d \<and> string_le s t)"

fun insert_string :: "string \<Rightarrow> string list \<Rightarrow> string list" where
  "insert_string x [] = [x]"
| "insert_string x (y # ys) = (if string_le x y then x # y # ys else y # insert_string x ys)"

definition sort_strings :: "string list \<Rightarrow> string list" where
  "sort_strings xs = foldr insert_string xs []"

lemma set_insert_string [simp]: "set (insert_string x xs) = insert x (set xs)"
  by (induction xs) auto

lemma set_sort_strings [simp]: "set (sort_strings xs) = set xs"
  by (induction xs) (auto simp: sort_strings_def)

subsection \<open>Prefixes and suffixes\<close>

text \<open>\<^verbatim>\<open>s.compare(0, p.size(), p) == 0\<close>, \<^verbatim>\<open>s.rfind(p, 0) == 0\<close>.\<close>

definition starts_with :: "string \<Rightarrow> string \<Rightarrow> bool" where
  "starts_with s p \<longleftrightarrow> take (length p) s = p"

text \<open>\<^verbatim>\<open>s.size() >= t.size() && s.compare(s.size() - t.size(), t.size(), t) == 0\<close>.\<close>

definition ends_with :: "string \<Rightarrow> string \<Rightarrow> bool" where
  "ends_with s t \<longleftrightarrow> length t \<le> length s \<and> drop (length s - length t) s = t"

lemma starts_with_prefix: "starts_with s p \<longleftrightarrow> prefix p s"
  by (metis append_eq_conv_conj append_take_drop_id prefix_def starts_with_def)

lemma ends_with_suffix: "ends_with s t \<longleftrightarrow> suffix t s"
  by (metis append_eq_conv_conj append_take_drop_id diff_diff_cancel ends_with_def length_drop
      suffix_def suffix_length_le append_eq_append_conv)

lemma ends_with_last: "ends_with s t \<Longrightarrow> t \<noteq> [] \<Longrightarrow> last s = last t"
  by (auto simp: ends_with_suffix suffix_def)

subsection \<open>Decimal numbers\<close>

text \<open>\<^verbatim>\<open>std::to_string\<close> of an unsigned value.\<close>

definition digit_char :: "nat \<Rightarrow> char" where
  "digit_char d = char_of (48 + d)"

fun show_nat :: "nat \<Rightarrow> string" where
  "show_nat n = (if n < 10 then [digit_char n] else show_nat (n div 10) @ [digit_char (n mod 10)])"

declare show_nat.simps [simp del]

definition show_int :: "int \<Rightarrow> string" where
  "show_int i = (if i < 0 then CHR ''-'' # show_nat (nat (- i)) else show_nat (nat i))"

definition digit_value :: "char \<Rightarrow> nat" where
  "digit_value c = code c - 48"

definition dec_value :: "string \<Rightarrow> nat" where
  "dec_value s = foldl (\<lambda>n c. 10 * n + digit_value c) 0 s"

lemma digit_char_code: "d < 10 \<Longrightarrow> code (digit_char d) = 48 + d"
  by (simp add: digit_char_def)

lemma digit_value_char [simp]: "d < 10 \<Longrightarrow> digit_value (digit_char d) = d"
  by (simp add: digit_value_def digit_char_code)

lemma is_digit_char [simp]: "d < 10 \<Longrightarrow> is_digit (digit_char d)"
  by (simp add: is_digit_def digit_char_code)

lemma dec_value_Nil [simp]: "dec_value [] = 0"
  by (simp add: dec_value_def)

lemma dec_value_snoc [simp]: "dec_value (s @ [c]) = 10 * dec_value s + digit_value c"
  by (simp add: dec_value_def)

lemma dec_value_append: "dec_value (s @ t) = dec_value s * 10 ^ length t + dec_value t"
  by (induction t rule: rev_induct) (simp_all add: append_assoc [symmetric] algebra_simps del: append_assoc)

lemma dec_value_zeros [simp]: "dec_value (replicate n (CHR ''0'')) = 0"
  by (induction n) (simp_all add: dec_value_def digit_value_def)

lemma dec_value_show_nat [simp]: "dec_value (show_nat n) = n"
proof (induction n rule: show_nat.induct)
  case (1 n)
  show ?case
  proof (cases "n < 10")
    case True
    then show ?thesis by (simp add: show_nat.simps [of n] dec_value_def)
  next
    case False
    with 1 show ?thesis by (simp add: show_nat.simps [of n])
  qed
qed

lemma show_nat_digits: "\<forall>c \<in> set (show_nat n). is_digit c"
proof (induction n rule: show_nat.induct)
  case (1 n)
  then show ?case by (subst show_nat.simps) auto
qed

lemma show_nat_inject [simp]: "show_nat m = show_nat n \<longleftrightarrow> m = n"
  by (metis dec_value_show_nat)

lemma show_nat_not_Nil [simp]: "show_nat n \<noteq> []"
  by (subst show_nat.simps) simp

lemma not_digit_dot [simp]: "\<not> is_digit (CHR ''.'')" "\<not> is_digit (CHR ''-'')"
  by (simp_all add: is_digit_def)

text \<open>
  \<^verbatim>\<open>std::strtoll(s, nullptr, 10)\<close>: white space, a sign, the longest run of digits; the value
  saturates at the ends of the 64-bit range, and a text with no digits gives 0.
\<close>

definition int64_max :: int where
  "int64_max = 2 ^ 63 - 1"

definition int64_min :: int where
  "int64_min = - (2 ^ 63)"

definition clamp64 :: "int \<Rightarrow> int" where
  "clamp64 i = max int64_min (min int64_max i)"

definition strtoll :: "string \<Rightarrow> int" where
  "strtoll s = (let t = dropWhile is_space s in
     case t of
       [] \<Rightarrow> 0
     | c # r \<Rightarrow>
         if c = CHR ''-'' then clamp64 (- int (dec_value (takeWhile is_digit r)))
         else if c = CHR ''+'' then clamp64 (int (dec_value (takeWhile is_digit r)))
         else clamp64 (int (dec_value (takeWhile is_digit t))))"

lemma clamp64_id: "int64_min \<le> i \<Longrightarrow> i \<le> int64_max \<Longrightarrow> clamp64 i = i"
  by (simp add: clamp64_def)

lemma is_digit_not_space [simp]: "is_digit c \<Longrightarrow> \<not> is_space c"
  by (simp add: is_digit_def is_space_def)

lemma strtoll_digits:
  assumes "s \<noteq> []" and "\<forall>c \<in> set s. is_digit c" and "t = [] \<or> \<not> is_digit (hd t)"
  shows "strtoll (s @ t) = clamp64 (int (dec_value s))"
proof -
  obtain c r where s: "s = c # r" using assms(1) by (cases s) auto
  have c: "is_digit c" and r: "\<forall>c \<in> set r. is_digit c" using assms(2) s by auto
  have "dropWhile is_space (s @ t) = s @ t" using c by (simp add: s)
  moreover have "takeWhile is_digit (s @ t) = s"
    using assms(2,3) by (cases t) (auto simp: takeWhile_append2 takeWhile_append1)
  moreover have "c \<noteq> CHR ''-''" "c \<noteq> CHR ''+''"
    using c by (auto simp: is_digit_def)
  ultimately show ?thesis by (simp add: strtoll_def s Let_def)
qed

subsection \<open>Lowercase hex\<close>

definition hex_digit :: "nat \<Rightarrow> char" where
  "hex_digit n = ''0123456789abcdef'' ! n"

definition hex :: "bytes \<Rightarrow> string" where
  "hex bs = concat (map (\<lambda>c. [hex_digit (drop_bit 4 (code c)), hex_digit (code c AND 0x0F)]) bs)"

lemma nibbles: "16 * drop_bit 4 (code c) + (code c AND 15) = code c"
proof -
  have "code c AND 15 = code c mod 16"
    using take_bit_eq_mask [of 4 "code c"] by (simp add: take_bit_eq_mod mask_eq_exp_minus_1)
  then show ?thesis by (simp add: drop_bit_eq_div)
qed

lemma nibble_less: "drop_bit 4 (code c) < 16" "code c AND 15 < 16"
proof -
  have "code c div 16 < 16" using code_less [of c] by (simp add: less_mult_imp_div_less)
  then show "drop_bit 4 (code c) < 16" by (simp add: drop_bit_eq_div)
  show "code c AND 15 < 16"
    using take_bit_eq_mask [of 4 "code c"] by (simp add: take_bit_eq_mod mask_eq_exp_minus_1 flip: take_bit_eq_mask)
qed

lemma hex_digit_inject: "m < 16 \<Longrightarrow> n < 16 \<Longrightarrow> hex_digit m = hex_digit n \<longleftrightarrow> m = n"
proof -
  have d: "distinct ''0123456789abcdef''" by simp
  show "m < 16 \<Longrightarrow> n < 16 \<Longrightarrow> ?thesis"
    unfolding hex_digit_def by (rule nth_eq_iff_index_eq [OF d]) simp_all
qed

lemma hex_Nil [simp]: "hex [] = []"
  by (simp add: hex_def)

lemma hex_Cons: "hex (c # cs) = hex_digit (drop_bit 4 (code c)) # hex_digit (code c AND 15) # hex cs"
  by (simp add: hex_def)

lemma hex_inject [simp]: "hex a = hex b \<longleftrightarrow> a = b"
proof (induction a arbitrary: b)
  case Nil
  show ?case by (cases b) (simp_all add: hex_Cons)
next
  case (Cons c a)
  show ?case
  proof (cases b)
    case Nil
    then show ?thesis by (simp add: hex_Cons)
  next
    case (Cons c' b')
    have "drop_bit 4 (code c) = drop_bit 4 (code c') \<Longrightarrow> code c AND 15 = code c' AND 15 \<Longrightarrow> c = c'"
      using nibbles [of c] nibbles [of c'] by (metis of_char_eq_iff)
    then show ?thesis using Cons Cons.IH by (auto simp: hex_Cons hex_digit_inject nibble_less)
  qed
qed

lemma hex_eq_Nil [simp]: "hex a = [] \<longleftrightarrow> a = []" "[] = hex a \<longleftrightarrow> a = []"
  by (cases a; simp add: hex_Cons)+

lemma length_hex: "length (hex bs) = 2 * length bs"
  by (induction bs) (simp_all add: hex_Cons)

lemma set_hex: "set (hex bs) \<subseteq> set ''0123456789abcdef''"
proof (induction bs)
  case (Cons c cs)
  have "hex_digit n \<in> set ''0123456789abcdef''" if "n < 16" for n
    using that unfolding hex_digit_def by (intro nth_mem) simp
  then show ?case using Cons nibble_less [of c] by (simp add: hex_Cons)
qed simp

lemma hex_no_underscore: "CHR ''_'' \<notin> set (hex bs)" "CHR ''k'' \<notin> set (hex bs)" "CHR ''l'' \<notin> set (hex bs)"
  using set_hex [of bs] by auto

lemma hex_neq_prefixed [simp]:
  "hex a \<noteq> CHR ''k'' # b" "CHR ''k'' # b \<noteq> hex a" "hex a \<noteq> CHR ''l'' # b" "CHR ''l'' # b \<noteq> hex a"
  using hex_no_underscore [of a] by (metis list.set_intros(1))+

end
