(* ===== verification/File_System.thy ===== *)
theory File_System
  imports Prelude
begin

section \<open>The file system the storage is written against\<close>

text \<open>
  The calls of \<^verbatim>\<open>std::filesystem\<close>, \<^verbatim>\<open>std::ofstream\<close>, \<^verbatim>\<open>std::ifstream\<close> and \<^verbatim>\<open>src/src/portable.cpp\<close> that
  \<^verbatim>\<open>src/src/storage.cpp\<close> makes, over an explicit file system. A path is the list of its
  components below the storage's base directory. The order of \<open>files\<close> is the order in which a
  directory is listed, and no lemma assumes anything of it. A directory carries its last write
  time, which the operating system sets when a name is created in or removed from it. What the
  operating system refuses (a full disk, a missing permission) is the record \<open>os\<close>: every
  definition takes it, so every error branch of the sources is a branch of the model.
\<close>

type_synonym path = "string list"

record fs =
  files :: "(path \<times> bytes) list"
  dirs :: "(path \<times> int) list"
  clock :: int

record os =
  pid :: nat
  mkdir_fails :: "path \<Rightarrow> bool"
  write_fails :: "path \<Rightarrow> bool"
  rename_fails :: "path \<Rightarrow> bool"
  claim_fails :: "path \<Rightarrow> bool"

definition healthy :: "os \<Rightarrow> bool" where
  "healthy p \<longleftrightarrow> mkdir_fails p = (\<lambda>_. False) \<and> write_fails p = (\<lambda>_. False) \<and>
     rename_fails p = (\<lambda>_. False) \<and> claim_fails p = (\<lambda>_. False)"

datatype storage_error =
    CannotWrite path
  | CannotPublish path
  | CannotFinalize path
  | CannotClaimId path
  | CannotClaim path

abbreviation file_at :: "fs \<Rightarrow> path \<Rightarrow> bytes option" where
  "file_at f \<equiv> map_of (files f)"

abbreviation dir_at :: "fs \<Rightarrow> path \<Rightarrow> int option" where
  "dir_at f \<equiv> map_of (dirs f)"

definition fs_join :: "path \<Rightarrow> string \<Rightarrow> path" where
  "fs_join p c = (if c = '''' then p else p @ [c])"

definition fs_exists :: "path \<Rightarrow> fs \<Rightarrow> bool" where
  "fs_exists p f \<longleftrightarrow> file_at f p \<noteq> None \<or> dir_at f p \<noteq> None"

definition touch :: "path \<Rightarrow> fs \<Rightarrow> fs" where
  "touch d f = f\<lparr>dirs := map (\<lambda>(p, t). (p, if p = d then clock f else t)) (dirs f)\<rparr>"

definition create_directory :: "os \<Rightarrow> path \<Rightarrow> fs \<Rightarrow> fs" where
  "create_directory os p f =
     (if fs_exists p f \<or> mkdir_fails os p then f
      else touch (butlast p) (f\<lparr>dirs := (p, clock f) # dirs f\<rparr>))"

text \<open>\<^verbatim>\<open>fs::create_directories(p, ec)\<close>: every missing ancestor, outermost first; errors are dropped.\<close>

definition create_directories :: "os \<Rightarrow> path \<Rightarrow> fs \<Rightarrow> fs" where
  "create_directories os p f = fold (create_directory os) (map (\<lambda>n. take n p) [0..<Suc (length p)]) f"

definition store_file :: "path \<Rightarrow> bytes \<Rightarrow> fs \<Rightarrow> fs" where
  "store_file p v f =
     (if file_at f p = None then touch (butlast p) (f\<lparr>files := AList.update p v (files f)\<rparr>)
      else f\<lparr>files := AList.update p v (files f)\<rparr>)"

text \<open>\<^verbatim>\<open>fs::remove(p, ec)\<close> of a file.\<close>

definition fs_remove :: "path \<Rightarrow> fs \<Rightarrow> fs" where
  "fs_remove p f =
     (if file_at f p = None then f
      else touch (butlast p) (f\<lparr>files := AList.delete p (files f)\<rparr>))"

text \<open>\<^verbatim>\<open>fs::rename(a, b, ec)\<close> of a file: atomic, replaces the target; the flag is \<^verbatim>\<open>!ec\<close>.\<close>

definition fs_rename :: "os \<Rightarrow> path \<Rightarrow> path \<Rightarrow> fs \<Rightarrow> bool \<times> fs" where
  "fs_rename os a b f =
     (case file_at f a of
        None \<Rightarrow> (False, f)
      | Some v \<Rightarrow>
          if rename_fails os a \<or> dir_at f (butlast b) = None then (False, f)
          else (True, touch (butlast b) (touch (butlast a)
                  (f\<lparr>files := AList.update b v (AList.delete a (files f))\<rparr>))))"

text \<open>\<^verbatim>\<open>fs::remove_all(p, ec)\<close>: the whole subtree.\<close>

definition fs_remove_all :: "path \<Rightarrow> fs \<Rightarrow> fs" where
  "fs_remove_all p f =
     (let g = f\<lparr>files := filter (\<lambda>e. \<not> prefix p (fst e)) (files f),
                dirs := filter (\<lambda>e. \<not> prefix p (fst e)) (dirs f)\<rparr>
      in if fs_exists p f then touch (butlast p) g else g)"

text \<open>\<^verbatim>\<open>fs::directory_iterator(d, ec)\<close>: the names in one directory; none when it does not exist.\<close>

definition list_dir :: "path \<Rightarrow> fs \<Rightarrow> string list" where
  "list_dir d f =
     map last (filter (\<lambda>p. p \<noteq> [] \<and> butlast p = d) (map fst (files f) @ map fst (dirs f)))"

text \<open>\<^verbatim>\<open>std::ifstream\<close> read to the end; a file that cannot be opened reads as empty.\<close>

definition read_file :: "path \<Rightarrow> fs \<Rightarrow> bytes" where
  "read_file p f = (case file_at f p of None \<Rightarrow> '''' | Some v \<Rightarrow> v)"

text \<open>\<^verbatim>\<open>TryClaimFile\<close>: \<^verbatim>\<open>open(path, O_WRONLY | O_CREAT | O_EXCL)\<close>; false on \<^verbatim>\<open>EEXIST\<close>, an exception otherwise.\<close>

definition TryClaimFile :: "os \<Rightarrow> path \<Rightarrow> fs \<Rightarrow> (storage_error + bool) \<times> fs" where
  "TryClaimFile os p f =
     (if fs_exists p f then (Inr False, f)
      else if claim_fails os p \<or> dir_at f (butlast p) = None then (Inl (CannotClaim p), f)
      else (Inr True, store_file p '''' f))"

text \<open>The temporary name next to the target, private to the process.\<close>

definition temporary :: "os \<Rightarrow> path \<Rightarrow> path" where
  "temporary os p = butlast p @ [last p @ ''.tmp.'' @ show_nat (pid os)]"

text \<open>
  \<^verbatim>\<open>write_file_atomically\<close>: the value goes to the temporary, which is renamed over the target. A
  stream that cannot be opened or written leaves no temporary behind and throws; so does a
  rename that fails.
\<close>

definition write_file_atomically :: "os \<Rightarrow> path \<Rightarrow> bytes \<Rightarrow> fs \<Rightarrow> (storage_error + unit) \<times> fs" where
  "write_file_atomically os p v f =
     (let t = temporary os p in
      if write_fails os t \<or> dir_at f (butlast t) = None
      then (Inl (CannotWrite t), fs_remove t f)
      else (case fs_rename os t p (store_file t v f) of
              (True, f2) \<Rightarrow> (Inr (), f2)
            | (False, f2) \<Rightarrow> (Inl (CannotPublish p), fs_remove t f2)))"

subsection \<open>What each call does to the files and to the write times\<close>

lemma files_touch [simp]: "files (touch d f) = files f"
  by (simp add: touch_def)

lemma clock_touch [simp]: "clock (touch d f) = clock f"
  by (simp add: touch_def)

lemma dir_at_touch [simp]:
  "dir_at (touch d f) p = (if p = d then map_option (\<lambda>_. clock f) (dir_at f p) else dir_at f p)"
proof -
  have "map_of (map (\<lambda>(p, t). (p, if p = d then c else t)) xs) p =
      (if p = d then map_option (\<lambda>_. c) (map_of xs p) else map_of xs p)" for c and xs :: "(path \<times> int) list"
    by (induction xs) auto
  then show ?thesis by (simp add: touch_def)
qed

lemma map_fst_dirs_touch [simp]: "map fst (dirs (touch d f)) = map fst (dirs f)"
  by (simp add: touch_def comp_def case_prod_beta)

lemma file_at_store [simp]: "file_at (store_file p v f) = (file_at f)(p \<mapsto> v)"
  by (simp add: store_file_def update_conv')

lemma file_at_remove [simp]: "file_at (fs_remove p f) = (file_at f)(p := None)"
  by (auto simp: fs_remove_def delete_conv')

lemma files_create_directory [simp]: "files (create_directory os p f) = files f"
  by (simp add: create_directory_def)

lemma files_create_directories [simp]: "files (create_directories os p f) = files f"
proof -
  have "files (fold (create_directory os) ps g) = files g" for ps g
    by (induction ps arbitrary: g) auto
  then show ?thesis by (simp add: create_directories_def)
qed

lemma fs_rename_fail: "fs_rename os a b f = (False, f') \<Longrightarrow> f' = f"
  by (auto simp: fs_rename_def split: option.splits if_splits)

lemma fs_rename_ok:
  assumes "fs_rename os a b f = (True, f')"
  obtains v where "file_at f a = Some v" "file_at f' = (file_at f)(a := None, b \<mapsto> v)"
  using assms by (auto simp: fs_rename_def update_conv' delete_conv' split: option.splits if_splits)

lemma fs_rename_healthy:
  assumes "healthy os" "file_at f a = Some v" "dir_at f (butlast b) \<noteq> None"
  shows "\<exists>f'. fs_rename os a b f = (True, f') \<and> file_at f' = (file_at f)(a := None, b \<mapsto> v)"
  using assms by (auto simp: fs_rename_def healthy_def update_conv' delete_conv')

lemma file_at_remove_all [simp]:
  "file_at (fs_remove_all p f) q = (if prefix p q then None else file_at f q)"
proof -
  have "map_of (filter (\<lambda>e. \<not> prefix p (fst e)) xs) q = (if prefix p q then None else map_of xs q)"
    for xs :: "(path \<times> bytes) list"
    by (induction xs) auto
  then show ?thesis by (simp add: fs_remove_all_def Let_def)
qed

lemma clock_simps [simp]:
  "clock (store_file p v f) = clock f" "clock (fs_remove p f) = clock f"
  "clock (create_directory os p f) = clock f"
  by (simp_all add: store_file_def fs_remove_def create_directory_def)

lemma clock_create_directories [simp]: "clock (create_directories os p f) = clock f"
proof -
  have "clock (fold (create_directory os) ps g) = clock g" for ps g
    by (induction ps arbitrary: g) auto
  then show ?thesis by (simp add: create_directories_def)
qed

subsection \<open>Directories\<close>

lemma dir_at_store [simp]: "dir_at (store_file p v f) d = None \<longleftrightarrow> dir_at f d = None"
  by (simp add: store_file_def)

lemma dir_at_remove [simp]: "dir_at (fs_remove p f) d = None \<longleftrightarrow> dir_at f d = None"
  by (simp add: fs_remove_def)

lemma dir_at_rename [simp]: "dir_at (snd (fs_rename os a b f)) d = None \<longleftrightarrow> dir_at f d = None"
  by (auto simp: fs_rename_def split: option.splits)

lemma dir_at_create_directory:
  "dir_at f d \<noteq> None \<Longrightarrow> dir_at (create_directory os p f) d \<noteq> None"
  by (auto simp: create_directory_def fs_exists_def)

lemma dir_at_fold_create:
  "dir_at f d \<noteq> None \<Longrightarrow> dir_at (fold (create_directory os) ps f) d \<noteq> None"
proof (induction ps arbitrary: f)
  case Nil
  then show ?case by simp
next
  case (Cons p ps)
  have "dir_at (create_directory os p f) d \<noteq> None"
    using dir_at_create_directory [OF Cons.prems] .
  then show ?case using Cons.IH by simp
qed

lemma dir_at_create_directories:
  assumes "healthy os" and "file_at f p = None"
  shows "dir_at (create_directories os p f) p \<noteq> None"
proof -
  let ?f = "fold (create_directory os) (map (\<lambda>n. take n p) [0..<length p]) f"
  have files: "files (fold (create_directory os) ps g) = files g" for ps g
    by (induction ps arbitrary: g) auto
  have "dir_at (create_directory os p ?f) p \<noteq> None"
    using assms by (auto simp: create_directory_def fs_exists_def healthy_def files)
  then show ?thesis by (simp add: create_directories_def)
qed

end
