(* ===== verification/Storage.thy ===== *)
theory Storage
  imports File_System
begin

section \<open>FunctionStorage: key-value store, append log and work queue\<close>

text \<open>
  \<^verbatim>\<open>src/src/storage.cpp\<close>: \<^verbatim>\<open>FilesystemStorage\<close>, the state that outlives one worker process. Every
  operation is a function of the operating system's record, the file system and, for the queue,
  the process's own cursors; it returns its result (\<open>Inl\<close> for an exception) and the file system it
  leaves. Log ids are \<open>nat\<close>: the sources count them in \<^verbatim>\<open>int64_t\<close> from 0 upwards, and
  \<open>strtoll\<close> keeps the 64-bit saturation of the library call. This theory runs one process at a
  time; \<open>Storage_Concurrent\<close> interleaves the same calls of several processes.
\<close>

record storage =
  queue_cursors :: "string \<rightharpoonup> nat"
  queue_highs :: "string \<rightharpoonup> nat"

subsection \<open>Names\<close>

definition scope_dir :: "bytes \<Rightarrow> path" where
  "scope_dir scope = fs_join [] (hex scope)"

definition kv_path :: "bytes \<Rightarrow> bytes \<Rightarrow> path" where
  "kv_path scope key = fs_join (scope_dir scope) (''kv_'' @ hex key)"

definition log_dir :: "bytes \<Rightarrow> bytes \<Rightarrow> bytes \<Rightarrow> path" where
  "log_dir scope ns key = fs_join (scope_dir scope) (''log_'' @ hex ns @ ''__'' @ hex key)"

definition kQueueNamespace :: string where
  "kQueueNamespace = ''__queue''"

definition pad :: "nat \<Rightarrow> string" where
  "pad lid = (let digits = show_nat lid in replicate (20 - min 20 (length digits)) (CHR ''0'') @ digits)"

definition entry_name :: "nat \<Rightarrow> string" where
  "entry_name lid = pad lid @ ''.entry''"

definition claim_name :: "nat \<Rightarrow> string" where
  "claim_name lid = pad lid @ ''.claim''"

definition used_name :: "nat \<Rightarrow> string" where
  "used_name lid = pad lid @ ''.used''"

definition claimed_name :: "os \<Rightarrow> nat \<Rightarrow> string" where
  "claimed_name os lid = entry_name lid @ ''.claimed.'' @ show_nat (pid os)"

definition transaction_scope :: "bytes \<Rightarrow> bytes" where
  "transaction_scope transaction_opaque_data = ''txn:'' @ transaction_opaque_data"

subsection \<open>Key-value store\<close>

definition kv_get :: "bytes \<Rightarrow> bytes \<Rightarrow> fs \<Rightarrow> bytes option" where
  "kv_get scope key f =
     (let path = kv_path scope key in
      if \<not> fs_exists path f then None else Some (read_file path f))"

definition kv_put :: "os \<Rightarrow> bytes \<Rightarrow> bytes \<Rightarrow> bytes \<Rightarrow> fs \<Rightarrow> (storage_error + unit) \<times> fs" where
  "kv_put os scope key value f =
     (let path = kv_path scope key in
      write_file_atomically os path value (create_directories os (butlast path) f))"

definition kv_del :: "bytes \<Rightarrow> bytes \<Rightarrow> fs \<Rightarrow> fs" where
  "kv_del scope key f = fs_remove (kv_path scope key) f"

subsection \<open>Append log\<close>

definition kMaxClaimAttempts :: nat where
  "kMaxClaimAttempts = 4096"

definition highest_id :: "path \<Rightarrow> fs \<Rightarrow> nat" where
  "highest_id d f = nat (foldl (\<lambda>highest name. max highest (strtoll name)) 0 (list_dir d f))"

text \<open>The loop of \<^verbatim>\<open>claim_from\<close>: claim, look for a spent id, publish, leave the tombstone.\<close>

function claim_loop ::
    "os \<Rightarrow> path \<Rightarrow> bytes \<Rightarrow> nat \<Rightarrow> nat \<Rightarrow> fs \<Rightarrow> (storage_error + nat) \<times> fs" where
  "claim_loop os d value lid limit f =
     (if limit \<le> lid then (Inl (CannotClaimId d), f)
      else
        let reservation = d @ [claim_name lid];
            entry = d @ [entry_name lid];
            used = d @ [used_name lid]
        in case TryClaimFile os reservation f of
             (Inl e, f1) \<Rightarrow> (Inl e, f1)
           | (Inr False, f1) \<Rightarrow> claim_loop os d value (Suc lid) limit f1
           | (Inr True, f1) \<Rightarrow>
               if fs_exists entry f1 \<or> fs_exists used f1
               then claim_loop os d value (Suc lid) limit (fs_remove reservation f1)
               else (case write_file_atomically os entry value f1 of
                       (Inl e, f2) \<Rightarrow> (Inl e, f2)
                     | (Inr _, f2) \<Rightarrow>
                         (case fs_rename os reservation used f2 of
                            (False, f3) \<Rightarrow> (Inl (CannotFinalize d), f3)
                          | (True, f3) \<Rightarrow> (Inr lid, f3))))"
  by pat_completeness auto
termination
  by (relation "measure (\<lambda>(os, d, value, lid, limit, f). limit - lid)") auto

declare claim_loop.simps [simp del]

definition claim_from :: "os \<Rightarrow> path \<Rightarrow> nat \<Rightarrow> bytes \<Rightarrow> fs \<Rightarrow> (storage_error + nat) \<times> fs" where
  "claim_from os d from value f = claim_loop os d value from (from + kMaxClaimAttempts) f"

definition append_log ::
    "os \<Rightarrow> bytes \<Rightarrow> bytes \<Rightarrow> bytes \<Rightarrow> bytes \<Rightarrow> fs \<Rightarrow> (storage_error + nat) \<times> fs" where
  "append_log os scope ns key value f =
     (let dir = log_dir scope ns key;
          f1 = create_directories os dir f
      in claim_from os dir (highest_id dir f1 + 1) value f1)"

definition scan :: "bytes \<Rightarrow> bytes \<Rightarrow> bytes \<Rightarrow> int \<Rightarrow> nat \<Rightarrow> fs \<Rightarrow> (int \<times> bytes) list" where
  "scan scope ns key after_id limit f =
     (let dir = log_dir scope ns key in
      if \<not> fs_exists dir f then []
      else
        let found = map (\<lambda>name. (strtoll name, dir @ [name]))
                      (filter (\<lambda>name. ends_with name ''.entry'' \<and> after_id < strtoll name)
                        (list_dir dir f))
        in map (\<lambda>(lid, path). (lid, read_file path f)) (take limit (sort_key fst found)))"

subsection \<open>Work queue\<close>

fun push_loop :: "os \<Rightarrow> path \<Rightarrow> nat \<Rightarrow> bytes list \<Rightarrow> fs \<Rightarrow> (storage_error + unit) \<times> fs" where
  "push_loop os d next [] f = (Inr (), f)"
| "push_loop os d next (item # items) f =
     (case claim_from os d next item f of
        (Inl e, f1) \<Rightarrow> (Inl e, f1)
      | (Inr lid, f1) \<Rightarrow> push_loop os d (lid + 1) items f1)"

definition queue_push :: "os \<Rightarrow> bytes \<Rightarrow> bytes list \<Rightarrow> fs \<Rightarrow> (storage_error + unit) \<times> fs" where
  "queue_push os scope items f =
     (if items = [] then (Inr (), f)
      else
        let dir = log_dir scope kQueueNamespace '''';
            f1 = create_directories os dir f
        in push_loop os dir (highest_id dir f1 + 1) items f1)"

datatype probe = Taken nat "nat option" | Drained "nat option"

text \<open>
  One pass of the inner loop of \<^verbatim>\<open>queue_pop\<close>: probe the ids up to the known high-water mark by
  renaming; remember the lowest id whose push has not landed. The renames that fail change
  nothing, so the pass reads the file system only; the successful rename is done by the caller.
\<close>

function probe_pass :: "os \<Rightarrow> path \<Rightarrow> fs \<Rightarrow> nat \<Rightarrow> nat \<Rightarrow> nat option \<Rightarrow> probe" where
  "probe_pass os d f lid high pending =
     (if high < lid then Drained pending
      else if fst (fs_rename os (d @ [entry_name lid]) (d @ [claimed_name os lid]) f)
      then Taken lid pending
      else probe_pass os d f (Suc lid) high
             (if fs_exists (d @ [claim_name lid]) f \<and> pending = None then Some lid else pending))"
  by pat_completeness auto
termination
  by (relation "measure (\<lambda>(os, d, f, lid, high, pending). Suc high - lid)") auto

declare probe_pass.simps [simp del]

text \<open>The outer loop: the result is the id taken, the new cursor and the new high-water mark.\<close>

function pop_loop :: "os \<Rightarrow> path \<Rightarrow> fs \<Rightarrow> nat \<Rightarrow> nat \<Rightarrow> nat option \<times> nat \<times> nat" where
  "pop_loop os d f cursor high =
     (case probe_pass os d f (cursor + 1) high None of
        Taken lid pending \<Rightarrow> (Some lid, case pending of None \<Rightarrow> lid | Some p \<Rightarrow> p - 1, high)
      | Drained (Some p) \<Rightarrow> (None, p - 1, high)
      | Drained None \<Rightarrow>
          let known = high; high' = highest_id d f in
          if high' \<le> known then (None, cursor, high') else pop_loop os d f cursor high')"
  by pat_completeness auto
termination
  by (relation "measure (\<lambda>(os, d, f, cursor, high). highest_id d f - high)") auto

declare pop_loop.simps [simp del]

definition queue_high :: "storage \<Rightarrow> bytes \<Rightarrow> path \<Rightarrow> fs \<Rightarrow> nat" where
  "queue_high st scope dir f =
     (case queue_highs st scope of None \<Rightarrow> highest_id dir f | Some h \<Rightarrow> h)"

definition queue_cursor :: "storage \<Rightarrow> bytes \<Rightarrow> nat" where
  "queue_cursor st scope = (case queue_cursors st scope of None \<Rightarrow> 0 | Some c \<Rightarrow> c)"

definition queue_pop :: "os \<Rightarrow> storage \<Rightarrow> bytes \<Rightarrow> fs \<Rightarrow> bytes option \<times> storage \<times> fs" where
  "queue_pop os st scope f =
     (let dir = log_dir scope kQueueNamespace '''' in
      if \<not> fs_exists dir f then (None, st, f)
      else
        let cursor = queue_cursor st scope; high = queue_high st scope dir f in
        case pop_loop os dir f cursor high of (taken, cursor', high') \<Rightarrow>
          let st' = st\<lparr>queue_cursors := (queue_cursors st)(scope \<mapsto> cursor'),
                       queue_highs := (queue_highs st)(scope \<mapsto> high')\<rparr>
          in case taken of
               None \<Rightarrow> (None, st', f)
             | Some lid \<Rightarrow>
                 let claimed = dir @ [claimed_name os lid];
                     f1 = snd (fs_rename os (dir @ [entry_name lid]) claimed f);
                     value = read_file claimed f1
                 in (Some value, st', fs_remove claimed f1))"

subsection \<open>Scopes\<close>

definition clear :: "storage \<Rightarrow> bytes \<Rightarrow> fs \<Rightarrow> storage \<times> fs" where
  "clear st scope f =
     (if scope = '''' then (st, f)
      else (st\<lparr>queue_cursors := (queue_cursors st)(scope := None),
              queue_highs := (queue_highs st)(scope := None)\<rparr>,
            fs_remove_all (scope_dir scope) f))"

text \<open>Seconds; \<^verbatim>\<open>std::chrono::hours(24)\<close>.\<close>

definition stale_after :: int where
  "stale_after = 24 * 60 * 60"

definition sweep_stale :: "fs \<Rightarrow> fs" where
  "sweep_stale f =
     (let cutoff = clock f - stale_after in
      fold (\<lambda>p g. case dir_at g p of
                    None \<Rightarrow> g
                  | Some written \<Rightarrow> if cutoff \<le> written then g else fs_remove_all p g)
        (filter (\<lambda>p. length p = 1) (map fst (dirs f))) f)"

text \<open>The constructor: the base directory (created if need be), then the sweep.\<close>

definition open_storage :: "os \<Rightarrow> fs \<Rightarrow> storage \<times> fs" where
  "open_storage os f =
     (\<lparr>queue_cursors = Map.empty, queue_highs = Map.empty\<rparr>,
      sweep_stale (create_directories os [] f))"

subsection \<open>Names: what a path component may contain, and that names do not collide\<close>

lemma append_sep_inject:
  assumes "x \<notin> set a" "x \<notin> set b"
  shows "a @ x # s = b @ x # t \<longleftrightarrow> a = b \<and> s = t"
  using assms by (auto simp: append_eq_append_conv2 append_eq_Cons_conv Cons_eq_append_conv)

lemma scope_dir_inject [simp]: "scope_dir a = scope_dir b \<longleftrightarrow> a = b"
  by (auto simp: scope_dir_def fs_join_def)

lemma kv_path_inject [simp]: "kv_path s k = kv_path s' k' \<longleftrightarrow> s = s' \<and> k = k'"
  by (auto simp: kv_path_def scope_dir_def fs_join_def)

lemma butlast_kv_path: "butlast (kv_path scope key) = scope_dir scope"
  by (simp add: kv_path_def fs_join_def)

lemma log_dir_inject [simp]: "log_dir s n k = log_dir s' n' k' \<longleftrightarrow> s = s' \<and> n = n' \<and> k = k'"
  using append_sep_inject [of "CHR ''_''" "hex n" "hex n'" "CHR ''_'' # hex k" "CHR ''_'' # hex k'"]
  by (auto simp: log_dir_def scope_dir_def fs_join_def hex_no_underscore)

lemma kv_path_not_in_log [simp]: "kv_path s k \<noteq> log_dir s' n k' @ [x]" "kv_path s k \<noteq> log_dir s' n k'"
  by (auto simp: kv_path_def log_dir_def scope_dir_def fs_join_def)

lemma prefix_scope_kv_path: "s \<noteq> [] \<Longrightarrow> prefix (scope_dir s) (kv_path s' k) \<longleftrightarrow> s = s'"
  by (auto simp: scope_dir_def kv_path_def fs_join_def)

lemma prefix_scope_log_dir: "s \<noteq> [] \<Longrightarrow> prefix (scope_dir s) (log_dir s' n k @ p) \<longleftrightarrow> s = s'"
  by (auto simp: scope_dir_def log_dir_def fs_join_def)

lemma pad_digits: "\<forall>c \<in> set (pad i). is_digit c"
  using show_nat_digits [of i] by (auto simp: pad_def Let_def is_digit_def)

lemma dec_value_pad [simp]: "dec_value (pad i) = i"
  by (simp add: pad_def Let_def dec_value_append)

lemma pad_not_Nil [simp]: "pad i \<noteq> []"
  by (simp add: pad_def Let_def)

lemma pad_inject [simp]: "pad i = pad j \<longleftrightarrow> i = j"
  by (metis dec_value_pad)

lemma pad_dot_inject [simp, name_simps]:
  "pad i @ CHR ''.'' # s = pad j @ CHR ''.'' # t \<longleftrightarrow> i = j \<and> s = t"
proof -
  have "CHR ''.'' \<notin> set (pad k)" for k using pad_digits [of k] by auto
  then show ?thesis using append_sep_inject by (metis dec_value_pad)
qed

lemma strtoll_pad:
  assumes "int i \<le> int64_max"
  shows "strtoll (pad i @ CHR ''.'' # t) = int i"
proof -
  have "clamp64 (int i) = int i"
    using assms by (intro clamp64_id) (simp_all add: int64_min_def)
  then show ?thesis
    using strtoll_digits [OF pad_not_Nil pad_digits, of "CHR ''.'' # t"] by simp
qed

lemma entry_name_eq: "entry_name i = pad i @ CHR ''.'' # ''entry''"
  and claim_name_eq: "claim_name i = pad i @ CHR ''.'' # ''claim''"
  and used_name_eq: "used_name i = pad i @ CHR ''.'' # ''used''"
  and claimed_name_eq: "claimed_name os i = pad i @ CHR ''.'' # ''entry.claimed.'' @ show_nat (pid os)"
  by (simp_all add: entry_name_def claim_name_def used_name_def claimed_name_def)

lemmas log_names = entry_name_eq claim_name_eq used_name_eq claimed_name_eq

lemma temporary_entry:
  "temporary os (d @ [pad i @ ''.entry'']) = d @ [pad i @ CHR ''.'' # ''entry.tmp.'' @ show_nat (pid os)]"
  by (simp add: temporary_def)

end
