(* ===== verification/Storage_KV.thy ===== *)
theory Storage_KV
  imports Storage
begin

section \<open>The key-value store: contract, implementation, scopes\<close>

text \<open>
  The contract of \<^verbatim>\<open>kv_get\<close>, \<^verbatim>\<open>kv_put\<close>, \<^verbatim>\<open>kv_del\<close> as a locale, the facts its clients need
  (the buffering and aggregate handlers, which stash what a later call on another process
  reloads), and its interpretation on the file-system implementation, for every operating
  system, failing ones included.
\<close>

locale kv_store =
  fixes get :: "'k \<Rightarrow> 's \<Rightarrow> 'v option"
    and put :: "'k \<Rightarrow> 'v \<Rightarrow> 's \<Rightarrow> ('e + unit) \<times> 's"
    and del :: "'k \<Rightarrow> 's \<Rightarrow> 's"
    and inv :: "'s \<Rightarrow> bool"
  assumes put_inv: "inv s \<Longrightarrow> inv (snd (put k v s))"
    and del_inv: "inv s \<Longrightarrow> inv (del k s)"
    and put_ok: "inv s \<Longrightarrow> put k v s = (Inr u, s') \<Longrightarrow> get j s' = (if j = k then Some v else get j s)"
    and put_fail: "inv s \<Longrightarrow> put k v s = (Inl e, s') \<Longrightarrow> get j s' = get j s"
    and del_get: "inv s \<Longrightarrow> get j (del k s) = (if j = k then None else get j s)"
begin

text \<open>A write is all or nothing: readers see the old value or the new one.\<close>

lemma put_atomic:
  assumes "inv s"
  shows "get j (snd (put k v s)) = get j s \<or> (j = k \<and> get j (snd (put k v s)) = Some v)"
proof (cases "put k v s")
  case (Pair r s')
  then show ?thesis
  proof (cases r)
    case (Inl e)
    with assms Pair put_fail show ?thesis by auto
  next
    case (Inr u)
    with assms Pair put_ok [of s k v u s' j] show ?thesis by (auto split: if_splits)
  qed
qed

fun put_all :: "('k \<times> 'v) list \<Rightarrow> 's \<Rightarrow> ('e + unit) \<times> 's" where
  "put_all [] s = (Inr (), s)"
| "put_all ((k, v) # kvs) s =
     (case put k v s of
        (Inl e, s') \<Rightarrow> (Inl e, s')
      | (Inr _, s') \<Rightarrow> put_all kvs s')"

lemma put_all_inv: "inv s \<Longrightarrow> inv (snd (put_all kvs s))"
proof (induction kvs s rule: put_all.induct)
  case (2 k v kvs s)
  have "inv (snd (put k v s))" using 2(2) by (rule put_inv)
  then show ?case using 2(1) by (auto split: prod.splits sum.splits)
qed simp

text \<open>A sequence of writes that succeeds is a map update; the last write to a key wins.\<close>

lemma put_all_get:
  assumes "inv s" and "put_all kvs s = (Inr u, s')"
  shows "get j s' = (case map_of (rev kvs) j of None \<Rightarrow> get j s | Some v \<Rightarrow> Some v)"
  using assms
proof (induction kvs s rule: put_all.induct)
  case (2 k v kvs s)
  from 2(3) obtain w t where t: "put k v s = (Inr w, t)" and rest: "put_all kvs t = (Inr u, s')"
    by (auto split: prod.splits sum.splits)
  have "inv t" using put_inv [OF 2(2), of k v] t by simp
  then have "get j s' = (case map_of (rev kvs) j of None \<Rightarrow> get j t | Some v \<Rightarrow> Some v)"
    using 2(1) [OF t [symmetric] refl _ rest] by simp
  moreover have "get j t = (if j = k then Some v else get j s)"
    using put_ok [OF 2(2) t] .
  ultimately show ?case by (auto simp: map_add_def split: option.splits)
qed simp

text \<open>A sequence of writes that fails part way leaves a prefix of them in place.\<close>

lemma put_all_prefix:
  assumes "inv s"
  shows "\<exists>n \<le> length kvs. \<forall>j. get j (snd (put_all kvs s)) =
           (case map_of (rev (take n kvs)) j of None \<Rightarrow> get j s | Some v \<Rightarrow> Some v)"
  using assms
proof (induction kvs s rule: put_all.induct)
  case (1 s)
  then show ?case by simp
next
  case (2 k v kvs s)
  obtain r t where t: "put k v s = (r, t)" by (cases "put k v s")
  show ?case
  proof (cases r)
    case (Inl e)
    then have "\<forall>j. get j t = get j s" using put_fail [OF 2(2)] t by blast
    with Inl t show ?thesis by (intro exI [of _ 0]) simp
  next
    case (Inr u)
    have "inv t" using put_inv [OF 2(2), of k v] t by simp
    with 2(1) t Inr obtain n where n: "n \<le> length kvs"
      "\<forall>j. get j (snd (put_all kvs t)) =
         (case map_of (rev (take n kvs)) j of None \<Rightarrow> get j t | Some v \<Rightarrow> Some v)" by metis
    have "\<forall>j. get j t = (if j = k then Some v else get j s)"
      using put_ok [OF 2(2)] t Inr by blast
    with n t Inr show ?thesis
      by (intro exI [of _ "Suc n"]) (auto simp: map_add_def split: option.splits)
  qed
qed

end

subsection \<open>The implementation\<close>

text \<open>No directory sits where a key's file goes.\<close>

definition kv_inv :: "fs \<Rightarrow> bool" where
  "kv_inv f \<longleftrightarrow> (\<forall>s k. dir_at f (kv_path s k) = None)"

lemma kv_get_file: "kv_inv f \<Longrightarrow> kv_get s k f = file_at f (kv_path s k)"
  by (auto simp: kv_get_def kv_inv_def fs_exists_def read_file_def Let_def)

lemma write_file_atomically_Inr:
  assumes "write_file_atomically os p v f = (Inr u, f')"
  shows "file_at f' = (file_at f)(temporary os p := None, p \<mapsto> v)"
proof -
  let ?t = "temporary os p"
  from assms have r: "fs_rename os ?t p (store_file ?t v f) = (True, f')"
    by (auto simp: write_file_atomically_def Let_def split: if_splits prod.splits bool.splits)
  then obtain w where "file_at (store_file ?t v f) ?t = Some w"
    "file_at f' = (file_at (store_file ?t v f))(?t := None, p \<mapsto> w)"
    by (rule fs_rename_ok)
  then show ?thesis by simp
qed

lemma write_file_atomically_Inl:
  assumes "write_file_atomically os p v f = (Inl e, f')"
  shows "file_at f' = (file_at f)(temporary os p := None)"
proof -
  let ?t = "temporary os p"
  consider "f' = fs_remove ?t f"
    | g where "fs_rename os ?t p (store_file ?t v f) = (False, g)" "f' = fs_remove ?t g"
    using assms by (auto simp: write_file_atomically_def Let_def split: if_splits prod.splits bool.splits)
  then show ?thesis
  proof cases
    case 1
    then show ?thesis by simp
  next
    case 2
    from fs_rename_fail [OF 2(1)] have "g = store_file ?t v f" .
    with 2(2) show ?thesis by simp
  qed
qed

lemma dir_at_write_file [simp]:
  "dir_at (snd (write_file_atomically os p v f)) d = None \<longleftrightarrow> dir_at f d = None"
proof (cases "write_fails os (temporary os p) \<or> dir_at f (butlast (temporary os p)) = None")
  case True
  then show ?thesis by (simp add: write_file_atomically_def Let_def)
next
  case False
  let ?t = "temporary os p"
  obtain b g where r: "fs_rename os ?t p (store_file ?t v f) = (b, g)" by fastforce
  have "dir_at g d = None \<longleftrightarrow> dir_at f d = None"
    using dir_at_rename [of os ?t p "store_file ?t v f" d] r by simp
  with False r show ?thesis by (cases b) (simp_all add: write_file_atomically_def Let_def)
qed

lemma dir_at_create_other:
  assumes "\<not> prefix q p"
  shows "dir_at (create_directories os p f) q = None \<longleftrightarrow> dir_at f q = None"
proof -
  have "dir_at (fold (create_directory os) ps g) q = None \<longleftrightarrow> dir_at g q = None"
    if "q \<notin> set ps" for ps g
    using that
  proof (induction ps arbitrary: g)
    case (Cons p' ps)
    then show ?case by (simp add: create_directory_def)
  qed simp
  moreover have "q \<notin> set (map (\<lambda>n. take n p) [0..<Suc (length p)])"
    using assms take_is_prefix by (auto simp del: upt_Suc)
  ultimately show ?thesis unfolding create_directories_def by blast
qed

lemma kv_path_not_prefix [simp]: "\<not> prefix (kv_path s k) (scope_dir s')"
  by (auto simp: kv_path_def scope_dir_def fs_join_def prefix_Cons)

lemma temporary_kv_path [simp]: "kv_path s' k' \<noteq> temporary os (kv_path s k)"
proof -
  have "CHR ''.'' \<notin> set (hex k')" using set_hex [of k'] by auto
  then show ?thesis
    by (auto simp: kv_path_def scope_dir_def temporary_def fs_join_def butlast_append)
qed

lemma kv_inv_put: "kv_inv f \<Longrightarrow> kv_inv (snd (kv_put os s k v f))"
  by (simp add: kv_inv_def kv_put_def Let_def butlast_kv_path dir_at_create_other)

lemma kv_inv_del: "kv_inv f \<Longrightarrow> kv_inv (kv_del s k f)"
  by (simp add: kv_inv_def kv_del_def)

lemma kv_put_ok:
  assumes "kv_inv f" "kv_put os s k v f = (Inr u, f')"
  shows "kv_get s' k' f' = (if (s', k') = (s, k) then Some v else kv_get s' k' f)"
proof -
  have "kv_inv f'" using kv_inv_put [OF assms(1), of os s k v] assms(2) by simp
  moreover have "file_at f' = (file_at f)(temporary os (kv_path s k) := None, kv_path s k \<mapsto> v)"
    using write_file_atomically_Inr [OF assms(2) [unfolded kv_put_def Let_def]] by simp
  ultimately show ?thesis using assms(1) by (simp add: kv_get_file)
qed

lemma kv_put_fail:
  assumes "kv_inv f" "kv_put os s k v f = (Inl e, f')"
  shows "kv_get s' k' f' = kv_get s' k' f"
proof -
  have "kv_inv f'" using kv_inv_put [OF assms(1), of os s k v] assms(2) by simp
  moreover have "file_at f' = (file_at f)(temporary os (kv_path s k) := None)"
    using write_file_atomically_Inl [OF assms(2) [unfolded kv_put_def Let_def]] by simp
  ultimately show ?thesis using assms(1) by (simp add: kv_get_file)
qed

lemma kv_del_get: "kv_inv f \<Longrightarrow> kv_get s' k' (kv_del s k f) = (if (s', k') = (s, k) then None else kv_get s' k' f)"
  using kv_inv_del [of f s k] by (simp add: kv_get_file) (simp add: kv_del_def)

interpretation kv: kv_store
  "\<lambda>sk. kv_get (fst sk) (snd sk)" "\<lambda>sk. kv_put os (fst sk) (snd sk)"
  "\<lambda>sk. kv_del (fst sk) (snd sk)" kv_inv for os
proof (unfold_locales, goal_cases)
  case 1
  then show ?case by (rule kv_inv_put)
next
  case 2
  then show ?case by (rule kv_inv_del)
next
  case (3 s k v u s' j)
  from kv_put_ok [OF 3(1,2), of "fst j" "snd j"] show ?case by (simp add: prod_eq_iff)
next
  case (4 s k v e s' j)
  from kv_put_fail [OF 4(1,2)] show ?case .
next
  case (5 s j k)
  from kv_del_get [OF 5(1), of "fst j" "snd j" "fst k" "snd k"] show ?case by (simp add: prod_eq_iff)
qed

text \<open>On a healthy system a write succeeds.\<close>

lemma write_file_healthy:
  assumes "healthy os" "dir_at f (butlast p) \<noteq> None" "p \<noteq> []"
  shows "\<exists>f'. write_file_atomically os p v f = (Inr (), f')"
proof -
  let ?t = "temporary os p"
  have b: "butlast ?t = butlast p" by (simp add: temporary_def)
  have "dir_at (store_file ?t v f) (butlast p) \<noteq> None" using assms(2) by simp
  from fs_rename_healthy [OF assms(1) _ this, of ?t v] obtain f' where
    "fs_rename os ?t p (store_file ?t v f) = (True, f')" by auto
  with assms b show ?thesis
    by (auto simp: write_file_atomically_def healthy_def Let_def)
qed

lemma kv_put_healthy:
  assumes "healthy os" "file_at f (scope_dir s) = None"
  shows "\<exists>f'. kv_put os s k v f = (Inr (), f')"
proof -
  have "dir_at (create_directories os (scope_dir s) f) (scope_dir s) \<noteq> None"
    using dir_at_create_directories [OF assms] .
  then show ?thesis
    using write_file_healthy [OF assms(1)] unfolding kv_put_def Let_def butlast_kv_path
    by (metis append_is_Nil_conv butlast_kv_path kv_path_def fs_join_def not_Cons_self2 append_Cons list.distinct(1))
qed

end
