(* ===== verification/Storage_Log.thy ===== *)
theory Storage_Log
  imports Storage_KV
begin

section \<open>The append log and the work queue\<close>

text \<open>
  Correctness of \<^verbatim>\<open>append\<close>, \<^verbatim>\<open>scan\<close>, \<^verbatim>\<open>queue_push\<close> and \<^verbatim>\<open>queue_pop\<close> for one process at a time. The
  abstract view of a log directory is \<open>entry_ids\<close>, the ids that hold a published entry; the view
  of a queue is \<open>content\<close>, the values of these entries in id order. \<open>wf_log\<close> is the directory
  invariant: only names this storage makes, every id within 64 bits, and no sub-directory.
\<close>

definition entry_ids :: "path \<Rightarrow> fs \<Rightarrow> nat set" where
  "entry_ids d f = {i. file_at f (d @ [entry_name i]) \<noteq> None}"

definition log_name :: "string \<Rightarrow> bool" where
  "log_name n \<longleftrightarrow> (\<exists>i t. n = pad i @ CHR ''.'' # t \<and> int i \<le> int64_max \<and>
     (ends_with n ''.entry'' \<longrightarrow> t = ''entry''))"

definition wf_log :: "path \<Rightarrow> fs \<Rightarrow> bool" where
  "wf_log d f \<longleftrightarrow> distinct (map fst (files f)) \<and>
     (\<forall>n. file_at f (d @ [n]) \<noteq> None \<longrightarrow> log_name n) \<and> (\<forall>n. dir_at f (d @ [n]) = None)"

subsection \<open>Distinct files\<close>

lemma distinct_store [simp]: "distinct (map fst (files f)) \<Longrightarrow> distinct (map fst (files (store_file p v f)))"
  by (simp add: store_file_def distinct_update)

lemma distinct_remove [simp]: "distinct (map fst (files f)) \<Longrightarrow> distinct (map fst (files (fs_remove p f)))"
  by (simp add: fs_remove_def distinct_delete)

lemma distinct_rename:
  "fs_rename os a b f = (r, f') \<Longrightarrow> distinct (map fst (files f)) \<Longrightarrow> distinct (map fst (files f'))"
  by (auto simp: fs_rename_def distinct_update distinct_delete split: option.splits if_splits)

lemma distinct_write_file:
  assumes "write_file_atomically os p v f = (r, f')" "distinct (map fst (files f))"
  shows "distinct (map fst (files f'))"
proof -
  obtain b g where g: "fs_rename os (temporary os p) p (store_file (temporary os p) v f) = (b, g)"
    by fastforce
  have "distinct (map fst (files g))" using distinct_rename [OF g] assms(2) by simp
  then show ?thesis using assms g
    by (cases b) (auto simp: write_file_atomically_def Let_def split: if_splits)
qed

subsection \<open>Directory listings\<close>

lemma file_at_iff: "file_at f p \<noteq> None \<longleftrightarrow> p \<in> set (map fst (files f))"
  by (simp add: map_of_eq_None_iff)

lemma list_dir_files:
  assumes "wf_log d f"
  shows "list_dir d f = map last (filter (\<lambda>p. p \<noteq> [] \<and> butlast p = d) (map fst (files f)))"
proof -
  have "filter (\<lambda>p. p \<noteq> [] \<and> butlast p = d) (map fst (dirs f)) = []"
  proof (rule filter_False, clarify)
    fix p assume p: "p \<in> set (map fst (dirs f))" "p \<noteq> []" "d = butlast p"
    then have "p = d @ [last p]" by simp
    with assms p(1) show False unfolding wf_log_def by (metis map_of_eq_None_iff set_map)
  qed
  then show ?thesis unfolding list_dir_def by simp
qed

lemma set_list_dir:
  assumes "wf_log d f"
  shows "set (list_dir d f) = {n. file_at f (d @ [n]) \<noteq> None}"
proof (intro set_eqI iffI)
  fix n assume "n \<in> set (list_dir d f)"
  then obtain p where "p \<in> set (map fst (files f))" "p \<noteq> []" "butlast p = d" "n = last p"
    unfolding list_dir_files [OF assms] by auto
  then show "n \<in> {n. file_at f (d @ [n]) \<noteq> None}"
    unfolding mem_Collect_eq file_at_iff by (metis append_butlast_last_id)
next
  fix n assume "n \<in> {n. file_at f (d @ [n]) \<noteq> None}"
  then have "d @ [n] \<in> set (map fst (files f))" unfolding mem_Collect_eq file_at_iff .
  then show "n \<in> set (list_dir d f)"
    unfolding list_dir_files [OF assms] set_map set_filter by (intro image_eqI [of _ _ "d @ [n]"]) auto
qed

lemma distinct_list_dir: "wf_log d f \<Longrightarrow> distinct (list_dir d f)"
proof -
  assume wf: "wf_log d f"
  let ?ps = "filter (\<lambda>p. p \<noteq> [] \<and> butlast p = d) (map fst (files f))"
  have "inj_on last (set ?ps)"
    by (rule inj_onI) (auto, metis append_butlast_last_id)
  moreover have "distinct ?ps" using wf by (simp add: wf_log_def)
  ultimately show ?thesis using wf by (simp add: list_dir_files distinct_map)
qed

lemma finite_entry_ids [simp]: "finite (entry_ids d f)"
proof -
  have "entry_ids d f \<subseteq> (\<lambda>p. dec_value (takeWhile is_digit (last p))) ` set (map fst (files f))"
  proof
    fix i assume "i \<in> entry_ids d f"
    then have "d @ [entry_name i] \<in> set (map fst (files f))"
      unfolding entry_ids_def by (metis (mono_tags) file_at_iff mem_Collect_eq)
    moreover have "takeWhile is_digit (entry_name i) = pad i"
      using pad_digits [of i] by (simp add: entry_name_eq takeWhile_append2)
    ultimately show "i \<in> (\<lambda>p. dec_value (takeWhile is_digit (last p))) ` set (map fst (files f))"
      by (metis (no_types, lifting) dec_value_pad image_eqI last_snoc)
  qed
  then show ?thesis by (rule finite_subset) simp
qed

subsection \<open>The highest id\<close>

lemma foldl_max: "foldl (\<lambda>h n. max h (g n)) (a :: int) xs = Max (insert a (g ` set xs))"
proof (induction xs arbitrary: a)
  case (Cons x xs)
  have "Max (insert (max a (g x)) (g ` set xs)) = Max (insert a (insert (g x) (g ` set xs)))"
    by (cases "g ` set xs = {}") (simp_all add: max.assoc)
  then show ?case using Cons by simp
qed simp

lemma strtoll_bound: "strtoll s \<le> int64_max"
  by (auto simp: strtoll_def clamp64_def int64_max_def int64_min_def Let_def split: list.splits)

lemma highest_id_ge:
  assumes "wf_log d f" "file_at f (d @ [pad i @ CHR ''.'' # t]) \<noteq> None"
  shows "i \<le> highest_id d f"
proof -
  have n: "pad i @ CHR ''.'' # t \<in> set (list_dir d f)"
    using assms by (simp add: set_list_dir)
  have "int i \<le> int64_max"
    using assms unfolding wf_log_def log_name_def by (metis pad_dot_inject)
  then have "strtoll (pad i @ CHR ''.'' # t) = int i" by (rule strtoll_pad)
  then have "int i \<le> Max (insert 0 (strtoll ` set (list_dir d f)))"
    using n by (intro Max_ge) (auto simp: image_iff intro: rev_bexI)
  then show ?thesis unfolding highest_id_def foldl_max by linarith
qed

lemma highest_id_bound: "int (highest_id d f) \<le> int64_max"
proof -
  have z: "0 \<le> int64_max" by (simp add: int64_max_def)
  then have "Max (insert 0 (strtoll ` set (list_dir d f))) \<le> int64_max"
    by (intro Max.boundedI) (auto simp: strtoll_bound)
  with z show ?thesis unfolding highest_id_def foldl_max by linarith
qed

lemma highest_id_attained:
  assumes "highest_id d f \<noteq> 0"
  shows "\<exists>n \<in> set (list_dir d f). strtoll n = int (highest_id d f)"
proof -
  define m where "m = Max (insert 0 (strtoll ` set (list_dir d f)))"
  have "m \<in> insert 0 (strtoll ` set (list_dir d f))" unfolding m_def by (rule Max_in) auto
  moreover have h: "highest_id d f = nat m" by (simp add: highest_id_def foldl_max m_def)
  moreover have "m \<noteq> 0" using assms h by auto
  moreover have "0 \<le> m" unfolding m_def by (rule Max_ge) auto
  ultimately show ?thesis by auto
qed

lemma above_highest_free:
  assumes "wf_log d f" "highest_id d f < i"
  shows "file_at f (d @ [pad i @ CHR ''.'' # t]) = None"
  using highest_id_ge [OF assms(1)] assms(2) by (metis leD)

subsection \<open>Claiming a fresh id\<close>

lemma claim_fresh:
  assumes os: "healthy os" and d: "dir_at f d \<noteq> None" and nodirs: "\<forall>n. dir_at f (d @ [n]) = None"
    and free: "\<And>t. file_at f (d @ [pad i @ CHR ''.'' # t]) = None"
    and lim: "i < limit" and dist: "distinct (map fst (files f))"
  shows "\<exists>f'. claim_loop os d v i limit f = (Inr i, f') \<and>
     file_at f' = (file_at f)(d @ [entry_name i] \<mapsto> v, d @ [used_name i] \<mapsto> '''') \<and>
     (\<forall>q. dir_at f' q = None \<longleftrightarrow> dir_at f q = None) \<and> distinct (map fst (files f'))"
proof -
  let ?c = "d @ [claim_name i]" and ?e = "d @ [entry_name i]" and ?u = "d @ [used_name i]"
  let ?t = "temporary os ?e"
  define f1 where "f1 = store_file ?c '''' f"
  have claim: "TryClaimFile os ?c f = (Inr True, f1)"
    using os d nodirs free by (simp add: TryClaimFile_def f1_def fs_exists_def healthy_def claim_name_eq)
  have absent: "\<not> fs_exists ?e f1" "\<not> fs_exists ?u f1"
    using nodirs free by (simp_all add: f1_def fs_exists_def log_names)
  have d1: "dir_at f1 q = None \<longleftrightarrow> dir_at f q = None" for q by (simp add: f1_def)
  obtain f2 where f2: "write_file_atomically os ?e v f1 = (Inr (), f2)"
    using write_file_healthy [OF os, of f1 ?e v] d d1 by auto
  have at2: "file_at f2 = (file_at f1)(?t := None, ?e \<mapsto> v)"
    using write_file_atomically_Inr [OF f2] .
  have d2: "dir_at f2 q = None \<longleftrightarrow> dir_at f q = None" for q
    using dir_at_write_file [of os ?e v f1 q] f2 d1 [of q] by simp
  have "file_at f2 ?c = Some ''''" by (simp add: at2 f1_def temporary_entry log_names)
  then obtain f3 where f3: "fs_rename os ?c ?u f2 = (True, f3)"
    and at3: "file_at f3 = (file_at f2)(?c := None, ?u \<mapsto> '''')"
    using fs_rename_healthy [OF os] d d2 by (metis butlast_snoc)
  have d3: "dir_at f3 q = None \<longleftrightarrow> dir_at f q = None" for q
    using dir_at_rename [of os ?c ?u f2 q] f3 d2 [of q] by simp
  have "file_at f3 = (file_at f)(?e \<mapsto> v, ?u \<mapsto> '''')"
    using free by (auto simp: at3 at2 f1_def temporary_entry log_names fun_eq_iff)
  moreover have "claim_loop os d v i limit f = (Inr i, f3)"
    using lim claim absent f2 f3 by (subst claim_loop.simps) (simp add: Let_def)
  moreover have "distinct (map fst (files f3))"
    using distinct_rename [OF f3 distinct_write_file [OF f2]] dist by (simp add: f1_def)
  ultimately show ?thesis using d3 by blast
qed

lemma log_name_entry: "int i \<le> int64_max \<Longrightarrow> log_name (entry_name i)"
  by (auto simp: log_name_def entry_name_eq)

lemma log_name_used: "int i \<le> int64_max \<Longrightarrow> log_name (used_name i)"
proof -
  assume i: "int i \<le> int64_max"
  have "\<not> ends_with (used_name i) ''.entry''"
    by (auto simp: used_name_eq dest: ends_with_last)
  with i show ?thesis unfolding log_name_def used_name_eq by blast
qed

lemma wf_log_create [simp]: "wf_log d (create_directories os d f) \<longleftrightarrow> wf_log d f"
proof -
  have "\<not> prefix (d @ [n]) d" for n by (auto dest: prefix_length_le)
  then show ?thesis by (simp add: wf_log_def dir_at_create_other)
qed

lemma list_dir_create [simp]: "wf_log d f \<Longrightarrow> list_dir d (create_directories os d f) = list_dir d f"
  using list_dir_files [of d f] list_dir_files [of d "create_directories os d f"] by simp

lemma highest_id_create [simp]: "wf_log d f \<Longrightarrow> highest_id d (create_directories os d f) = highest_id d f"
  by (simp add: highest_id_def)

text \<open>
  What a successful claim leaves behind: the entry and its tombstone, and nothing else changes.
  The directory stays well formed and the highest id is the claimed one.
\<close>

definition claimed_step :: "path \<Rightarrow> nat \<Rightarrow> bytes \<Rightarrow> fs \<Rightarrow> fs \<Rightarrow> bool" where
  "claimed_step d i v f f' \<longleftrightarrow>
     file_at f' = (file_at f)(d @ [entry_name i] \<mapsto> v, d @ [used_name i] \<mapsto> '''') \<and>
     wf_log d f' \<and> dir_at f' d \<noteq> None \<and> highest_id d f' = i"

lemma claim_from_next:
  assumes os: "healthy os" and wf: "wf_log d f" and d: "dir_at f d \<noteq> None"
    and room: "int (highest_id d f) < int64_max"
  shows "\<exists>f'. claim_from os d (highest_id d f + 1) v f = (Inr (highest_id d f + 1), f') \<and>
     claimed_step d (highest_id d f + 1) v f f'"
proof -
  let ?i = "highest_id d f + 1"
  have free: "file_at f (d @ [pad ?i @ CHR ''.'' # t]) = None" for t
    using above_highest_free [OF wf] by simp
  have i: "int ?i \<le> int64_max" using room by simp
  obtain f' where run: "claim_loop os d v ?i (?i + kMaxClaimAttempts) f = (Inr ?i, f')"
    and at: "file_at f' = (file_at f)(d @ [entry_name ?i] \<mapsto> v, d @ [used_name ?i] \<mapsto> '''')"
    and dir: "\<forall>q. dir_at f' q = None \<longleftrightarrow> dir_at f q = None" and dist: "distinct (map fst (files f'))"
    using claim_fresh [OF os d _ free, of "?i + kMaxClaimAttempts" v] wf
    by (auto simp: wf_log_def kMaxClaimAttempts_def)
  have wf': "wf_log d f'"
    using wf dist dir log_name_entry [OF i] log_name_used [OF i] by (auto simp: wf_log_def at)
  have "?i \<le> highest_id d f'"
    by (rule highest_id_ge [OF wf', of _ "''entry''"]) (simp add: at entry_name_eq)
  moreover have "highest_id d f' \<le> ?i"
  proof (rule ccontr)
    assume "\<not> highest_id d f' \<le> ?i"
    then obtain n where n: "n \<in> set (list_dir d f')" "strtoll n = int (highest_id d f')" "?i < highest_id d f'"
      using highest_id_attained [of d f'] by auto
    from n(1) have fn: "file_at f' (d @ [n]) \<noteq> None" using set_list_dir [OF wf'] by simp
    then obtain j t where j: "n = pad j @ CHR ''.'' # t" "int j \<le> int64_max"
      using wf' unfolding wf_log_def log_name_def by blast
    then have "j = highest_id d f'" using n(2) strtoll_pad by simp
    then have "j \<noteq> ?i" "highest_id d f < j" using n(3) by simp_all
    then have "file_at f' (d @ [n]) = None"
      using above_highest_free [OF wf, of j t] j(1) by (simp add: at log_names)
    with fn show False by simp
  qed
  ultimately have "claimed_step d ?i v f f'"
    using at wf' dir d by (simp add: claimed_step_def)
  with run show ?thesis unfolding claim_from_def by blast
qed

lemma entry_ids_claimed: "claimed_step d i v f f' \<Longrightarrow> entry_ids d f' = insert i (entry_ids d f)"
  by (auto simp: claimed_step_def entry_ids_def log_names)

lemma entry_ids_le_highest: "wf_log d f \<Longrightarrow> j \<in> entry_ids d f \<Longrightarrow> j \<le> highest_id d f"
  unfolding entry_ids_def entry_name_eq using highest_id_ge by blast

subsection \<open>The log\<close>

definition log_view :: "path \<Rightarrow> fs \<Rightarrow> (int \<times> bytes) list" where
  "log_view d f = map (\<lambda>i. (int i, the (file_at f (d @ [entry_name i])))) (sorted_list_of_set (entry_ids d f))"

lemma log_view_sorted: "sorted_wrt (<) (map fst (log_view d f))"
proof -
  have "sorted_wrt (<) (sorted_list_of_set (entry_ids d f))" by simp
  then show ?thesis by (simp add: log_view_def comp_def sorted_wrt_map)
qed

lemma scan_names:
  assumes "wf_log d f" "n \<in> set (list_dir d f)" "ends_with n ''.entry''"
  shows "\<exists>i \<in> entry_ids d f. n = entry_name i \<and> strtoll n = int i"
proof -
  have f: "file_at f (d @ [n]) \<noteq> None" using assms(1,2) by (simp add: set_list_dir)
  then obtain i where i: "n = pad i @ CHR ''.'' # ''entry''" "int i \<le> int64_max"
    using assms(1,3) unfolding wf_log_def log_name_def by blast
  then show ?thesis using f strtoll_pad by (auto simp: entry_ids_def entry_name_eq)
qed

lemma entry_id_strtoll:
  assumes "wf_log d f" "i \<in> entry_ids d f"
  shows "entry_name i \<in> set (list_dir d f)" "strtoll (entry_name i) = int i" "ends_with (entry_name i) ''.entry''"
proof -
  have f: "file_at f (d @ [entry_name i]) \<noteq> None" using assms(2) by (simp add: entry_ids_def)
  then show "entry_name i \<in> set (list_dir d f)" using assms(1) by (simp add: set_list_dir)
  have "int i \<le> int64_max"
    using assms(1) f unfolding wf_log_def log_name_def entry_name_eq by (metis pad_dot_inject)
  then show "strtoll (entry_name i) = int i" by (simp add: entry_name_eq strtoll_pad)
  show "ends_with (entry_name i) ''.entry''" by (simp add: ends_with_def entry_name_def)
qed

lemma scan_eq:
  assumes wf: "wf_log (log_dir scope ns key) f" and d: "dir_at f (log_dir scope ns key) \<noteq> None"
  shows "scan scope ns key after_id limit f =
     take limit (filter (\<lambda>e. after_id < fst e) (log_view (log_dir scope ns key) f))"
proof -
  let ?d = "log_dir scope ns key"
  let ?found = "map (\<lambda>name. (strtoll name, ?d @ [name]))
     (filter (\<lambda>name. ends_with name ''.entry'' \<and> after_id < strtoll name) (list_dir ?d f))"
  let ?ids = "filter (\<lambda>i. after_id < int i) (sorted_list_of_set (entry_ids ?d f))"
  let ?spec = "map (\<lambda>i. (int i, ?d @ [entry_name i])) ?ids"
  have set: "set ?found = set ?spec"
  proof (intro set_eqI iffI)
    fix e assume "e \<in> set ?found"
    then obtain n where "n \<in> set (list_dir ?d f)" "ends_with n ''.entry''" "after_id < strtoll n"
      "e = (strtoll n, ?d @ [n])" by auto
    then show "e \<in> set ?spec" using scan_names [OF wf] by fastforce
  next
    fix e assume "e \<in> set ?spec"
    then obtain i where "i \<in> entry_ids ?d f" "after_id < int i" "e = (int i, ?d @ [entry_name i])" by auto
    then show "e \<in> set ?found" using entry_id_strtoll [OF wf] by force
  qed
  have inj: "inj_on fst (set ?spec)"
    by (rule inj_onI) auto
  have "sort_key fst ?found = ?spec"
  proof (rule map_sorted_distinct_set_unique [where f = fst])
    show "inj_on fst (set (sort_key fst ?found) \<union> set ?spec)" using set inj by simp
    show "sorted (map fst (sort_key fst ?found))" by simp
    have "distinct (filter (\<lambda>name. ends_with name ''.entry'' \<and> after_id < strtoll name) (list_dir ?d f))"
      using distinct_list_dir [OF wf] by simp
    then have dist: "distinct ?found" by (auto simp: distinct_map inj_on_def)
    then have "distinct (sort_key fst ?found)" by simp
    then show "distinct (map fst (sort_key fst ?found))"
      using set inj by (simp add: distinct_map)
    show "sorted (map fst ?spec)" by (auto simp: comp_def sorted_map sorted_wrt_filter intro: sorted_wrt_mono_rel [OF _ sorted_sorted_list_of_set])
    show "distinct (map fst ?spec)" by (simp add: comp_def distinct_map)
    show "set (sort_key fst ?found) = set ?spec" using set by simp
  qed
  then have "scan scope ns key after_id limit f = take limit (map (\<lambda>(i, p). (i, read_file p f)) ?spec)"
    using d by (auto simp: scan_def fs_exists_def Let_def take_map)
  moreover have "map (\<lambda>(i, p). (i, read_file p f)) ?spec = filter (\<lambda>e. after_id < fst e) (log_view ?d f)"
    by (simp add: log_view_def filter_map comp_def)
      (auto simp: entry_ids_def read_file_def split: option.splits)
  ultimately show ?thesis by simp
qed

lemma sorted_list_of_set_snoc:
  assumes "finite A" "\<And>x. x \<in> A \<Longrightarrow> x < (m :: nat)"
  shows "sorted_list_of_set (insert m A) = sorted_list_of_set A @ [m]"
  using assms
  by (intro sorted_distinct_set_unique)
    (auto simp: sorted_append simp del: sorted_list_of_set_insert_remove intro: less_imp_le)

lemma log_view_claimed:
  assumes "wf_log d f" "claimed_step d (highest_id d f + 1) v f f'"
  shows "log_view d f' = log_view d f @ [(int (highest_id d f + 1), v)]"
proof -
  let ?i = "highest_id d f + 1"
  have less: "j < ?i" if "j \<in> entry_ids d f" for j
    using entry_ids_le_highest [OF assms(1) that] by simp
  have "sorted_list_of_set (entry_ids d f') = sorted_list_of_set (entry_ids d f) @ [?i]"
    using sorted_list_of_set_snoc [OF finite_entry_ids less] entry_ids_claimed [OF assms(2)] by simp
  moreover have "file_at f' (d @ [entry_name j]) = file_at f (d @ [entry_name j])" if "j \<in> entry_ids d f" for j
    using less [OF that] assms(2) by (simp add: claimed_step_def log_names)
  moreover have "file_at f' (d @ [entry_name ?i]) = Some v"
    using assms(2) by (simp add: claimed_step_def log_names)
  ultimately show ?thesis by (simp add: log_view_def)
qed

subsection \<open>The log's contract\<close>

locale replay_log =
  fixes app :: "'v \<Rightarrow> 's \<Rightarrow> ('e + nat) \<times> 's"
    and view :: "'s \<Rightarrow> (int \<times> 'v) list"
    and room :: "'s \<Rightarrow> nat"
    and inv :: "'s \<Rightarrow> bool"
  assumes app_ok: "inv s \<Longrightarrow> 0 < room s \<Longrightarrow>
    \<exists>i s'. app v s = (Inr i, s') \<and> inv s' \<and> view s' = view s @ [(int i, v)] \<and> room s' = room s - 1"
begin

fun app_all :: "'v list \<Rightarrow> 's \<Rightarrow> ('e + unit) \<times> 's" where
  "app_all [] s = (Inr (), s)"
| "app_all (v # vs) s =
     (case app v s of (Inl e, s') \<Rightarrow> (Inl e, s') | (Inr _, s') \<Rightarrow> app_all vs s')"

text \<open>A replay returns the appended values in the order in which they were appended.\<close>

lemma app_all_replay:
  assumes "inv s" "length vs \<le> room s"
  shows "\<exists>s'. app_all vs s = (Inr (), s') \<and> inv s' \<and> map snd (view s') = map snd (view s) @ vs"
  using assms
proof (induction vs arbitrary: s)
  case (Cons v vs)
  from Cons.prems obtain i t where t: "app v s = (Inr i, t)" "inv t" "view t = view s @ [(int i, v)]"
    "room t = room s - 1" using app_ok [of s v] by auto
  with Cons.prems have "length vs \<le> room t" by simp
  with Cons.IH [OF t(2)] obtain s' where "app_all vs t = (Inr (), s')" "inv s'"
    "map snd (view s') = map snd (view t) @ vs" by blast
  with t show ?case by simp
qed simp

end

text \<open>
  The state of a log: its directory is well formed, nothing but a directory sits at its path, and
  it is empty when the directory does not exist yet.
\<close>

definition log_inv :: "path \<Rightarrow> fs \<Rightarrow> bool" where
  "log_inv d f \<longleftrightarrow> wf_log d f \<and> file_at f d = None \<and>
     (dir_at f d = None \<longrightarrow> (\<forall>n. file_at f (d @ [n]) = None))"

definition log_room :: "path \<Rightarrow> fs \<Rightarrow> nat" where
  "log_room d f = nat (int64_max - int (highest_id d f))"

lemma log_inv_claimed:
  assumes "log_inv d f" "claimed_step d i v f f'"
  shows "log_inv d f'"
  using assms by (auto simp: log_inv_def claimed_step_def)

lemma log_view_create [simp]: "log_view d (create_directories os p f) = log_view d f"
  by (simp add: log_view_def entry_ids_def)

lemma log_inv_create:
  assumes "healthy os" "log_inv d f"
  shows "log_inv d (create_directories os d f)" "dir_at (create_directories os d f) d \<noteq> None"
  using assms dir_at_create_directories [OF assms(1), of f d] by (auto simp: log_inv_def)

lemma append_log_next:
  assumes "healthy os" "log_inv (log_dir scope ns key) f" "0 < log_room (log_dir scope ns key) f"
  shows "\<exists>f'. append_log os scope ns key v f = (Inr (highest_id (log_dir scope ns key) f + 1), f') \<and>
     claimed_step (log_dir scope ns key) (highest_id (log_dir scope ns key) f + 1) v
       (create_directories os (log_dir scope ns key) f) f'"
proof -
  let ?d = "log_dir scope ns key" and ?f = "create_directories os (log_dir scope ns key) f"
  note create = log_inv_create [OF assms(1,2)]
  have h: "highest_id ?d ?f = highest_id ?d f" using assms(2) by (simp add: log_inv_def)
  have "int (highest_id ?d ?f) < int64_max" using assms(3) by (simp add: log_room_def h)
  with claim_from_next [OF assms(1) _ create(2), of v] create(1) show ?thesis
    by (simp add: append_log_def Let_def h log_inv_def)
qed

lemma append_log_ok:
  assumes "healthy os" "log_inv (log_dir scope ns key) f" "0 < log_room (log_dir scope ns key) f"
  shows "\<exists>i f'. append_log os scope ns key v f = (Inr i, f') \<and> log_inv (log_dir scope ns key) f' \<and>
     log_view (log_dir scope ns key) f' = log_view (log_dir scope ns key) f @ [(int i, v)] \<and>
     log_room (log_dir scope ns key) f' = log_room (log_dir scope ns key) f - 1"
proof -
  let ?d = "log_dir scope ns key" and ?f = "create_directories os (log_dir scope ns key) f"
  let ?i = "highest_id ?d f + 1"
  obtain f' where run: "append_log os scope ns key v f = (Inr ?i, f')" and st: "claimed_step ?d ?i v ?f f'"
    using append_log_next [OF assms] by blast
  have wf: "wf_log ?d f" using assms(2) by (simp add: log_inv_def)
  have "log_view ?d f' = log_view ?d f @ [(int ?i, v)]"
    using log_view_claimed [of ?d ?f v f'] st wf by simp
  moreover have "log_inv ?d f'" using log_inv_claimed [OF log_inv_create(1) st] assms(1,2) .
  moreover have "log_room ?d f' = log_room ?d f - 1"
    using st by (simp add: log_room_def claimed_step_def)
  ultimately show ?thesis using run by blast
qed

text \<open>The processes that run on a healthy system.\<close>

definition process_os :: "nat \<Rightarrow> os" where
  "process_os p = \<lparr>pid = p, mkdir_fails = (\<lambda>_. False), write_fails = (\<lambda>_. False),
     rename_fails = (\<lambda>_. False), claim_fails = (\<lambda>_. False)\<rparr>"

lemma healthy_process_os [simp]: "healthy (process_os p)"
  by (simp add: healthy_def process_os_def)

lemma healthy_iff: "healthy os \<longleftrightarrow> os = process_os (pid os)"
  by (cases os) (auto simp: healthy_def process_os_def)

interpretation replay: replay_log
  "append_log (process_os p) scope ns key" "log_view (log_dir scope ns key)"
  "log_room (log_dir scope ns key)" "log_inv (log_dir scope ns key)"
  for p scope ns key
  by unfold_locales (rule append_log_ok, simp_all)

end
