(* ===== verification/Storage_Queue.thy ===== *)
theory Storage_Queue
  imports Storage_Log
begin

section \<open>The work queue is a FIFO\<close>

text \<open>
  \<^verbatim>\<open>queue_push\<close> and \<^verbatim>\<open>queue_pop\<close> of one process, with no push of another process in flight, refine
  a list: \<open>content\<close> is the list, \<open>queue_inv\<close> ties the process's cursor to the directory. The
  contract is the locale \<open>work_queue\<close>; its room is what is left of the 64-bit ids.
\<close>

abbreviation queue_dir :: "bytes \<Rightarrow> path" where
  "queue_dir scope \<equiv> log_dir scope kQueueNamespace ''''"

definition content :: "bytes \<Rightarrow> storage \<times> fs \<Rightarrow> bytes list" where
  "content scope s = map snd (log_view (queue_dir scope) (snd s))"

definition queue_room :: "bytes \<Rightarrow> storage \<times> fs \<Rightarrow> nat" where
  "queue_room scope s = log_room (queue_dir scope) (snd s)"

text \<open>No reservation is outstanding.\<close>

definition no_claims :: "path \<Rightarrow> fs \<Rightarrow> bool" where
  "no_claims d f \<longleftrightarrow> (\<forall>i. file_at f (d @ [claim_name i]) = None)"

definition queue_inv :: "bytes \<Rightarrow> storage \<times> fs \<Rightarrow> bool" where
  "queue_inv scope s \<longleftrightarrow> log_inv (queue_dir scope) (snd s) \<and> no_claims (queue_dir scope) (snd s) \<and>
     (\<forall>i \<in> entry_ids (queue_dir scope) (snd s).
        queue_cursor (fst s) scope < i \<and> file_at (snd s) (queue_dir scope @ [used_name i]) \<noteq> None) \<and>
     queue_cursor (fst s) scope \<le> highest_id (queue_dir scope) (snd s)"

subsection \<open>Push\<close>

lemma claimed_no_claims: "no_claims d f \<Longrightarrow> claimed_step d i v f f' \<Longrightarrow> no_claims d f'"
  by (simp add: no_claims_def claimed_step_def log_names)

lemma push_loop_ok:
  assumes "healthy os" "log_inv d f" "dir_at f d \<noteq> None" "no_claims d f" "length items \<le> log_room d f"
    and "\<forall>i \<in> entry_ids d f. c < i \<and> file_at f (d @ [used_name i]) \<noteq> None" "c \<le> highest_id d f"
  shows "\<exists>f'. push_loop os d (highest_id d f + 1) items f = (Inr (), f') \<and> log_inv d f' \<and> no_claims d f' \<and>
     map snd (log_view d f') = map snd (log_view d f) @ items \<and> log_room d f' = log_room d f - length items \<and>
     (\<forall>i \<in> entry_ids d f'. c < i \<and> file_at f' (d @ [used_name i]) \<noteq> None) \<and> c \<le> highest_id d f'"
  using assms
proof (induction items arbitrary: f)
  case (Cons x xs)
  let ?i = "highest_id d f + 1"
  have wf: "wf_log d f" using Cons.prems(2) by (simp add: log_inv_def)
  have "int (highest_id d f) < int64_max" using Cons.prems(5) by (simp add: log_room_def)
  then obtain g where run: "claim_from os d ?i x f = (Inr ?i, g)" and st: "claimed_step d ?i x f g"
    using claim_from_next [OF Cons.prems(1) wf Cons.prems(3)] by blast
  have h: "highest_id d g = ?i" and dg: "dir_at g d \<noteq> None" using st by (simp_all add: claimed_step_def)
  have room: "log_room d g = log_room d f - 1" by (simp add: log_room_def h)
  have used: "\<forall>i \<in> entry_ids d g. c < i \<and> file_at g (d @ [used_name i]) \<noteq> None"
    using Cons.prems(6,7) entry_ids_claimed [OF st] st by (auto simp: claimed_step_def log_names)
  have len: "length xs \<le> log_room d g" using Cons.prems(5) room by simp
  have ch: "c \<le> highest_id d g" using Cons.prems(7) h by simp
  obtain f' where "push_loop os d (highest_id d g + 1) xs g = (Inr (), f')" "log_inv d f'" "no_claims d f'"
    "map snd (log_view d f') = map snd (log_view d g) @ xs" "log_room d f' = log_room d g - length xs"
    "\<forall>i \<in> entry_ids d f'. c < i \<and> file_at f' (d @ [used_name i]) \<noteq> None" "c \<le> highest_id d f'"
    using Cons.IH [OF Cons.prems(1) log_inv_claimed [OF Cons.prems(2) st] dg
        claimed_no_claims [OF Cons.prems(4) st] len used ch] by blast
  with run h room log_view_claimed [OF wf st] show ?case by auto
qed simp

lemma queue_push_ok:
  assumes "healthy os" "queue_inv scope (st, f)" "length items \<le> queue_room scope (st, f)"
  shows "\<exists>f'. queue_push os scope items f = (Inr (), f') \<and> queue_inv scope (st, f') \<and>
     content scope (st, f') = content scope (st, f) @ items \<and>
     queue_room scope (st, f') = queue_room scope (st, f) - length items"
proof (cases "items = []")
  case True
  with assms show ?thesis by (simp add: queue_push_def)
next
  case False
  let ?d = "queue_dir scope" and ?f = "create_directories os (queue_dir scope) f"
  note create = log_inv_create [OF assms(1), of ?d f]
  have inv: "log_inv ?d f" using assms(2) by (simp add: queue_inv_def)
  then have wf: "wf_log ?d f" by (simp add: log_inv_def)
  have "no_claims ?d ?f" "length items \<le> log_room ?d ?f" "queue_cursor st scope \<le> highest_id ?d ?f"
    "\<forall>i \<in> entry_ids ?d ?f. queue_cursor st scope < i \<and> file_at ?f (?d @ [used_name i]) \<noteq> None"
    using assms(2,3) wf by (simp_all add: queue_inv_def no_claims_def queue_room_def log_room_def entry_ids_def)
  from push_loop_ok [OF assms(1) create(1) [OF inv] create(2) [OF inv] this(1,2,4,3)] False wf
  show ?thesis
    by (auto simp: queue_push_def Let_def queue_inv_def content_def queue_room_def log_room_def)
qed

subsection \<open>Pop\<close>

lemma rename_entry_iff:
  assumes "healthy os" "dir_at f d \<noteq> None"
  shows "fst (fs_rename os (d @ [entry_name i]) (d @ [claimed_name os i]) f) \<longleftrightarrow> i \<in> entry_ids d f"
  using assms by (auto simp: fs_rename_def entry_ids_def healthy_def split: option.splits)

lemma probe_pass_quiet:
  assumes "healthy os" "dir_at f d \<noteq> None" "no_claims d f" "\<forall>n. dir_at f (d @ [n]) = None"
  shows "probe_pass os d f i high None =
     (case filter (\<lambda>j. j \<in> entry_ids d f) [i..<Suc high] of [] \<Rightarrow> Drained None | j # _ \<Rightarrow> Taken j None)"
proof (induction "Suc high - i" arbitrary: i)
  case 0
  then show ?case by (simp add: probe_pass.simps)
next
  case (Suc n)
  have "i < Suc high" using Suc(2) by simp
  then have up: "[i..<Suc high] = i # [Suc i..<Suc high]" by (rule upt_conv_Cons)
  have claim: "\<not> fs_exists (d @ [claim_name i]) f"
    using assms(3,4) by (simp add: no_claims_def fs_exists_def)
  have IH: "probe_pass os d f (Suc i) high None =
     (case filter (\<lambda>j. j \<in> entry_ids d f) [Suc i..<Suc high] of [] \<Rightarrow> Drained None | j # _ \<Rightarrow> Taken j None)"
    using Suc by (intro Suc(1)) simp
  show ?case
    unfolding probe_pass.simps [of os d f i high] up
    using \<open>i < Suc high\<close> claim IH rename_entry_iff [OF assms(1,2), of i] by simp
qed

lemma filter_upt_Min:
  assumes "finite A" "A \<noteq> {}" "\<forall>j \<in> A. c < j" "Min A \<le> h"
  shows "\<exists>js. filter (\<lambda>j. j \<in> A) [c + 1..<Suc h] = Min A # js"
proof -
  have "c < Min A" "Min A \<in> A" using assms by simp_all
  then have "[c + 1..<Suc h] = [c + 1..<Min A] @ Min A # [Suc (Min A)..<Suc h]"
    using assms(4) by (metis Suc_eq_plus1 Suc_leI le_SucI le_imp_less_Suc upt_add_eq_append upt_conv_Cons le_Suc_ex)
  moreover have "filter (\<lambda>j. j \<in> A) [c + 1..<Min A] = []"
    using assms(1) by (auto simp: filter_empty_conv dest: Min_le)
  ultimately show ?thesis using \<open>Min A \<in> A\<close> by simp
qed

lemma pop_loop_empty:
  assumes "healthy os" "dir_at f d \<noteq> None" "no_claims d f" "\<forall>n. dir_at f (d @ [n]) = None" "entry_ids d f = {}"
  shows "\<exists>h. pop_loop os d f c high = (None, c, h)"
proof -
  have pass: "probe_pass os d f i h None = Drained None" for i h
    using probe_pass_quiet [OF assms(1-4)] assms(5) by simp
  have "pop_loop os d f c (highest_id d f) = (None, c, highest_id d f)"
    unfolding pop_loop.simps [of os d f c "highest_id d f"] by (simp add: pass)
  then show ?thesis
    unfolding pop_loop.simps [of os d f c high] by (auto simp: pass Let_def)
qed

lemma pop_loop_Min:
  assumes "healthy os" "dir_at f d \<noteq> None" "no_claims d f" "\<forall>n. dir_at f (d @ [n]) = None"
    and "wf_log d f" "entry_ids d f \<noteq> {}" "\<forall>i \<in> entry_ids d f. c < i"
  shows "\<exists>h. pop_loop os d f c high = (Some (Min (entry_ids d f)), Min (entry_ids d f), h)"
proof -
  let ?A = "entry_ids d f"
  have found: "pop_loop os d f c h = (Some (Min ?A), Min ?A, h)" if h: "Min ?A \<le> h" for h
  proof -
    obtain js where "filter (\<lambda>j. j \<in> ?A) [c + 1..<Suc h] = Min ?A # js"
      using filter_upt_Min [OF finite_entry_ids assms(6,7) h] by blast
    then have "probe_pass os d f (c + 1) h None = Taken (Min ?A) None"
      using probe_pass_quiet [OF assms(1-4)] by simp
    then show ?thesis unfolding pop_loop.simps [of os d f c h] by simp
  qed
  show ?thesis
  proof (cases "Min ?A \<le> high")
    case True
    then show ?thesis using found by blast
  next
    case False
    then have "filter (\<lambda>j. j \<in> ?A) [c + 1..<Suc high] = []"
      by (auto simp: filter_empty_conv dest: Min_le [OF finite_entry_ids])
    then have pass: "probe_pass os d f (c + 1) high None = Drained None"
      using probe_pass_quiet [OF assms(1-4)] by simp
    have "Min ?A \<in> ?A" using assms(6) by simp
    then have "Min ?A \<le> highest_id d f" by (rule entry_ids_le_highest [OF assms(5)])
    then show ?thesis
      using False found [of "highest_id d f"] unfolding pop_loop.simps [of os d f c high] pass
      by (simp add: Let_def)
  qed
qed

lemma highest_id_mono:
  assumes "wf_log d f" "wf_log d f'"
    and "\<And>j t. file_at f (d @ [pad j @ CHR ''.'' # t]) \<noteq> None \<Longrightarrow> \<exists>t'. file_at f' (d @ [pad j @ CHR ''.'' # t']) \<noteq> None"
  shows "highest_id d f \<le> highest_id d f'"
proof (cases "highest_id d f = 0")
  case False
  then obtain n where n: "n \<in> set (list_dir d f)" "strtoll n = int (highest_id d f)"
    using highest_id_attained by blast
  then have at: "file_at f (d @ [n]) \<noteq> None" using set_list_dir [OF assms(1)] by simp
  then obtain j t where j: "n = pad j @ CHR ''.'' # t" "int j \<le> int64_max"
    using assms(1) unfolding wf_log_def log_name_def by blast
  then have "j = highest_id d f" using n(2) strtoll_pad by simp
  moreover obtain t' where "file_at f' (d @ [pad j @ CHR ''.'' # t']) \<noteq> None"
    using assms(3) at j(1) by blast
  ultimately show ?thesis using highest_id_ge [OF assms(2)] by blast
qed simp

text \<open>Taking the entry \<open>m\<close>: its file goes, its tombstone stays, so its id stays spent.\<close>

lemma take_entry:
  assumes os: "healthy os" and d: "dir_at f d \<noteq> None" and wf: "wf_log d f" and m: "m \<in> entry_ids d f"
    and used: "file_at f (d @ [used_name m]) \<noteq> None"
  defines "f1 \<equiv> snd (fs_rename os (d @ [entry_name m]) (d @ [claimed_name os m]) f)"
  defines "f2 \<equiv> fs_remove (d @ [claimed_name os m]) f1"
  shows "read_file (d @ [claimed_name os m]) f1 = the (file_at f (d @ [entry_name m]))"
    and "file_at f2 = (file_at f)(d @ [entry_name m] := None, d @ [claimed_name os m] := None)"
    and "\<forall>q. dir_at f2 q = None \<longleftrightarrow> dir_at f q = None"
    and "wf_log d f2" and "highest_id d f2 = highest_id d f"
proof -
  let ?e = "d @ [entry_name m]" and ?c = "d @ [claimed_name os m]"
  obtain v where v: "file_at f ?e = Some v" using m by (auto simp: entry_ids_def)
  from fs_rename_healthy [OF os v, of ?c] d have r: "fs_rename os ?e ?c f = (True, f1)"
    and at1: "file_at f1 = (file_at f)(?e := None, ?c \<mapsto> v)" by (auto simp: f1_def)
  show "read_file ?c f1 = the (file_at f ?e)" by (simp add: read_file_def at1 v)
  show at2: "file_at f2 = (file_at f)(?e := None, ?c := None)" by (simp add: f2_def at1)
  show dirs: "\<forall>q. dir_at f2 q = None \<longleftrightarrow> dir_at f q = None"
    using dir_at_rename [of os ?e ?c f] by (simp add: f2_def f1_def)
  have "distinct (map fst (files f2))"
    using distinct_rename [OF r] wf by (simp add: f2_def wf_log_def)
  then show wf2: "wf_log d f2" using wf dirs by (auto simp: wf_log_def at2 split: if_splits)
  show "highest_id d f2 = highest_id d f"
  proof (rule antisym)
    show "highest_id d f2 \<le> highest_id d f"
      by (rule highest_id_mono [OF wf2 wf]) (auto simp: at2 split: if_splits)
    show "highest_id d f \<le> highest_id d f2"
    proof (rule highest_id_mono [OF wf wf2])
      fix j t assume "file_at f (d @ [pad j @ CHR ''.'' # t]) \<noteq> None"
      then show "\<exists>t'. file_at f2 (d @ [pad j @ CHR ''.'' # t']) \<noteq> None"
        using used by (cases "j = m") (auto simp: at2 log_names intro: exI [of _ "''used''"])
    qed
  qed
qed

lemma queue_pop_Some:
  assumes os: "healthy os" and inv: "queue_inv scope (st, f)" and c: "content scope (st, f) = x # xs"
  shows "\<exists>st' f'. queue_pop os st scope f = (Some x, st', f') \<and> queue_inv scope (st', f') \<and>
     content scope (st', f') = xs \<and> queue_room scope (st', f') = queue_room scope (st, f)"
proof -
  let ?d = "queue_dir scope"
  let ?A = "entry_ids ?d f"
  define m where "m = Min ?A"
  have L: "log_inv ?d f" and wf: "wf_log ?d f" and nc: "no_claims ?d f"
    and ids: "\<forall>i \<in> ?A. queue_cursor st scope < i \<and> file_at f (?d @ [used_name i]) \<noteq> None"
    using inv by (auto simp: queue_inv_def log_inv_def)
  have ne: "?A \<noteq> {}" using c by (auto simp: content_def log_view_def)
  then have m: "m \<in> ?A" by (simp add: m_def)
  have d: "dir_at f ?d \<noteq> None" using L m by (auto simp: log_inv_def entry_ids_def)
  have nd: "\<forall>n. dir_at f (?d @ [n]) = None" using wf by (simp add: wf_log_def)
  have below: "\<forall>i \<in> ?A. queue_cursor st scope < i" using ids by blast
  obtain h where loop: "pop_loop os ?d f (queue_cursor st scope) (queue_high st scope ?d f) = (Some m, m, h)"
    using pop_loop_Min [OF os d nc nd wf ne below] unfolding m_def by blast
  define f1 where "f1 = snd (fs_rename os (?d @ [entry_name m]) (?d @ [claimed_name os m]) f)"
  define f2 where "f2 = fs_remove (?d @ [claimed_name os m]) f1"
  define st' where "st' = st\<lparr>queue_cursors := (queue_cursors st)(scope \<mapsto> m), queue_highs := (queue_highs st)(scope \<mapsto> h)\<rparr>"
  note take = take_entry [OF os d wf m, folded f1_def, folded f2_def]
  have used: "file_at f (?d @ [used_name m]) \<noteq> None" using ids m by blast
  have "sorted_list_of_set ?A = m # sorted_list_of_set (?A - {m})"
    using sorted_list_of_set_nonempty [OF finite_entry_ids ne] by (simp add: m_def)
  moreover have A2: "entry_ids ?d f2 = ?A - {m}"
    using take(2) [OF used] by (auto simp: entry_ids_def log_names)
  moreover have "file_at f2 (?d @ [entry_name j]) = file_at f (?d @ [entry_name j])" if "j \<noteq> m" for j
    using that take(2) [OF used] by (simp add: log_names)
  ultimately have view: "log_view ?d f = (int m, the (file_at f (?d @ [entry_name m]))) # log_view ?d f2"
    by (simp add: log_view_def)
  have x: "x = the (file_at f (?d @ [entry_name m]))" "content scope (st', f2) = xs"
    using c view by (simp_all add: content_def)
  have run: "queue_pop os st scope f = (Some x, st', f2)"
    using d loop x(1) take(1) [OF used]
    by (simp add: queue_pop_def fs_exists_def Let_def f1_def f2_def st'_def)
  have "m < j" if "j \<in> ?A - {m}" for j
    using that unfolding m_def by (metis DiffE Min_le finite_entry_ids insertCI le_neq_implies_less)
  then have "queue_inv scope (st', f2)"
    using L nc ids A2 take(2-5) [OF used] d entry_ids_le_highest [OF wf m]
    by (auto simp: queue_inv_def log_inv_def no_claims_def st'_def queue_cursor_def log_names)
  with run x(2) take(5) [OF used] show ?thesis by (auto simp: queue_room_def log_room_def)
qed

lemma queue_pop_None:
  assumes os: "healthy os" and inv: "queue_inv scope (st, f)" and c: "content scope (st, f) = []"
  shows "\<exists>st'. queue_pop os st scope f = (None, st', f) \<and> queue_inv scope (st', f)"
proof (cases "fs_exists (queue_dir scope) f")
  case False
  with inv show ?thesis by (simp add: queue_pop_def)
next
  case True
  let ?d = "queue_dir scope"
  have A: "entry_ids ?d f = {}" using c by (simp add: content_def log_view_def)
  have d: "dir_at f ?d \<noteq> None" using True inv by (auto simp: fs_exists_def queue_inv_def log_inv_def)
  have nd: "\<forall>n. dir_at f (?d @ [n]) = None" and nc: "no_claims ?d f"
    using inv by (auto simp: queue_inv_def log_inv_def wf_log_def)
  obtain h where "pop_loop os ?d f (queue_cursor st scope) (queue_high st scope ?d f) = (None, queue_cursor st scope, h)"
    using pop_loop_empty [OF os d nc nd A] by blast
  with True inv A show ?thesis
    by (auto simp: queue_pop_def Let_def queue_inv_def queue_cursor_def)
qed

subsection \<open>The contract\<close>

locale work_queue =
  fixes push :: "'a list \<Rightarrow> 's \<Rightarrow> ('e + unit) \<times> 's"
    and pop :: "'s \<Rightarrow> 'a option \<times> 's"
    and content :: "'s \<Rightarrow> 'a list"
    and room :: "'s \<Rightarrow> nat"
    and inv :: "'s \<Rightarrow> bool"
  assumes push_ok: "inv s \<Longrightarrow> length xs \<le> room s \<Longrightarrow>
      \<exists>s'. push xs s = (Inr (), s') \<and> inv s' \<and> content s' = content s @ xs"
    and pop_empty: "inv s \<Longrightarrow> content s = [] \<Longrightarrow> \<exists>s'. pop s = (None, s') \<and> inv s' \<and> content s' = []"
    and pop_first: "inv s \<Longrightarrow> content s = x # xs \<Longrightarrow> \<exists>s'. pop s = (Some x, s') \<and> inv s' \<and> content s' = xs"
begin

text \<open>Pop until the queue answers that it is empty, at most \<open>n\<close> times.\<close>

fun drain :: "nat \<Rightarrow> 's \<Rightarrow> 'a list \<times> 's" where
  "drain 0 s = ([], s)"
| "drain (Suc n) s =
     (case pop s of
        (None, s') \<Rightarrow> ([], s')
      | (Some x, s') \<Rightarrow> (case drain n s' of (xs, s'') \<Rightarrow> (x # xs, s'')))"

lemma drain_content:
  assumes "inv s" "length (content s) \<le> n"
  shows "fst (drain n s) = content s \<and> inv (snd (drain n s)) \<and> content (snd (drain n s)) = []"
  using assms
proof (induction n arbitrary: s)
  case (Suc n)
  show ?case
  proof (cases "content s")
    case Nil
    with pop_empty [OF Suc.prems(1)] show ?thesis by auto
  next
    case (Cons x xs)
    obtain s' where s': "pop s = (Some x, s')" "inv s'" "content s' = xs"
      using pop_first [OF Suc.prems(1) Cons] by blast
    with Suc.IH [of s'] Suc.prems(2) Cons show ?thesis by (auto split: prod.splits)
  qed
qed simp

lemma push_drain:
  assumes "inv s" "content s = []" "length xs \<le> room s"
  shows "\<exists>s'. push xs s = (Inr (), s') \<and> fst (drain (length xs) s') = xs"
  using push_ok [OF assms(1,3)] drain_content assms(2) by fastforce

end

definition push_state :: "os \<Rightarrow> bytes \<Rightarrow> bytes list \<Rightarrow> storage \<times> fs \<Rightarrow> (storage_error + unit) \<times> storage \<times> fs" where
  "push_state os scope items s = (case queue_push os scope items (snd s) of (r, f') \<Rightarrow> (r, fst s, f'))"

definition pop_state :: "os \<Rightarrow> bytes \<Rightarrow> storage \<times> fs \<Rightarrow> bytes option \<times> storage \<times> fs" where
  "pop_state os scope s = queue_pop os (fst s) scope (snd s)"

interpretation fifo: work_queue
  "push_state (process_os p) scope" "pop_state (process_os p) scope" "content scope"
  "queue_room scope" "queue_inv scope"
  for p scope
proof (unfold_locales, goal_cases)
  case (1 s xs)
  with queue_push_ok [of "process_os p" scope "fst s" "snd s" xs] show ?case
    by (cases s) (auto simp: push_state_def)
next
  case (2 s)
  with queue_pop_None [of "process_os p" scope "fst s" "snd s"] show ?case
    by (cases s) (auto simp: pop_state_def content_def)
next
  case (3 s x xs)
  with queue_pop_Some [of "process_os p" scope "fst s" "snd s"] show ?case
    by (cases s) (auto simp: pop_state_def)
qed

end
