(* ===== verification/Storage_Properties.thy ===== *)
theory Storage_Properties
  imports Storage_KV Storage_Queue
begin

section \<open>What the storage promises its callers\<close>

text \<open>
  The properties of \<^verbatim>\<open>FunctionStorage\<close> one process sees, over the definitions of \<open>Storage\<close>: they
  rest on the interpretations \<open>kv\<close>, \<open>replay\<close> and \<open>fifo\<close> of the three contracts. The scope
  operations (\<^verbatim>\<open>clear\<close>, \<^verbatim>\<open>sweep_stale\<close>) follow, with the two behaviours of \<^verbatim>\<open>storage.cpp\<close> that its
  comments do not describe.
\<close>

definition empty_fs :: fs where
  "empty_fs = \<lparr>files = [], dirs = [([], 0)], clock = 0\<rparr>"

definition new_storage :: storage where
  "new_storage = \<lparr>queue_cursors = Map.empty, queue_highs = Map.empty\<rparr>"

lemma empty_fs_simps [simp]: "files empty_fs = []" "dirs empty_fs = [([], 0)]" "clock empty_fs = 0"
  by (simp_all add: empty_fs_def)

lemma scope_dir_log [simp]: "log_dir s ns key \<noteq> []"
  by (simp add: log_dir_def fs_join_def)

lemma wf_log_empty: "wf_log (log_dir s ns key) empty_fs"
  by (simp add: wf_log_def)

lemma log_inv_empty [simp]: "log_inv (log_dir s ns key) empty_fs"
  by (simp add: log_inv_def wf_log_empty)

lemma highest_id_empty [simp]: "highest_id (log_dir s ns key) empty_fs = 0"
  by (simp add: highest_id_def list_dir_def)

lemma log_room_empty [simp]: "log_room (log_dir s ns key) empty_fs = 9223372036854775807"
  by (simp add: log_room_def int64_max_def)

lemma entry_ids_empty [simp]: "entry_ids d empty_fs = {}"
  by (simp add: entry_ids_def)

lemma queue_inv_empty: "queue_inv scope (new_storage, empty_fs)"
  by (simp add: queue_inv_def no_claims_def queue_cursor_def new_storage_def)

subsection \<open>Queue\<close>



subsection \<open>Log\<close>

lemma log_view_nonneg: "e \<in> set (log_view d f) \<Longrightarrow> 0 \<le> fst e"
  by (auto simp: log_view_def)

lemma scan_log_view:
  assumes "log_inv (log_dir scope ns key) f"
  shows "scan scope ns key after limit f =
    take limit (filter (\<lambda>e. after < fst e) (log_view (log_dir scope ns key) f))"
proof (cases "dir_at f (log_dir scope ns key)")
  case None
  with assms have "entry_ids (log_dir scope ns key) f = {}" by (simp add: log_inv_def entry_ids_def)
  with None assms show ?thesis by (simp add: scan_def fs_exists_def log_inv_def log_view_def)
qed (use assms in \<open>simp add: scan_eq log_inv_def\<close>)



subsection \<open>Key-value store\<close>

text \<open>
  C7: A put is atomic. Whatever the operating system refuses along the way, a reader of any
  key finds either the complete new value (the put returned) or exactly what was there before
  (the put threw); no other key of any scope changes.
\<close>

theorem kv_put_atomic:
  assumes "kv_inv f" "kv_put os scope key value f = (r, f')"
  shows "kv_inv f' \<and> kv_get s k f' =
    (if (s, k) = (scope, key) \<and> r = Inr () then Some value else kv_get s k f)"
proof (cases r)
  case (Inl e)
  then show ?thesis
    using kv.put_fail [of f os "(scope, key)" "value" e f' "(s, k)"] kv.put_inv [of f os "(scope, key)" "value"] assms
    by simp
next
  case (Inr u)
  then show ?thesis
    using kv.put_ok [of f os "(scope, key)" "value" "()" f' "(s, k)"] kv.put_inv [of f os "(scope, key)" "value"] assms
    by auto
qed

definition full_disk :: os where
  "full_disk = (process_os 7)\<lparr>write_fails := (\<lambda>_. True)\<rparr>"

theorem kv_put_atomic_witness:
  "kv_get ''s'' ''k'' (snd (kv_put full_disk ''s'' ''k'' ''new'' empty_fs)) = None \<and>
   kv_get ''s'' ''k'' (snd (kv_put (process_os 7) ''s'' ''k'' ''new'' empty_fs)) = Some ''new''"
proof -
  have inv: "kv_inv empty_fs" by (auto simp: kv_inv_def kv_path_def fs_join_def)
  have none: "kv_get ''s'' ''k'' empty_fs = None"
    by (auto simp: kv_get_def fs_exists_def kv_path_def fs_join_def)
  have "fst (kv_put full_disk ''s'' ''k'' ''new'' empty_fs) \<noteq> Inr ()"
    by (simp add: kv_put_def write_file_atomically_def full_disk_def Let_def)
  moreover have "fst (kv_put (process_os 7) ''s'' ''k'' ''new'' empty_fs) = Inr ()"
    using kv_put_healthy [of "process_os 7" empty_fs "''s''" "''k''" "''new''"] by auto
  ultimately show ?thesis
    using kv_put_atomic [OF inv prod.collapse [symmetric]] none by simp
qed


subsection \<open>Scopes\<close>

lemma dir_at_remove_all:
  "q \<noteq> butlast p \<Longrightarrow> dir_at (fs_remove_all p f) q = (if prefix p q then None else dir_at f q)"
proof -
  assume q: "q \<noteq> butlast p"
  have "map_of (filter (\<lambda>e. \<not> prefix p (fst e)) xs) q = (if prefix p q then None else map_of xs q)"
    for xs :: "(path \<times> int) list"
    by (induction xs) auto
  with q show ?thesis by (simp add: fs_remove_all_def Let_def)
qed

lemma filter_children_remove:
  assumes "\<not> prefix p d" "\<not> prefix d p"
  shows "filter (\<lambda>q. q \<noteq> [] \<and> butlast q = d) (map fst (filter (\<lambda>e. \<not> prefix p (fst e)) xs)) =
    filter (\<lambda>q. q \<noteq> [] \<and> butlast q = d) (map fst xs)"
proof -
  have "\<not> prefix p q" if "q \<noteq> []" "butlast q = d" for q
    using assms that by (metis append_butlast_last_id prefix_snoc prefixI)
  then show ?thesis by (induction xs) auto
qed

lemma list_dir_remove_all:
  assumes "\<not> prefix p d" "\<not> prefix d p"
  shows "list_dir d (fs_remove_all p f) = list_dir d f"
  by (simp add: list_dir_def fs_remove_all_def Let_def filter_children_remove [OF assms])

lemma scope_dir_cases: "scope_dir s = (if s = [] then [] else [hex s])"
  by (auto simp: scope_dir_def fs_join_def)

lemma kv_get_remove_scope:
  assumes "scope \<noteq> []"
  shows "kv_get s k (fs_remove_all (scope_dir scope) f) = (if s = scope then None else kv_get s k f)"
proof -
  have "kv_path s k \<noteq> butlast (scope_dir scope)"
    using assms by (simp add: scope_dir_cases kv_path_def fs_join_def)
  then show ?thesis
    using prefix_scope_kv_path [OF assms, of s k]
    by (auto simp: kv_get_def fs_exists_def dir_at_remove_all read_file_def Let_def)
qed

text \<open>The entries of a scan are read from paths of the log's directory only.\<close>

lemma insort_key_map_pair:
  "insort_key fst (g n, h n) (map (\<lambda>n. (g n, h n)) ns) = map (\<lambda>n. (g n, h n)) (insort_key g n ns)"
  by (induction ns) simp_all

lemma sort_key_map_pair:
  "sort_key fst (map (\<lambda>n. (g n, h n)) ns) = map (\<lambda>n. (g n, h n)) (sort_key g ns)"
  by (induction ns) (simp_all add: insort_key_map_pair)

lemma scan_remove_scope:
  assumes "scope \<noteq> []"
  shows "scan s ns key after limit (fs_remove_all (scope_dir scope) f) =
    (if s = scope then [] else scan s ns key after limit f)"
proof -
  let ?d = "log_dir s ns key"
  have pre: "prefix (scope_dir scope) (?d @ p) \<longleftrightarrow> s = scope" for p
    using prefix_scope_log_dir [OF assms, of s ns key p] by auto
  from this [of "[]"] have pre0: "prefix (scope_dir scope) ?d \<longleftrightarrow> s = scope" by simp
  have d: "?d \<noteq> butlast (scope_dir scope)" "\<not> prefix ?d (scope_dir scope)"
    using assms by (auto simp: scope_dir_cases log_dir_def fs_join_def prefix_Cons)
  show ?thesis
  proof (cases "s = scope")
    case True
    with d(1) pre0 show ?thesis by (simp add: scan_def fs_exists_def dir_at_remove_all)
  next
    case False
    let ?g = "fs_remove_all (scope_dir scope) f"
    have "list_dir ?d ?g = list_dir ?d f" using False d(2) pre0 by (simp add: list_dir_remove_all)
    moreover have "fs_exists ?d ?g = fs_exists ?d f"
      using False d(1) pre0 by (simp add: fs_exists_def dir_at_remove_all)
    moreover have "read_file (?d @ [n]) ?g = read_file (?d @ [n]) f" for n
      using False pre [of "[n]"] by (simp add: read_file_def del: prefix_snoc)
    ultimately show ?thesis
      using False by (simp add: scan_def Let_def take_map sort_key_map_pair)
  qed
qed


text \<open>The sweep: one scope directory after the other, by its own write time.\<close>

definition stale :: "fs \<Rightarrow> path \<Rightarrow> bool" where
  "stale f p \<longleftrightarrow> (case dir_at f p of None \<Rightarrow> False | Some t \<Rightarrow> t < clock f - stale_after)"

definition sweep_one :: "int \<Rightarrow> path \<Rightarrow> fs \<Rightarrow> fs" where
  "sweep_one cutoff p g = (case dir_at g p of
      None \<Rightarrow> g | Some written \<Rightarrow> if cutoff \<le> written then g else fs_remove_all p g)"

lemma prefix_single: "prefix [a] [b] \<longleftrightarrow> a = b"
  by (auto simp: prefix_def)

lemma sweep_one_other:
  assumes "a \<noteq> b"
  shows "dir_at (sweep_one c [a] g) [b] = dir_at g [b]"
  using assms by (auto simp: sweep_one_def dir_at_remove_all prefix_single split: option.splits)

lemma sweep_fold:
  assumes "\<forall>p \<in> set ps. length p = 1" "s \<noteq> []"
    and "dir_at f [hex s] = Some t"
  shows "kv_get s k (fold (sweep_one c) ps f) =
    (if t < c \<and> [hex s] \<in> set ps then None else kv_get s k f)"
  using assms
proof (induction ps arbitrary: f)
  case (Cons p ps)
  then obtain a where p: "p = [a]" by (auto simp: length_Suc_conv)
  show ?case
  proof (cases "a = hex s")
    case True
    have none: "kv_get s k (fold (sweep_one c) qs g) = None"
      if "kv_get s k g = None" "\<forall>q \<in> set qs. length q = 1" for qs g
      using that
    proof (induction qs arbitrary: g)
      case (Cons q qs)
      then obtain b where q: "q = [b]" by (auto simp: length_Suc_conv)
      have "kv_path s k \<noteq> butlast [b]" by (simp add: kv_path_def fs_join_def)
      then have "kv_get s k (fs_remove_all [b] g) = None"
        using Cons.prems(1) by (auto simp: kv_get_def fs_exists_def Let_def dir_at_remove_all split: if_splits)
      then have "kv_get s k (sweep_one c q g) = None"
        using Cons.prems(1) by (auto simp: sweep_one_def q split: option.splits)
      then show ?case using Cons by simp
    qed simp
    from Cons.prems(2) have sd: "scope_dir s = [hex s]" by (simp add: scope_dir_cases)
    show ?thesis
    proof (cases "t < c")
      case True
      then have "kv_get s k (sweep_one c p f) = None"
        using kv_get_remove_scope [OF Cons.prems(2), of s k f] Cons.prems(3) \<open>a = hex s\<close>
        by (simp add: sweep_one_def p sd)
      then show ?thesis using none Cons.prems(1) True \<open>a = hex s\<close> p by simp
    next
      case False
      then have "sweep_one c p f = f" using Cons.prems(3) \<open>a = hex s\<close> by (simp add: sweep_one_def p)
      then show ?thesis using Cons False by simp
    qed
  next
    case False
    have "\<not> prefix [a] (kv_path s k)" "kv_path s k \<noteq> butlast [a]"
      using False Cons.prems(2) by (auto simp: kv_path_def fs_join_def scope_dir_cases)
    then have "kv_get s k (sweep_one c p f) = kv_get s k f"
      by (auto simp: sweep_one_def p kv_get_def fs_exists_def read_file_def Let_def dir_at_remove_all split: option.splits)
    moreover have "dir_at (sweep_one c p f) [hex s] = Some t"
      using sweep_one_other [OF False] Cons.prems(3) by (simp add: p)
    ultimately show ?thesis using Cons False by (simp add: p)
  qed
qed simp

text \<open>
  The sweep at start-up removes exactly the scopes whose directory was last written more
  than a day ago: a key of a younger scope reads as before, a key of an older one is gone.
\<close>

theorem sweep_stale_by_age:
  assumes "scope \<noteq> ''''" "dir_at f (scope_dir scope) = Some written"
  shows "kv_get scope key (sweep_stale f) =
    (if written < clock f - stale_after then None else kv_get scope key f)"
proof -
  have sd: "scope_dir scope = [hex scope]" using assms(1) by (simp add: scope_dir_cases)
  have "[hex scope] \<in> set (filter (\<lambda>p. length p = 1) (map fst (dirs f)))"
    using assms(2) sd by (force dest: map_of_SomeD)
  moreover have "sweep_stale f = fold (sweep_one (clock f - stale_after))
      (filter (\<lambda>p. length p = 1) (map fst (dirs f))) f"
    by (simp add: sweep_stale_def sweep_one_def [abs_def] Let_def)
  ultimately show ?thesis using sweep_fold [of "filter (\<lambda>p. length p = 1) (map fst (dirs f))"] assms sd by simp
qed

definition aged_fs :: "int \<Rightarrow> fs" where
  "aged_fs age = \<lparr>files = [([''73'', ''kv_6b''], ''v'')], dirs = [([''73''], 0), ([], 0)], clock = age\<rparr>"

theorem sweep_stale_by_age_witness:
  "kv_get ''s'' ''k'' (sweep_stale (aged_fs 86401)) = None \<and>
   kv_get ''s'' ''k'' (sweep_stale (aged_fs 86400)) = kv_get ''s'' ''k'' (aged_fs 86400)"
proof -
  have "scope_dir ''s'' = [''73'']" by code_simp
  then have "dir_at (aged_fs a) (scope_dir ''s'') = Some 0" for a by (simp add: aged_fs_def)
  from sweep_stale_by_age [OF _ this, of "''k''"] show ?thesis by (simp add: aged_fs_def stale_after_def)
qed


subsection \<open>Two behaviours the comments of storage.cpp do not describe\<close>

text \<open>
  A scope that is only appended to: the appends write into the log's own directory, so the write
  time of the scope's directory, which the sweep reads, stays where it was.
\<close>

definition day_later :: "fs \<Rightarrow> fs" where
  "day_later f = f\<lparr>clock := clock f + stale_after + 1\<rparr>"

definition busy_scope :: fs where
  "busy_scope =
     (let f1 = snd (append_log (process_os 7) ''s'' ''n'' '''' ''old'' empty_fs)
      in snd (append_log (process_os 7) ''s'' ''n'' '''' ''new'' (day_later f1)))"

text \<open>
  The sweep takes an active scope. A log of the scope is appended to at the very moment of
  the sweep, yet the scope counts as untouched for more than a day and its whole log is removed.
\<close>

theorem sweep_removes_active_log:
  "map snd (scan ''s'' ''n'' '''' 0 10 busy_scope) = [''old'', ''new''] \<and>
   scan ''s'' ''n'' '''' 0 10 (sweep_stale busy_scope) = []"
  by code_simp

text \<open>
  A queue whose first id was reserved by a process that died, seen by a popper that cached the
  high-water mark before later pushes.
\<close>

definition stale_claim_fs :: fs where
  "stale_claim_fs = \<lparr>files = [(log_dir ''s'' kQueueNamespace '''' @ [claim_name 1], '''')],
     dirs = [(log_dir ''s'' kQueueNamespace '''', 0), (scope_dir ''s'', 0), ([], 0)], clock = 0\<rparr>"

definition first_pop :: "bytes option \<times> storage \<times> fs" where
  "first_pop = queue_pop (process_os 8) new_storage ''s'' stale_claim_fs"

definition pushed_later :: fs where
  "pushed_later = snd (queue_push (process_os 7) ''s'' [''a''] (snd (snd first_pop)))"

definition second_pop :: "bytes option \<times> storage \<times> fs" where
  "second_pop = queue_pop (process_os 8) (fst (snd first_pop)) ''s'' pushed_later"


abbreviation queue_s :: path where
  "queue_s \<equiv> log_dir ''s'' kQueueNamespace ''''"

definition waiting :: storage where
  "waiting = new_storage\<lparr>queue_cursors := [''s'' \<mapsto> 0], queue_highs := [''s'' \<mapsto> 1]\<rparr>"

lemma first_pop_eval: "first_pop = (None, waiting, stale_claim_fs)"
proof -
  have "fs_exists queue_s stale_claim_fs" "highest_id queue_s stale_claim_fs = 1" by code_simp+
  moreover have "pop_loop (process_os 8) queue_s stale_claim_fs 0 1 = (None, 0, 1)" by code_simp
  ultimately show ?thesis
    by (simp add: first_pop_def queue_pop_def queue_cursor_def queue_high_def new_storage_def waiting_def Let_def)
qed

lemma pushed_later_eval:
  "pushed_later = stale_claim_fs\<lparr>files := files stale_claim_fs @
     [(queue_s @ [entry_name 2], ''a''), (queue_s @ [used_name 2], '''')]\<rparr>"
  unfolding pushed_later_def first_pop_eval snd_conv by code_simp

lemma pushed_later_scan: "map snd (scan ''s'' kQueueNamespace '''' 0 10 pushed_later) = [''a'']"
  unfolding pushed_later_eval by code_simp

lemma second_pop_eval: "second_pop = (None, waiting, pushed_later)"
proof -
  have "fs_exists queue_s pushed_later" unfolding pushed_later_eval by code_simp
  moreover have "pop_loop (process_os 8) queue_s pushed_later 0 1 = (None, 0, 1)"
    unfolding pushed_later_eval by code_simp
  ultimately show ?thesis
    by (simp add: second_pop_def first_pop_eval queue_pop_def queue_cursor_def queue_high_def waiting_def Let_def new_storage_def fun_upd_idem)
qed

lemma fresh_pop_eval: "fst (queue_pop (process_os 8) new_storage ''s'' pushed_later) = Some ''a''"
  unfolding pushed_later_eval by code_simp

text \<open>
  The pending branch of \<^verbatim>\<open>queue_pop\<close> returns before the high-water mark is read again. With a
  reservation left by a dead process, a popper that has looked at the queue once never sees an
  item pushed afterwards: its next pop answers that the queue is empty and leaves it in the very
  state it was in, while a fresh process pops the item.
\<close>

theorem pending_hides_later_items:
  "first_pop = (None, waiting, stale_claim_fs) \<and>
   map snd (scan ''s'' kQueueNamespace '''' 0 10 pushed_later) = [''a''] \<and>
   second_pop = (None, waiting, pushed_later) \<and>
   fst (queue_pop (process_os 8) new_storage ''s'' pushed_later) = Some ''a''"
  by (simp add: first_pop_eval pushed_later_scan second_pop_eval fresh_pop_eval)

end
