(* ===== verification/Storage_Concurrent.thy ===== *)
theory Storage_Concurrent
  imports Storage_Queue
begin

section \<open>Several processes on one log directory\<close>

text \<open>
  \<^verbatim>\<open>claim_from\<close> and \<^verbatim>\<open>queue_pop\<close> of \<^verbatim>\<open>src/src/storage.cpp\<close> as a step relation: one step is one
  call to the file system by one process, and the processes interleave in any order. A
  directory listing of a running system has no meaning of its own, so \<^verbatim>\<open>highest_id\<close> answers any
  number. A process may die at any point (\<open>crash\<close>), leaving its files behind. The names in the
  directory are the values of \<open>fname\<close>; \<open>file_name\<close> is their spelling on disk, and it is injective.
\<close>

datatype fname = Claim nat | Entry nat | Used nat | Tmp nat nat | TakenBy nat nat

fun file_name :: "fname \<Rightarrow> string" where
  "file_name (Claim i) = claim_name i"
| "file_name (Entry i) = entry_name i"
| "file_name (Used i) = used_name i"
| "file_name (Tmp p i) = last (temporary (process_os p) [entry_name i])"
| "file_name (TakenBy p i) = claimed_name (process_os p) i"

text \<open>Where a process stands: between two calls of \<^verbatim>\<open>claim_from\<close> (id, limit, value) or of \<^verbatim>\<open>queue_pop\<close>.\<close>

datatype pc =
    Idle
  | Try nat nat bytes
  | CheckEntry nat nat bytes
  | CheckUsed nat nat bytes
  | Release nat nat bytes
  | WriteTmp nat bytes
  | Publish nat bytes
  | Finalize nat
  | Probe nat nat "nat option"
  | CheckClaim nat nat "nat option"
  | ReadTaken nat
  | DropTaken nat bytes

text \<open>
  The last three fields record the history: which value its caller had published under which id,
  what was handed out, and which ids a process held for delivery when it died.
\<close>

record world =
  dir :: "fname \<rightharpoonup> bytes"
  procs :: "nat \<Rightarrow> pc"
  cursors :: "nat \<Rightarrow> nat"
  published :: "nat \<rightharpoonup> bytes"
  delivered :: "(nat \<times> bytes) list"
  lost :: "nat set"

definition init_world :: world where
  "init_world = \<lparr>dir = Map.empty, procs = (\<lambda>_. Idle), cursors = (\<lambda>_. 0),
     published = Map.empty, delivered = [], lost = {}\<rparr>"

fun taking :: "pc \<Rightarrow> nat option" where
  "taking (ReadTaken i) = Some i"
| "taking (DropTaken i v) = Some i"
| "taking _ = None"

abbreviation at :: "world \<Rightarrow> nat \<Rightarrow> pc \<Rightarrow> world" where
  "at s p c \<equiv> s\<lparr>procs := (procs s)(p := c)\<rparr>"

inductive step :: "world \<Rightarrow> world \<Rightarrow> bool" where
  start_push: "procs s p = Idle \<Longrightarrow> step s (at s p (Try (h + 1) (h + 1 + kMaxClaimAttempts) v))"
| give_up: "procs s p = Try i limit v \<Longrightarrow> limit \<le> i \<Longrightarrow> step s (at s p Idle)"
| claim: "procs s p = Try i limit v \<Longrightarrow> i < limit \<Longrightarrow> dir s (Claim i) = None \<Longrightarrow>
    step s (at (s\<lparr>dir := (dir s)(Claim i \<mapsto> '''')\<rparr>) p (CheckEntry i limit v))"
| busy: "procs s p = Try i limit v \<Longrightarrow> i < limit \<Longrightarrow> dir s (Claim i) \<noteq> None \<Longrightarrow>
    step s (at s p (Try (i + 1) limit v))"
| entry_exists: "procs s p = CheckEntry i limit v \<Longrightarrow> dir s (Entry i) \<noteq> None \<Longrightarrow>
    step s (at s p (Release i limit v))"
| entry_absent: "procs s p = CheckEntry i limit v \<Longrightarrow> dir s (Entry i) = None \<Longrightarrow>
    step s (at s p (CheckUsed i limit v))"
| used_exists: "procs s p = CheckUsed i limit v \<Longrightarrow> dir s (Used i) \<noteq> None \<Longrightarrow>
    step s (at s p (Release i limit v))"
| used_absent: "procs s p = CheckUsed i limit v \<Longrightarrow> dir s (Used i) = None \<Longrightarrow>
    step s (at s p (WriteTmp i v))"
| release: "procs s p = Release i limit v \<Longrightarrow>
    step s (at (s\<lparr>dir := (dir s)(Claim i := None)\<rparr>) p (Try (i + 1) limit v))"
| write_tmp: "procs s p = WriteTmp i v \<Longrightarrow>
    step s (at (s\<lparr>dir := (dir s)(Tmp p i \<mapsto> v)\<rparr>) p (Publish i v))"
| write_fails: "procs s p = WriteTmp i v \<Longrightarrow>
    step s (at (s\<lparr>dir := (dir s)(Tmp p i := None)\<rparr>) p Idle)"
| publish: "procs s p = Publish i v \<Longrightarrow> dir s (Tmp p i) = Some w \<Longrightarrow>
    step s (at (s\<lparr>dir := (dir s)(Tmp p i := None, Entry i \<mapsto> w), published := (published s)(i \<mapsto> v)\<rparr>)
              p (Finalize i))"
| publish_fails: "procs s p = Publish i v \<Longrightarrow>
    step s (at (s\<lparr>dir := (dir s)(Tmp p i := None)\<rparr>) p Idle)"
| finalize: "procs s p = Finalize i \<Longrightarrow> dir s (Claim i) = Some w \<Longrightarrow>
    step s (at (s\<lparr>dir := (dir s)(Claim i := None, Used i \<mapsto> w)\<rparr>) p Idle)"
| finalize_fails: "procs s p = Finalize i \<Longrightarrow> step s (at s p Idle)"
| start_pop: "procs s p = Idle \<Longrightarrow> step s (at s p (Probe (cursors s p + 1) h None))"
| take: "procs s p = Probe i h pending \<Longrightarrow> i \<le> h \<Longrightarrow> dir s (Entry i) = Some v \<Longrightarrow>
    step s (at (s\<lparr>dir := (dir s)(Entry i := None, TakenBy p i \<mapsto> v),
                 cursors := (cursors s)(p := (case pending of None \<Rightarrow> i | Some q \<Rightarrow> q - 1))\<rparr>)
              p (ReadTaken i))"
| miss: "procs s p = Probe i h pending \<Longrightarrow> i \<le> h \<Longrightarrow> dir s (Entry i) = None \<Longrightarrow>
    step s (at s p (CheckClaim i h pending))"
| check_claim: "procs s p = CheckClaim i h pending \<Longrightarrow>
    step s (at s p (Probe (i + 1) h
      (if dir s (Claim i) \<noteq> None \<and> pending = None then Some i else pending)))"
| drained_pending: "procs s p = Probe i h (Some q) \<Longrightarrow> h < i \<Longrightarrow>
    step s (at (s\<lparr>cursors := (cursors s)(p := q - 1)\<rparr>) p Idle)"
| drained: "procs s p = Probe i h None \<Longrightarrow> h < i \<Longrightarrow> step s (at s p Idle)"
| refresh: "procs s p = Probe i h None \<Longrightarrow> h < i \<Longrightarrow> h < h' \<Longrightarrow>
    step s (at s p (Probe (cursors s p + 1) h' None))"
| read_taken: "procs s p = ReadTaken i \<Longrightarrow>
    step s (at s p (DropTaken i (case dir s (TakenBy p i) of None \<Rightarrow> '''' | Some v \<Rightarrow> v)))"
| drop_taken: "procs s p = DropTaken i v \<Longrightarrow>
    step s (at (s\<lparr>dir := (dir s)(TakenBy p i := None), delivered := delivered s @ [(i, v)]\<rparr>) p Idle)"
| crash: "step s (at (s\<lparr>lost := lost s \<union> set_option (taking (procs s p)),
                       cursors := (cursors s)(p := 0)\<rparr>) p Idle)"

inductive reachable :: "world \<Rightarrow> bool" where
  start: "reachable init_world"
| next_step: "reachable s \<Longrightarrow> step s t \<Longrightarrow> reachable t"

subsection \<open>The names\<close>

lemma file_name_tmp: "file_name (Tmp p i) = pad i @ CHR ''.'' # ''entry.tmp.'' @ show_nat p"
  using temporary_entry [of "process_os p" "[]" i] by (simp add: entry_name_def process_os_def)

lemma file_name_inject: "file_name a = file_name b \<longleftrightarrow> a = b"
proof -
  have "pid (process_os p) = p" for p by (simp add: process_os_def)
  then show ?thesis
    by (cases a; cases b) (auto simp: log_names file_name_tmp simp del: file_name.simps(4))
qed

subsection \<open>The invariant\<close>

text \<open>Who holds the reservation of an id, before and after publication.\<close>

fun pre_holds :: "pc \<Rightarrow> nat option" where
  "pre_holds (CheckEntry i l v) = Some i"
| "pre_holds (CheckUsed i l v) = Some i"
| "pre_holds (Release i l v) = Some i"
| "pre_holds (WriteTmp i v) = Some i"
| "pre_holds (Publish i v) = Some i"
| "pre_holds _ = None"

fun holds :: "pc \<Rightarrow> nat option" where
  "holds (Finalize i) = Some i"
| "holds c = pre_holds c"

text \<open>Past both checks: the id is free and the process is about to use it.\<close>

fun cleared :: "pc \<Rightarrow> nat option" where
  "cleared (WriteTmp i v) = Some i"
| "cleared (Publish i v) = Some i"
| "cleared _ = None"

definition claims_ok :: "world \<Rightarrow> bool" where
  "claims_ok s \<longleftrightarrow> (\<forall>p i. holds (procs s p) = Some i \<longrightarrow> dir s (Claim i) \<noteq> None) \<and>
     (\<forall>p q i. holds (procs s p) = Some i \<longrightarrow> holds (procs s q) = Some i \<longrightarrow> p = q)"

definition spent_ok :: "world \<Rightarrow> bool" where
  "spent_ok s \<longleftrightarrow>
     (\<forall>i. published s i \<noteq> None \<longrightarrow> dir s (Used i) = None \<longrightarrow>
        dir s (Claim i) \<noteq> None \<and> (\<forall>p. pre_holds (procs s p) \<noteq> Some i)) \<and>
     (\<forall>p i. cleared (procs s p) = Some i \<longrightarrow> published s i = None) \<and>
     (\<forall>p i v. procs s p = Publish i v \<longrightarrow> dir s (Tmp p i) = Some v)"

text \<open>Every published id is in exactly one place, with its value.\<close>

definition values_ok :: "world \<Rightarrow> bool" where
  "values_ok s \<longleftrightarrow>
     (\<forall>i v. dir s (Entry i) = Some v \<longrightarrow> published s i = Some v) \<and>
     (\<forall>p i. procs s p = ReadTaken i \<longrightarrow> dir s (TakenBy p i) = published s i \<and> published s i \<noteq> None) \<and>
     (\<forall>p i v. procs s p = DropTaken i v \<longrightarrow> published s i = Some v) \<and>
     (\<forall>i v. (i, v) \<in> set (delivered s) \<longrightarrow> published s i = Some v) \<and>
     (\<forall>i \<in> lost s. published s i \<noteq> None)"

definition handed_out :: "world \<Rightarrow> nat set" where
  "handed_out s = fst ` set (delivered s)"

text \<open>
  Every published id is in exactly one place: \<open>loc\<close> is the function that says where, so the
  equivalences below give both that nothing is in two places and that nothing disappears.
\<close>

datatype place = Waiting | InHand nat | Delivered | Lost

definition located :: "world \<Rightarrow> (nat \<rightharpoonup> place) \<Rightarrow> bool" where
  "located s loc \<longleftrightarrow>
     (\<forall>i. dir s (Entry i) \<noteq> None \<longleftrightarrow> loc i = Some Waiting) \<and>
     (\<forall>p i. taking (procs s p) = Some i \<longleftrightarrow> loc i = Some (InHand p)) \<and>
     (\<forall>i. i \<in> handed_out s \<longleftrightarrow> loc i = Some Delivered) \<and>
     (\<forall>i. i \<in> lost s \<longleftrightarrow> loc i = Some Lost) \<and>
     (\<forall>i. published s i \<noteq> None \<longleftrightarrow> loc i \<noteq> None) \<and>
     distinct (map fst (delivered s))"

lemma claims_ok_init: "claims_ok init_world"
  by (simp add: claims_ok_def init_world_def)

lemma spent_ok_init: "spent_ok init_world"
  by (simp add: spent_ok_def init_world_def)

lemma located_init: "located init_world Map.empty"
  by (simp add: located_def handed_out_def init_world_def)

lemma values_ok_init: "values_ok init_world"
  by (simp add: values_ok_def init_world_def)

lemma pre_holds_holds: "pre_holds c = Some i \<Longrightarrow> holds c = Some i"
  by (cases c) auto

lemma cleared_pre_holds: "cleared c = Some i \<Longrightarrow> pre_holds c = Some i"
  by (cases c) auto

lemma holds_alone:
  assumes "claims_ok s" "holds (procs s p) = Some i" "q \<noteq> p"
  shows "holds (procs s q) \<noteq> Some i" "pre_holds (procs s q) \<noteq> Some i"
    "cleared (procs s q) \<noteq> Some i"
  using assms pre_holds_holds cleared_pre_holds unfolding claims_ok_def by metis+

lemma holds_claim: "claims_ok s \<Longrightarrow> holds (procs s p) = Some i \<Longrightarrow> dir s (Claim i) \<noteq> None"
  by (auto simp: claims_ok_def)

lemma claims_ok_keep:
  assumes "claims_ok s" "procs t = (procs s)(p := c)" "holds c = None \<or> holds c = holds (procs s p)"
    "\<And>i. dir t (Claim i) = dir s (Claim i)"
  shows "claims_ok t"
  using assms unfolding claims_ok_def by (metis fun_upd_apply option.distinct(1))

lemma claims_ok_step: "step s t \<Longrightarrow> claims_ok s \<Longrightarrow> claims_ok t"
proof (induction rule: step.induct)
  case (claim s p i limit v)
  then have "\<forall>q. holds (procs s q) \<noteq> Some i" unfolding claims_ok_def by blast
  with claim show ?case unfolding claims_ok_def by simp blast
next
  case (release s p i limit v)
  then have "\<forall>q. q \<noteq> p \<longrightarrow> holds (procs s q) \<noteq> Some i"
    using holds_alone(1) [of s p i] by simp
  with release show ?case unfolding claims_ok_def by simp
next
  case (finalize s p i w)
  then have "\<forall>q. q \<noteq> p \<longrightarrow> holds (procs s q) \<noteq> Some i"
    using holds_alone(1) [of s p i] by simp
  with finalize show ?case unfolding claims_ok_def by simp
qed (rule claims_ok_keep, assumption, simp, simp, simp)+

lemma spent_used: "spent_ok s \<Longrightarrow> pre_holds (procs s p) = Some i \<Longrightarrow> published s i \<noteq> None \<Longrightarrow>
    dir s (Used i) \<noteq> None"
  by (auto simp: spent_ok_def)

lemma spent_cleared: "spent_ok s \<Longrightarrow> cleared (procs s p) = Some i \<Longrightarrow> published s i = None"
  by (auto simp: spent_ok_def)

lemma spent_ok_step: "step s t \<Longrightarrow> claims_ok s \<Longrightarrow> spent_ok s \<Longrightarrow> spent_ok t"
proof (induction rule: step.induct)
  case (claim s p i limit v)
  then have "published s i \<noteq> None \<longrightarrow> dir s (Used i) \<noteq> None" unfolding spent_ok_def by metis
  with claim show ?case unfolding spent_ok_def by simp
next
  case (entry_exists s p i limit v)
  with spent_used [of s p i] show ?case unfolding spent_ok_def by auto
next
  case (entry_absent s p i limit v)
  with spent_used [of s p i] show ?case unfolding spent_ok_def by auto
next
  case (used_exists s p i limit v)
  with spent_used [of s p i] show ?case unfolding spent_ok_def by auto
next
  case (used_absent s p i limit v)
  then have "published s i = None" using spent_used [of s p i] by fastforce
  with used_absent show ?case unfolding spent_ok_def by auto
next
  case (release s p i limit v)
  with spent_used [of s p i] show ?case unfolding spent_ok_def by simp
next
  case (write_tmp s p i v)
  with spent_cleared [of s p i] show ?case unfolding spent_ok_def by auto
next
  case (publish s p i v w)
  note alone = holds_alone [OF publish(3), of p i]
  from publish have "dir s (Claim i) \<noteq> None" using holds_claim [of s p i] by simp
  with publish alone show ?case unfolding spent_ok_def by simp
qed (simp_all add: spent_ok_def)

lemma values_ok_step: "step s t \<Longrightarrow> spent_ok s \<Longrightarrow> values_ok s \<Longrightarrow> values_ok t"
proof (induction rule: step.induct)
  case (publish s p i v w)
  then have "published s i = None" using spent_cleared [of s p i] by simp
  moreover have "w = v" using publish(1-3) unfolding spent_ok_def by simp
  moreover from calculation have "\<forall>w. (i, w) \<notin> set (delivered s)" "i \<notin> lost s" "\<forall>q w. procs s q \<noteq> DropTaken i w"
    "\<forall>q. procs s q \<noteq> ReadTaken i"
    using publish(4) unfolding values_ok_def by fastforce+
  ultimately show ?case using publish(1,4) unfolding values_ok_def by auto
next
  case (crash s p)
  then show ?case unfolding values_ok_def by (cases "procs s p") auto
qed (fastforce simp: values_ok_def)+

lemma located_keep:
  assumes "located s loc" "procs t = (procs s)(p := c)" "taking c = taking (procs s p)"
    "\<And>i. dir t (Entry i) = dir s (Entry i)"
    "published t = published s" "delivered t = delivered s" "lost t = lost s"
  shows "\<exists>loc'. located t loc'"
proof -
  have "taking (procs t q) = taking (procs s q)" for q using assms by simp
  then have "located t loc" using assms(1,4-) unfolding located_def handed_out_def by simp
  then show ?thesis by blast
qed

lemma located_move:
  assumes "located s loc"
    "\<And>j. dir t (Entry j) \<noteq> None \<longleftrightarrow> (if j = i then pl = Waiting else dir s (Entry j) \<noteq> None)"
    "\<And>p j. taking (procs t p) = Some j \<longleftrightarrow> (if j = i then pl = InHand p else taking (procs s p) = Some j)"
    "\<And>j. j \<in> handed_out t \<longleftrightarrow> (if j = i then pl = Delivered else j \<in> handed_out s)"
    "\<And>j. j \<in> lost t \<longleftrightarrow> (if j = i then pl = Lost else j \<in> lost s)"
    "\<And>j. published t j \<noteq> None \<longleftrightarrow> j = i \<or> published s j \<noteq> None"
    "distinct (map fst (delivered t))"
  shows "\<exists>loc'. located t loc'"
proof (rule exI [of _ "loc(i \<mapsto> pl)"])
  have rules: "(\<exists>y. dir t (Entry j) = Some y) \<longleftrightarrow> (if j = i then pl = Waiting else dir s (Entry j) \<noteq> None)"
    "(\<exists>y. published t j = Some y) \<longleftrightarrow> j = i \<or> published s j \<noteq> None" for j
    using assms(2,6) [of j] by auto
  show "located t (loc(i \<mapsto> pl))"
    using assms(1,7) unfolding located_def by (simp add: rules assms(3-5))
qed

lemma located_at:
  assumes "located s loc" "loc i = Some pl"
  shows "dir s (Entry i) \<noteq> None \<longleftrightarrow> pl = Waiting" "taking (procs s p) = Some i \<longleftrightarrow> pl = InHand p"
    "i \<in> handed_out s \<longleftrightarrow> pl = Delivered" "i \<in> lost s \<longleftrightarrow> pl = Lost" "published s i \<noteq> None"
    "distinct (map fst (delivered s))"
  using assms unfolding located_def by simp_all

lemma located_step: "step s t \<Longrightarrow> spent_ok s \<Longrightarrow> located s loc \<Longrightarrow> \<exists>loc'. located t loc'"
proof (induction rule: step.induct)
  case (publish s p i v w)
  then have "published s i = None" using spent_cleared [of s p i] by simp
  with publish(4) have "loc i = None" unfolding located_def by metis
  with publish show ?case
    by (intro located_move [where i = i and pl = Waiting]) (auto simp: located_def handed_out_def)
next
  case (take s p i h pending v)
  then have "loc i = Some Waiting" unfolding located_def by auto
  with take show ?case
    by (intro located_move [where i = i and pl = "InHand p"]) (auto simp: located_def handed_out_def)
next
  case (drop_taken s p i v)
  then have "loc i = Some (InHand p)" unfolding located_def by (metis taking.simps(2))
  with drop_taken show ?case
    by (intro located_move [where i = i and pl = Delivered]) (auto simp: located_def handed_out_def)
next
  case (crash s p)
  show ?case
  proof (cases "taking (procs s p)")
    case None
    with crash show ?thesis by (intro located_keep [where c = Idle and p = p]) auto
  next
    case (Some i)
    with crash have "loc i = Some (InHand p)" unfolding located_def by blast
    note here = located_at [OF crash(2) this]
    have "\<And>j. taking (procs s p) = Some j \<longleftrightarrow> j = i" using Some by auto
    moreover have "\<And>q. q \<noteq> p \<Longrightarrow> taking (procs s q) \<noteq> Some i" using here(2) by simp
    ultimately show ?thesis using crash(2) here(1,3-) Some
      by (intro located_move [where i = i and pl = Lost]) (auto simp: handed_out_def)
  qed
qed (rule located_keep, assumption, simp, simp, simp, simp, simp, simp)+


subsection \<open>What holds of every reachable state\<close>

lemma reachable_claims: "reachable s \<Longrightarrow> claims_ok s"
  by (induction rule: reachable.induct) (blast intro: claims_ok_init claims_ok_step)+

lemma reachable_spent: "reachable s \<Longrightarrow> spent_ok s"
  by (induction rule: reachable.induct) (blast intro: spent_ok_init spent_ok_step reachable_claims)+

lemma reachable_values: "reachable s \<Longrightarrow> values_ok s"
  by (induction rule: reachable.induct) (blast intro: values_ok_init values_ok_step reachable_spent)+

lemma reachable_located: "reachable s \<Longrightarrow> \<exists>loc. located s loc"
  by (induction rule: reachable.induct) (blast intro: located_init dest: located_step reachable_spent)+

text \<open>A published id is published once: no step overwrites it.\<close>

lemma step_published:
  assumes "step s t" "spent_ok s"
  shows "published s \<subseteq>\<^sub>m published t"
  using assms
proof (induction rule: step.induct)
  case (publish s p i v w)
  then have "published s i = None" using spent_cleared [of s p i] by simp
  then show ?case by (auto simp: map_le_def)
qed simp_all

inductive steps :: "world \<Rightarrow> world \<Rightarrow> bool" where
  refl: "steps s s"
| more: "steps s t \<Longrightarrow> step t u \<Longrightarrow> steps s u"

lemma steps_reachable: "steps s t \<Longrightarrow> reachable s \<Longrightarrow> reachable t"
  by (induction rule: steps.induct) (auto intro: next_step)

lemma steps_published: "steps s t \<Longrightarrow> reachable s \<Longrightarrow> published s \<subseteq>\<^sub>m published t"
proof (induction rule: steps.induct)
  case (more s t u)
  then show ?case using step_published steps_reachable reachable_spent map_le_trans by metis
qed simp

lemma step_delivered: "step s t \<Longrightarrow> \<exists>new. delivered t = delivered s @ new"
  by (induction rule: step.induct) auto

text \<open>While a process probes, it is above its cursor, and a pending id is above it too.\<close>

fun probe_above :: "nat \<Rightarrow> pc \<Rightarrow> bool" where
  "probe_above c (Probe i h q) \<longleftrightarrow> c < i \<and> (\<forall>j \<in> set_option q. c < j \<and> j < i)"
| "probe_above c (CheckClaim i h q) \<longleftrightarrow> c < i \<and> (\<forall>j \<in> set_option q. c < j \<and> j < i)"
| "probe_above c _ \<longleftrightarrow> True"

definition probe_ok :: "world \<Rightarrow> bool" where
  "probe_ok s \<longleftrightarrow> (\<forall>p. probe_above (cursors s p) (procs s p))"

lemma probe_okD: "probe_ok s \<Longrightarrow> procs s p = c \<Longrightarrow> probe_above (cursors s p) c"
  by (auto simp: probe_ok_def)

lemma probe_ok_step: "step s t \<Longrightarrow> probe_ok s \<Longrightarrow> probe_ok t"
proof (induction rule: step.induct)
  case (check_claim s p i h pending)
  with probe_okD [of s p] show ?case by (cases pending) (auto simp: probe_ok_def)
next
  case (miss s p i h pending)
  with probe_okD [of s p] show ?case by (auto simp: probe_ok_def)
qed (simp_all add: probe_ok_def)

lemma reachable_probe: "reachable s \<Longrightarrow> probe_ok s"
proof (induction rule: reachable.induct)
  case start
  then show ?case by (simp add: probe_ok_def init_world_def)
qed (rule probe_ok_step)


subsection \<open>A scheduler that runs the relation\<close>

text \<open>
  \<open>go p s\<close> is the next step of process \<open>p\<close> when nothing fails, and \<open>perform\<close> runs one event of a
  schedule: concrete interleavings can be evaluated, and every one of them is reachable.
\<close>

fun go :: "nat \<Rightarrow> world \<Rightarrow> world" where
  "go p s = (case procs s p of
      Idle \<Rightarrow> s
    | Try i limit v \<Rightarrow>
        if limit \<le> i then at s p Idle
        else if dir s (Claim i) = None then at (s\<lparr>dir := (dir s)(Claim i \<mapsto> '''')\<rparr>) p (CheckEntry i limit v)
        else at s p (Try (i + 1) limit v)
    | CheckEntry i limit v \<Rightarrow>
        at s p (if dir s (Entry i) \<noteq> None then Release i limit v else CheckUsed i limit v)
    | CheckUsed i limit v \<Rightarrow>
        at s p (if dir s (Used i) \<noteq> None then Release i limit v else WriteTmp i v)
    | Release i limit v \<Rightarrow> at (s\<lparr>dir := (dir s)(Claim i := None)\<rparr>) p (Try (i + 1) limit v)
    | WriteTmp i v \<Rightarrow> at (s\<lparr>dir := (dir s)(Tmp p i \<mapsto> v)\<rparr>) p (Publish i v)
    | Publish i v \<Rightarrow> (case dir s (Tmp p i) of
        None \<Rightarrow> s
      | Some w \<Rightarrow> at (s\<lparr>dir := (dir s)(Tmp p i := None, Entry i \<mapsto> w),
                          published := (published s)(i \<mapsto> v)\<rparr>) p (Finalize i))
    | Finalize i \<Rightarrow> (case dir s (Claim i) of
        None \<Rightarrow> at s p Idle
      | Some w \<Rightarrow> at (s\<lparr>dir := (dir s)(Claim i := None, Used i \<mapsto> w)\<rparr>) p Idle)
    | Probe i h q \<Rightarrow>
        if i \<le> h then (case dir s (Entry i) of
            None \<Rightarrow> at s p (CheckClaim i h q)
          | Some v \<Rightarrow> at (s\<lparr>dir := (dir s)(Entry i := None, TakenBy p i \<mapsto> v),
                            cursors := (cursors s)(p := (case q of None \<Rightarrow> i | Some j \<Rightarrow> j - 1))\<rparr>)
                       p (ReadTaken i))
        else (case q of
            None \<Rightarrow> at s p Idle
          | Some j \<Rightarrow> at (s\<lparr>cursors := (cursors s)(p := j - 1)\<rparr>) p Idle)
    | CheckClaim i h q \<Rightarrow>
        at s p (Probe (i + 1) h (if dir s (Claim i) \<noteq> None \<and> q = None then Some i else q))
    | ReadTaken i \<Rightarrow>
        at s p (DropTaken i (case dir s (TakenBy p i) of None \<Rightarrow> '''' | Some v \<Rightarrow> v))
    | DropTaken i v \<Rightarrow>
        at (s\<lparr>dir := (dir s)(TakenBy p i := None), delivered := delivered s @ [(i, v)]\<rparr>) p Idle)"

declare go.simps [simp del]

lemma go_step: "go p s = s \<or> step s (go p s)"
proof (cases "procs s p")
  case (Try i limit v)
  with give_up [of s p i limit v] claim [of s p i limit v] busy [of s p i limit v]
  show ?thesis by (simp add: go.simps)
next
  case (CheckEntry i limit v)
  with entry_exists [of s p i limit v] entry_absent [of s p i limit v] show ?thesis
    by (simp add: go.simps)
next
  case (CheckUsed i limit v)
  with used_exists [of s p i limit v] used_absent [of s p i limit v] show ?thesis
    by (simp add: go.simps)
next
  case (Release i limit v)
  with release [of s p i limit v] show ?thesis by (simp add: go.simps)
next
  case (WriteTmp i v)
  with write_tmp [of s p i v] show ?thesis by (simp add: go.simps)
next
  case (Publish i v)
  with publish [of s p i v] show ?thesis by (cases "dir s (Tmp p i)") (simp_all add: go.simps)
next
  case (Finalize i)
  with finalize [of s p i] finalize_fails [of s p i] show ?thesis
    by (cases "dir s (Claim i)") (simp_all add: go.simps)
next
  case (Probe i h q)
  with take [of s p i h q] miss [of s p i h q] drained [of s p i h] drained_pending [of s p i h]
  show ?thesis by (cases q; cases "dir s (Entry i)") (auto simp: go.simps)
next
  case (CheckClaim i h q)
  with check_claim [of s p i h q] show ?thesis by (simp add: go.simps)
next
  case (ReadTaken i)
  with read_taken [of s p i] show ?thesis by (simp add: go.simps)
next
  case (DropTaken i v)
  with drop_taken [of s p i v] show ?thesis by (simp add: go.simps)
qed (simp add: go.simps)

datatype event = Push nat nat bytes | Pop nat nat | Go nat | Crash nat

fun perform :: "event \<Rightarrow> world \<Rightarrow> world" where
  "perform (Push p h v) s =
     (if procs s p = Idle then at s p (Try (h + 1) (h + 1 + kMaxClaimAttempts) v) else s)"
| "perform (Pop p h) s = (if procs s p = Idle then at s p (Probe (cursors s p + 1) h None) else s)"
| "perform (Go p) s = go p s"
| "perform (Crash p) s = at (s\<lparr>lost := lost s \<union> set_option (taking (procs s p)),
     cursors := (cursors s)(p := 0)\<rparr>) p Idle"

lemma perform_step: "perform e s = s \<or> step s (perform e s)"
proof (cases e)
  case (Push p h v)
  with start_push [of s p h v] show ?thesis by simp
next
  case (Pop p h)
  with start_pop [of s p h] show ?thesis by simp
next
  case (Go p)
  with go_step show ?thesis by simp
next
  case (Crash p)
  with crash [of s p] show ?thesis by simp
qed

lemma perform_reachable: "reachable s \<Longrightarrow> reachable (perform e s)"
  using perform_step [of e s] next_step by metis

lemma run_reachable: "reachable (fold perform es init_world)"
proof -
  have "reachable s \<Longrightarrow> reachable (fold perform es s)" for s
    by (induction es arbitrary: s) (auto simp del: perform.simps intro: perform_reachable)
  then show ?thesis using start by blast
qed


subsection \<open>Properties\<close>

definition push_then_pop :: world where
  "push_then_pop = fold perform
     (Push 0 0 ''a'' # replicate 6 (Go 0) @ Pop 1 1 # replicate 3 (Go 1)) init_world"

lemma push_then_pop_eval:
  "delivered push_then_pop = [(1, ''a'')]" "published push_then_pop = [1 \<mapsto> ''a'']"
  "dir push_then_pop (Entry 1) = None" "lost push_then_pop = {}"
  by (simp_all add: push_then_pop_def init_world_def go.simps kMaxClaimAttempts_def replicate_numeral)

lemma push_then_pop_reachable: "reachable push_then_pop"
  unfolding push_then_pop_def by (rule run_reachable)

text \<open>
  C1: At-most-once delivery. However the calls of any number of pushing and popping processes
  interleave, and whichever of them crash, no id of the queue is handed to two poppers, and what
  a popper gets is exactly the value that was pushed under that id.
\<close>

theorem delivered_at_most_once:
  assumes "reachable s"
  shows "distinct (map fst (delivered s)) \<and>
    (\<forall>i v. (i, v) \<in> set (delivered s) \<longrightarrow> published s i = Some v)"
  using reachable_located [OF assms] reachable_values [OF assms]
  by (auto simp: located_def values_ok_def)

theorem delivered_at_most_once_witness:
  "distinct (map fst (delivered push_then_pop)) \<and> delivered push_then_pop = [(1, ''a'')] \<and>
   published push_then_pop 1 = Some ''a''"
  using delivered_at_most_once [OF push_then_pop_reachable] by (simp add: push_then_pop_eval)

text \<open>
  C2: Conservation. Every id that was ever published is in exactly one place: still in the
  directory with its whole value, in the hands of exactly one popper, delivered, or held by a
  popper that died with it. Nothing is duplicated and nothing vanishes.
\<close>

fun at_place :: "world \<Rightarrow> nat \<Rightarrow> place \<Rightarrow> bool" where
  "at_place s i Waiting \<longleftrightarrow> dir s (Entry i) = published s i"
| "at_place s i (InHand p) \<longleftrightarrow> taking (procs s p) = Some i"
| "at_place s i Delivered \<longleftrightarrow> i \<in> fst ` set (delivered s)"
| "at_place s i Lost \<longleftrightarrow> i \<in> lost s"

theorem published_in_one_place:
  assumes "reachable s" "published s i \<noteq> None"
  shows "\<exists>!pl. at_place s i pl"
proof -
  obtain loc where loc: "located s loc" using reachable_located [OF assms(1)] by blast
  then obtain pl where pl: "loc i = Some pl" using assms(2) unfolding located_def by blast
  have "dir s (Entry i) = Some v \<Longrightarrow> published s i = Some v" for v
    using reachable_values [OF assms(1)] by (simp add: values_ok_def)
  then have "dir s (Entry i) = published s i \<longleftrightarrow> dir s (Entry i) \<noteq> None"
    using assms(2) by (cases "dir s (Entry i)") auto
  then have "at_place s i pl' \<longleftrightarrow> pl' = pl" for pl'
    using located_at [OF loc pl] by (cases pl') (auto simp: handed_out_def)
  then show ?thesis by simp
qed

theorem published_in_one_place_witness:
  "published push_then_pop 1 \<noteq> None \<and> (\<exists>!pl. at_place push_then_pop 1 pl)"
  using published_in_one_place [OF push_then_pop_reachable, of 1] by (simp add: push_then_pop_eval)

text \<open>
  Publication is final. Whatever steps the processes take, an id once published keeps its
  value: no concurrent append reuses the id and overwrites it.
\<close>

theorem published_never_overwritten:
  assumes "reachable s" "steps s t" "published s i = Some v"
  shows "published t i = Some v"
  using steps_published [OF assms(2,1)] assms(3) by (metis domI map_le_def)

theorem published_never_overwritten_witness:
  "published push_then_pop 1 = Some ''a'' \<and> published (perform (Push 2 0 ''b'') push_then_pop) 1 = Some ''a''"
proof -
  have "step push_then_pop (perform (Push 2 0 ''b'') push_then_pop) \<or>
      perform (Push 2 0 ''b'') push_then_pop = push_then_pop" using perform_step by blast
  then have "steps push_then_pop (perform (Push 2 0 ''b'') push_then_pop)"
    using steps.refl steps.more by metis
  then show ?thesis
    using published_never_overwritten [OF push_then_pop_reachable, of _ 1 "''a''"]
    by (simp add: push_then_pop_eval)
qed

text \<open>
  Mutual exclusion of a reservation. A process that has passed both existence checks of an
  id is the only holder of its reservation, the id has never been published, and the value
  it is about to rename into place is complete.
\<close>

theorem cleared_id_exclusive:
  assumes "reachable s" "cleared (procs s p) = Some i"
  shows "published s i = None \<and> (\<forall>q. holds (procs s q) = Some i \<longrightarrow> q = p) \<and>
    (\<forall>v. procs s p = Publish i v \<longrightarrow> dir s (Tmp p i) = Some v)"
proof -
  have "holds (procs s p) = Some i" using assms(2) cleared_pre_holds pre_holds_holds by blast
  then show ?thesis
    using reachable_spent [OF assms(1)] reachable_claims [OF assms(1)] assms(2)
    unfolding spent_ok_def claims_ok_def by blast
qed

definition about_to_publish :: world where
  "about_to_publish = fold perform (Push 0 0 ''a'' # replicate 4 (Go 0)) init_world"

theorem cleared_id_exclusive_witness:
  "cleared (procs about_to_publish 0) = Some 1 \<and> dir about_to_publish (Tmp 0 1) = Some ''a''"
proof -
  have pc: "procs about_to_publish 0 = Publish 1 ''a''"
    by (simp add: about_to_publish_def init_world_def go.simps kMaxClaimAttempts_def replicate_numeral)
  have "reachable about_to_publish" unfolding about_to_publish_def by (rule run_reachable)
  from cleared_id_exclusive [OF this, of 0 1] pc show ?thesis by simp
qed

text \<open>A process whose cursor has passed an id never takes the entry of that id while it lives.\<close>

fun popping :: "pc \<Rightarrow> bool" where
  "popping Idle \<longleftrightarrow> True"
| "popping (Probe i h q) \<longleftrightarrow> True"
| "popping (CheckClaim i h q) \<longleftrightarrow> True"
| "popping (ReadTaken i) \<longleftrightarrow> True"
| "popping (DropTaken i v) \<longleftrightarrow> True"
| "popping _ \<longleftrightarrow> False"

definition past :: "nat \<Rightarrow> nat \<Rightarrow> world \<Rightarrow> bool" where
  "past p i s \<longleftrightarrow> i \<le> cursors s p \<and> probe_above (cursors s p) (procs s p) \<and> popping (procs s p)"

lemma go_past:
  assumes "past p i s"
  shows "past p i (go p s) \<and> dir (go p s) (Entry i) = dir s (Entry i)"
proof (cases "procs s p")
  case (Probe j h q)
  with assms show ?thesis
    by (cases q; cases "dir s (Entry j)") (auto simp: past_def go.simps)
next
  case (CheckClaim j h q)
  with assms show ?thesis by (cases q) (auto simp: past_def go.simps)
qed (use assms in \<open>auto simp: past_def go.simps\<close>)

lemma pops_past:
  assumes "past p i s" "\<forall>e \<in> set es. e = Go p \<or> (\<exists>h. e = Pop p h)"
  shows "dir (fold perform es s) (Entry i) = dir s (Entry i)"
  using assms
proof (induction es arbitrary: s)
  case (Cons e es)
  have "past p i (perform e s) \<and> dir (perform e s) (Entry i) = dir s (Entry i)"
    using Cons.prems go_past [of p i s] by (auto simp: past_def)
  with Cons show ?case by auto
qed simp

definition stranding_run :: world where
  "stranding_run = fold perform
     (Push 0 0 ''a'' # replicate 4 (Go 0) @ Push 1 1 ''b'' # replicate 6 (Go 1) @
      Pop 2 2 # Go 2 # replicate 2 (Go 0) @ replicate 4 (Go 2)) init_world"

text \<open>
  C3: The race in \<^verbatim>\<open>queue_pop\<close>. The popper's rename of entry 1 fails while its push is in
  flight; the push then publishes the entry and turns its reservation into the tombstone before
  the popper looks for the reservation. The popper takes the id for one another popper has
  taken, moves its cursor past it, and no later pop of that process finds the item: it stays in
  the directory while \<^verbatim>\<open>queue_pop\<close> reports an empty queue.
\<close>

theorem queue_pop_strands_entry:
  "reachable stranding_run \<and> procs stranding_run = (\<lambda>_. Idle) \<and> dir stranding_run (Entry 1) = Some ''a'' \<and>
   delivered stranding_run = [(2, ''b'')] \<and>
   {dir (fold perform es stranding_run) (Entry 1) | es. set es \<subseteq> insert (Go 2) (range (Pop 2))} = {Some ''a''}"
proof -
  have eval: "procs stranding_run = (\<lambda>_. Idle)" "dir stranding_run (Entry 1) = Some ''a''"
     "delivered stranding_run = [(2, ''b'')]" "cursors stranding_run 2 = 2"
    by (auto simp add: stranding_run_def init_world_def go.simps kMaxClaimAttempts_def replicate_numeral)
  then have "past 2 1 stranding_run" by (simp add: past_def)
  then have "dir (fold perform es stranding_run) (Entry 1) = Some ''a''"
    if "set es \<subseteq> insert (Go 2) (range (Pop 2))" for es
    using pops_past [of 2 1 stranding_run es] that eval by (metis image_iff insert_iff subsetD)
  then have "{dir (fold perform es stranding_run) (Entry 1) | es. set es \<subseteq> insert (Go 2) (range (Pop 2))} =
    {Some ''a''}" by (auto intro!: exI [of _ "[]"] simp: eval(2) [simplified])
  moreover have "reachable stranding_run" unfolding stranding_run_def by (rule run_reachable)
  ultimately show ?thesis using eval by blast
qed

end
