(* ===== verification/Storage_Progress.thy ===== *)
theory Storage_Progress
  imports Storage_Concurrent
begin

section \<open>Waiting items are delivered\<close>

text \<open>
  Progress of \<^verbatim>\<open>queue_pop\<close>: from any state the interleavings can reach, a process that pops while the others
  stand still, with a listing that sees the item, gets every waiting item above its cursor after
  at most as many pops as there are items up to it. One pop is the step function \<open>go\<close> iterated until the
  process is idle again.
\<close>

definition pop_once :: "nat \<Rightarrow> nat \<Rightarrow> world \<Rightarrow> world" where
  "pop_once p h s = (go p ^^ (2 * h + 4)) (at s p (Probe (cursors s p + 1) h None))"

definition waiting_upto :: "nat \<Rightarrow> world \<Rightarrow> nat set" where
  "waiting_upto i s = {k. k \<le> i \<and> dir s (Entry k) \<noteq> None}"

lemma finite_waiting [simp]: "finite (waiting_upto i s)"
  by (simp add: waiting_upto_def)

lemma go_idle: "procs s p = Idle \<Longrightarrow> (go p ^^ n) s = s"
  by (induction n) (simp_all add: go.simps)

text \<open>What one pop has done once it is idle: one item, the first at or above where it looked, is handed out.\<close>

definition popped :: "nat \<Rightarrow> nat \<Rightarrow> bytes \<Rightarrow> world \<Rightarrow> world \<Rightarrow> bool" where
  "popped p k w s t \<longleftrightarrow> dir s (Entry k) = Some w \<and> procs t p = Idle \<and> cursors t p \<le> k \<and>
     delivered t = delivered s @ [(k, w)] \<and> (\<forall>j. dir t (Entry j) = (if j = k then None else dir s (Entry j)))"

lemma go_take:
  assumes "procs s p = Probe k h q" "k \<le> h" "dir s (Entry k) = Some w" "\<forall>j \<in> set_option q. j < k"
  shows "popped p k w s ((go p ^^ 3) s)"
proof -
  have "(case q of None \<Rightarrow> k | Some j \<Rightarrow> j - 1) \<le> k" using assms(4) by (cases q) auto
  then show ?thesis using assms(1-3) by (simp add: popped_def numeral_3_eq_3 go.simps)
qed

lemma probe_takes:
  assumes "procs s p = Probe j h q" "j \<le> i" "i \<le> h" "dir s (Entry i) \<noteq> None" "\<forall>x \<in> set_option q. x < j"
  shows "\<exists>k w m. k \<le> i \<and> m \<le> 2 * (i - j) + 3 \<and> popped p k w s ((go p ^^ m) s)"
  using assms
proof (induction "i - j" arbitrary: s j q)
  case 0
  then obtain w where "dir s (Entry i) = Some w" by auto
  with 0 go_take [of s p i h q w] show ?case by (intro exI [of _ i] exI [of _ w] exI [of _ 3]) simp
next
  case (Suc n)
  show ?case
  proof (cases "dir s (Entry j)")
    case (Some w)
    with Suc.prems go_take [of s p j h q w] show ?thesis by (intro exI [of _ j] exI [of _ w] exI [of _ 3]) simp
  next
    case None
    define q' where "q' = (if dir s (Claim j) \<noteq> None \<and> q = None then Some j else q)"
    let ?s = "at s p (Probe (j + 1) h q')"
    have q': "\<forall>x \<in> set_option q'. x < j + 1" using Suc.prems(5) by (auto simp: q'_def)
    have two: "(go p ^^ 2) s = ?s"
      using Suc.prems None by (simp add: numeral_2_eq_2 go.simps q'_def)
    have "n = i - (j + 1)" "j + 1 \<le> i" using Suc.hyps(2) by simp_all
    then obtain k w m where k: "k \<le> i" "m \<le> 2 * (i - (j + 1)) + 3" "popped p k w ?s ((go p ^^ m) ?s)"
      using Suc.hyps(1) [of "j + 1" ?s q'] Suc.prems(3,4) q' by auto
    have "popped p k w s ((go p ^^ (m + 2)) s)"
      using k(3) unfolding funpow_add two [symmetric] comp_def by (simp add: popped_def two)
    moreover have "m + 2 \<le> 2 * (i - j) + 3" using k(2) Suc.hyps(2) by linarith
    ultimately show ?thesis using k(1) by blast
  qed
qed

lemma pop_once_pops:
  assumes "procs s p = Idle" "cursors s p < i" "i \<le> h" "dir s (Entry i) \<noteq> None"
  shows "\<exists>k w. k \<le> i \<and> popped p k w s (pop_once p h s)"
proof -
  let ?s = "at s p (Probe (cursors s p + 1) h None)"
  obtain k w m where k: "k \<le> i" "m \<le> 2 * (i - (cursors s p + 1)) + 3" "popped p k w ?s ((go p ^^ m) ?s)"
    using probe_takes [of ?s p "cursors s p + 1" h None i] assms by auto
  have "2 * h + 4 = (2 * h + 4 - m) + m" using k(2) assms(3) by linarith
  then have "pop_once p h s = (go p ^^ (2 * h + 4 - m)) ((go p ^^ m) ?s)"
    unfolding pop_once_def by (metis comp_apply funpow_add)
  also have "\<dots> = (go p ^^ m) ?s" using k(3) by (simp add: go_idle popped_def)
  finally show ?thesis using k(1,3) by (auto simp: popped_def)
qed

lemma waiting_delivered:
  assumes "procs s p = Idle" "cursors s p < i" "i \<le> h" "dir s (Entry i) = Some v"
  shows "\<exists>n \<le> card (waiting_upto i s). (i, v) \<in> set (delivered ((pop_once p h ^^ n) s))"
  using assms
proof (induction "card (waiting_upto i s)" arbitrary: s rule: less_induct)
  case less
  obtain k w where k: "k \<le> i" "popped p k w s (pop_once p h s)"
    using pop_once_pops [of s p i h] less.prems by auto
  let ?t = "pop_once p h s"
  have in_s: "k \<in> waiting_upto i s" "waiting_upto i ?t = waiting_upto i s - {k}"
    using k by (auto simp: waiting_upto_def popped_def split: if_splits)
  then have card: "Suc (card (waiting_upto i ?t)) = card (waiting_upto i s)"
    using card_Suc_Diff1 [OF finite_waiting in_s(1)] by (simp only: in_s(2))
  show ?case
  proof (cases "k = i")
    case True
    then have "(i, v) \<in> set (delivered ((pop_once p h ^^ 1) s))" using k less.prems(4) by (auto simp: popped_def)
    with card show ?thesis by (metis Suc_le_mono One_nat_def le0)
  next
    case False
    then have "procs ?t p = Idle" "cursors ?t p < i" "dir ?t (Entry i) = Some v" using k less.prems(4) by (auto simp: popped_def)
    with less.hyps [of ?t] less.prems(3) card obtain n where
      n: "n \<le> card (waiting_upto i ?t)" "(i, v) \<in> set (delivered ((pop_once p h ^^ n) ?t))" by auto
    then have "(i, v) \<in> set (delivered ((pop_once p h ^^ Suc n) s))" by (simp add: funpow_swap1)
    with n(1) card show ?thesis by (metis Suc_le_mono)
  qed
qed



end
