(* ===== verification/Wire.thy ===== *)
theory Wire
  imports Prelude Complex_Main
begin

section \<open>Reading request parameters\<close>

text \<open>
  The accessors of \<^verbatim>\<open>src/src/wire.cpp\<close> over a model of Arrow data: a type, an array of that type, a
  batch of named arrays. Arrow's classes derive from one another where the C++ library says so
  (\<^verbatim>\<open>StringArray\<close> is a \<^verbatim>\<open>BinaryArray\<close>, \<^verbatim>\<open>LargeStringArray\<close> a \<^verbatim>\<open>LargeBinaryArray\<close>, \<^verbatim>\<open>MapArray\<close> a \<^verbatim>\<open>ListArray\<close>), and a
  column is found by name only when the name is unique; the casts below follow that. An
  exception is \<open>Inl\<close>; \<open>Undefined\<close> is a read outside an array, which the C++ leaves undefined. The
  IPC reader and the text of a scalar are Arrow's own and are arguments.
\<close>

datatype dtype =
    TString | TLargeString | TStringView | TBinary | TLargeBinary | TBool
  | TInt16 | TInt32 | TInt64 | TUInt64 | TDouble
  | TDict dtype dtype
  | TList field | TLargeList field | TMap field field | TStruct "field list"
  | TOther string
and field = Field (field_name: string) (field_type: dtype) (nullable: bool)

text \<open>A logical value; \<open>VIndex\<close> is a dictionary index.\<close>

datatype cell =
    Null | VText bytes | VBool bool | VInt int | VReal real | VIndex int
  | VList "cell list" | VMap "(cell \<times> cell) list" | VStruct "cell list" | VOther string

record arr =
  arr_type :: dtype
  arr_cells :: "cell list"
  arr_dictionary :: "cell list"

record batch =
  columns :: "(field \<times> arr) list"
  num_rows :: nat

datatype wire_error =
    NullBatch string | NoParam string | WrongType string | NoRows string | NullParam string
  | NotDictionary string | BadIndexType string | IndexRange string | NotAList string
  | NullComponent string | EmptyPath string | EmptyComponent string | IpcError string
  | NoField string | NeverSet string | NullInNonNullable string | NoValue string
  | NotStructs string | Undefined

subsection \<open>Columns\<close>

text \<open>\<^verbatim>\<open>RecordBatch::GetColumnByName\<close>: null when the name is absent or not unique.\<close>

definition GetColumnByName :: "batch \<Rightarrow> string \<Rightarrow> arr option" where
  "GetColumnByName b name =
     (case filter (\<lambda>(f, a). field_name f = name) (columns b) of [(f, a)] \<Rightarrow> Some a | _ \<Rightarrow> None)"

definition has_column :: "batch option \<Rightarrow> string \<Rightarrow> bool" where
  "has_column batch name \<longleftrightarrow> (case batch of None \<Rightarrow> False | Some b \<Rightarrow> GetColumnByName b name \<noteq> None)"

definition column :: "batch option \<Rightarrow> string \<Rightarrow> wire_error + arr" where
  "column batch name =
     (case batch of
        None \<Rightarrow> Inl (NullBatch name)
      | Some b \<Rightarrow> (case GetColumnByName b name of None \<Rightarrow> Inl (NoParam name) | Some a \<Rightarrow> Inr a))"

fun is_string :: "dtype \<Rightarrow> bool" where
  "is_string TString = True" | "is_string _ = False"

fun is_binary :: "dtype \<Rightarrow> bool" where
  "is_binary TBinary = True" | "is_binary TString = True" | "is_binary _ = False"

fun is_large_binary :: "dtype \<Rightarrow> bool" where
  "is_large_binary TLargeBinary = True" | "is_large_binary TLargeString = True"
| "is_large_binary _ = False"

fun is_dict :: "dtype \<Rightarrow> bool" where
  "is_dict (TDict i v) = True" | "is_dict _ = False"

fun is_struct :: "dtype \<Rightarrow> bool" where
  "is_struct (TStruct fs) = True" | "is_struct _ = False"

text \<open>\<^verbatim>\<open>ListArray::values()->type()\<close>; a map is a list of its entries.\<close>

fun list_values :: "dtype \<Rightarrow> dtype option" where
  "list_values (TList f) = Some (field_type f)"
| "list_values (TMap k v) = Some (TStruct [k, v])"
| "list_values _ = None"

definition typed_column :: "(dtype \<Rightarrow> bool) \<Rightarrow> batch option \<Rightarrow> string \<Rightarrow> wire_error + arr" where
  "typed_column is_type batch name =
     bindE (column batch name) (\<lambda>arr.
     bindE (ensure (is_type (arr_type arr)) (WrongType name)) (\<lambda>_.
     bindE (ensure (1 \<le> length (arr_cells arr)) (NoRows name)) (\<lambda>_.
     Inr arr)))"

definition at0 :: "arr \<Rightarrow> wire_error + cell" where
  "at0 a = (case arr_cells a of [] \<Rightarrow> Inl Undefined | c # _ \<Rightarrow> Inr c)"

text \<open>The typed value of a slot. The value of a null slot is its empty byte range.\<close>

fun text_of :: "cell \<Rightarrow> bytes" where
  "text_of (VText s) = s" | "text_of _ = ''''"

fun int_of :: "cell \<Rightarrow> int" where
  "int_of (VInt i) = i" | "int_of _ = 0"

fun bool_of :: "cell \<Rightarrow> bool" where
  "bool_of (VBool b) = b" | "bool_of _ = False"

fun real_of_cell :: "cell \<Rightarrow> real" where
  "real_of_cell (VReal r) = r" | "real_of_cell _ = 0"

fun index_of :: "cell \<Rightarrow> int" where
  "index_of (VIndex i) = i" | "index_of _ = 0"

fun elements :: "cell \<Rightarrow> cell list" where
  "elements (VList cs) = cs" | "elements _ = []"

fun dict_index :: "dtype \<Rightarrow> dtype" where
  "dict_index (TDict i v) = i" | "dict_index t = t"

fun dict_value :: "dtype \<Rightarrow> dtype" where
  "dict_value (TDict i v) = v" | "dict_value t = t"

subsection \<open>Scalars\<close>

definition required :: "(dtype \<Rightarrow> bool) \<Rightarrow> (cell \<Rightarrow> 'a) \<Rightarrow> batch option \<Rightarrow> string \<Rightarrow> wire_error + 'a" where
  "required is_type get batch name =
     bindE (typed_column is_type batch name) (\<lambda>arr.
     bindE (at0 arr) (\<lambda>c.
     if c = Null then Inl (NullParam name) else Inr (get c)))"

definition optional ::
    "(dtype \<Rightarrow> bool) \<Rightarrow> (cell \<Rightarrow> 'a) \<Rightarrow> batch option \<Rightarrow> string \<Rightarrow> wire_error + 'a option" where
  "optional is_type get batch name =
     (if \<not> has_column batch name then Inr None
      else
        bindE (typed_column is_type batch name) (\<lambda>arr.
        bindE (at0 arr) (\<lambda>c.
        Inr (if c = Null then None else Some (get c)))))"

definition get_string :: "batch option \<Rightarrow> string \<Rightarrow> wire_error + bytes" where
  "get_string = required is_string text_of"

definition get_optional_string :: "batch option \<Rightarrow> string \<Rightarrow> wire_error + bytes option" where
  "get_optional_string = optional is_string text_of"

definition get_binary :: "batch option \<Rightarrow> string \<Rightarrow> wire_error + bytes" where
  "get_binary = required is_binary text_of"

definition get_bool :: "batch option \<Rightarrow> string \<Rightarrow> wire_error + bool" where
  "get_bool = required (\<lambda>t. t = TBool) bool_of"

definition get_optional_bool :: "batch option \<Rightarrow> string \<Rightarrow> wire_error + bool option" where
  "get_optional_bool = optional (\<lambda>t. t = TBool) bool_of"

definition get_int64 :: "batch option \<Rightarrow> string \<Rightarrow> wire_error + int" where
  "get_int64 = required (\<lambda>t. t = TInt64) int_of"

definition get_optional_int64 :: "batch option \<Rightarrow> string \<Rightarrow> wire_error + int option" where
  "get_optional_int64 = optional (\<lambda>t. t = TInt64) int_of"

definition get_optional_double :: "batch option \<Rightarrow> string \<Rightarrow> wire_error + real option" where
  "get_optional_double = optional (\<lambda>t. t = TDouble) real_of_cell"

text \<open>The three branches of \<^verbatim>\<open>get_optional_binary\<close>: dictionary, wide, narrow.\<close>

definition get_optional_binary :: "batch option \<Rightarrow> string \<Rightarrow> wire_error + bytes option" where
  "get_optional_binary batch name =
     (if \<not> has_column batch name then Inr None
      else bindE (column batch name) (\<lambda>arr.
        if is_dict (arr_type arr) then
          bindE (at0 arr) (\<lambda>c.
            if c = Null then Inr None
            else if \<not> is_binary (dict_value (arr_type arr)) then Inl (NotDictionary name)
            else let index = index_of c in
              if index < 0 \<or> int (length (arr_dictionary arr)) \<le> index then Inl (IndexRange name)
              else let v = arr_dictionary arr ! nat index in
                Inr (if v = Null then None else Some (text_of v)))
        else if is_large_binary (arr_type arr) then
          bindE (at0 arr) (\<lambda>c. Inr (if c = Null then None else Some (text_of c)))
        else
          bindE (typed_column is_binary batch name) (\<lambda>narrow.
          bindE (at0 narrow) (\<lambda>c. Inr (if c = Null then None else Some (text_of c))))))"

definition enum_value :: "string \<Rightarrow> arr \<Rightarrow> cell \<Rightarrow> wire_error + bytes" where
  "enum_value name arr c =
     (if \<not> is_string (dict_value (arr_type arr)) then Inl (NotDictionary name)
      else if dict_index (arr_type arr) \<noteq> TInt16 then Inl (BadIndexType name)
      else let index = index_of c in
        if index < 0 \<or> int (length (arr_dictionary arr)) \<le> index then Inl (IndexRange name)
        else Inr (text_of (arr_dictionary arr ! nat index)))"

definition get_enum :: "batch option \<Rightarrow> string \<Rightarrow> wire_error + bytes" where
  "get_enum batch name =
     bindE (typed_column is_dict batch name) (\<lambda>arr.
     bindE (at0 arr) (\<lambda>c.
     if c = Null then Inl (NullParam name) else enum_value name arr c))"

definition get_optional_enum :: "batch option \<Rightarrow> string \<Rightarrow> wire_error + bytes option" where
  "get_optional_enum batch name =
     (if \<not> has_column batch name then Inr None
      else
        bindE (typed_column is_dict batch name) (\<lambda>arr.
        bindE (at0 arr) (\<lambda>c.
        if c = Null then Inr None else bindE (enum_value name arr c) (\<lambda>v. Inr (Some v)))))"

subsection \<open>Embedded records\<close>

text \<open>\<open>ipc\<close> is Arrow's stream reader: the first batch of the stream, if it has one.\<close>

definition decode_ipc :: "(bytes \<Rightarrow> wire_error + batch option) \<Rightarrow> bytes \<Rightarrow> wire_error + batch option" where
  "decode_ipc ipc bytes = (if bytes = '''' then Inr None else ipc bytes)"

definition get_ipc ::
    "(bytes \<Rightarrow> wire_error + batch option) \<Rightarrow> batch option \<Rightarrow> string \<Rightarrow> wire_error + batch option" where
  "get_ipc ipc batch name =
     bindE (get_optional_binary batch name) (\<lambda>bytes.
     case bytes of None \<Rightarrow> Inr None | Some b \<Rightarrow> decode_ipc ipc b)"

text \<open>\<open>text\<close> is \<^verbatim>\<open>Scalar::ToString\<close>; \<open>None\<close> when Arrow gives no scalar.\<close>

fun struct_fields ::
    "(dtype \<Rightarrow> cell \<Rightarrow> string option) \<Rightarrow> (field \<times> cell) list \<Rightarrow> (string \<rightharpoonup> string) \<Rightarrow> string \<rightharpoonup> string" where
  "struct_fields text [] m = m"
| "struct_fields text ((f, c) # rest) m =
     struct_fields text rest
       (if c = Null then m
        else if field_type f = TString then m(field_name f \<mapsto> text_of c)
        else case text (field_type f) c of None \<Rightarrow> m | Some s \<Rightarrow> m(field_name f \<mapsto> s))"

fun struct_cells :: "arr \<Rightarrow> cell \<Rightarrow> (field \<times> cell) list" where
  "struct_cells a (VStruct cs) = (case arr_type a of TStruct fs \<Rightarrow> zip fs cs | _ \<Rightarrow> [])"
| "struct_cells a _ = []"

definition get_struct_fields ::
    "(dtype \<Rightarrow> cell \<Rightarrow> string option) \<Rightarrow> batch option \<Rightarrow> string \<Rightarrow> wire_error + (string \<rightharpoonup> string) option" where
  "get_struct_fields text batch name =
     (if \<not> has_column batch name then Inr None
      else bindE (column batch name) (\<lambda>arr.
        if \<not> is_struct (arr_type arr) \<or> arr_cells arr = [] \<or> hd (arr_cells arr) = Null then Inr None
        else Inr (Some (struct_fields text (struct_cells arr (hd (arr_cells arr))) Map.empty))))"

definition get_struct_binary :: "batch option \<Rightarrow> string \<Rightarrow> string \<Rightarrow> wire_error + bytes option" where
  "get_struct_binary batch name child =
     (if \<not> has_column batch name then Inr None
      else bindE (column batch name) (\<lambda>arr.
        if \<not> is_struct (arr_type arr) \<or> arr_cells arr = [] \<or> hd (arr_cells arr) = Null then Inr None
        else case filter (\<lambda>(f, c). field_name f = child) (struct_cells arr (hd (arr_cells arr))) of
            [(f, c)] \<Rightarrow>
              Inr (if \<not> is_binary (field_type f) \<or> c = Null then None else Some (text_of c))
          | _ \<Rightarrow> Inr None))"

subsection \<open>Lists\<close>

text \<open>What every list accessor checks first: \<open>None\<close> for an absent list.\<close>

definition list_column :: "batch option \<Rightarrow> string \<Rightarrow> wire_error + (dtype \<times> cell list) option" where
  "list_column batch name =
     (if \<not> has_column batch name then Inr None
      else bindE (column batch name) (\<lambda>arr.
        case list_values (arr_type arr) of
          None \<Rightarrow> Inl (NotAList name)
        | Some t \<Rightarrow>
            if arr_cells arr = [] \<or> hd (arr_cells arr) = Null then Inr None
            else Inr (Some (t, elements (hd (arr_cells arr))))))"

definition get_int64_list :: "batch option \<Rightarrow> string \<Rightarrow> wire_error + int list" where
  "get_int64_list batch name =
     bindE (list_column batch name) (\<lambda>l. case l of
       None \<Rightarrow> Inr []
     | Some (t, cs) \<Rightarrow>
         if t \<noteq> TInt64 then Inl (WrongType name)
         else Inr (map int_of (filter (\<lambda>c. c \<noteq> Null) cs)))"

definition string_items :: "string \<Rightarrow> cell list \<Rightarrow> wire_error + bytes list" where
  "string_items name = mapE (\<lambda>c. if c = Null then Inl (NullComponent name) else Inr (text_of c))"

definition get_string_list :: "batch option \<Rightarrow> string \<Rightarrow> wire_error + bytes list" where
  "get_string_list batch name =
     bindE (list_column batch name) (\<lambda>l. case l of
       None \<Rightarrow> Inr []
     | Some (t, cs) \<Rightarrow> if \<not> is_string t then Inl (WrongType name) else string_items name cs)"

definition get_optional_string_list ::
    "batch option \<Rightarrow> string \<Rightarrow> wire_error + bytes option list option" where
  "get_optional_string_list batch name =
     bindE (list_column batch name) (\<lambda>l. case l of
       None \<Rightarrow> Inr None
     | Some (t, cs) \<Rightarrow>
         if \<not> is_string t then Inl (WrongType name)
         else Inr (Some (map (\<lambda>c. if c = Null then None else Some (text_of c)) cs)))"

definition get_schema_path :: "batch option \<Rightarrow> string \<Rightarrow> wire_error + bytes list" where
  "get_schema_path batch name =
     bindE (list_column batch name) (\<lambda>l. case l of
       None \<Rightarrow> Inr [''main'']
     | Some _ \<Rightarrow>
         bindE (get_string_list batch name) (\<lambda>path.
         bindE (ensure (path \<noteq> []) (EmptyPath name)) (\<lambda>_.
         bindE (ensure ('''' \<notin> set path) (EmptyComponent name)) (\<lambda>_.
         Inr path))))"

definition get_binary_list :: "batch option \<Rightarrow> string \<Rightarrow> wire_error + bytes list" where
  "get_binary_list batch name =
     bindE (list_column batch name) (\<lambda>l. case l of
       None \<Rightarrow> Inr []
     | Some (t, cs) \<Rightarrow>
         if \<not> is_large_binary t \<and> \<not> is_binary t then Inl (WrongType name)
         else Inr (map text_of (filter (\<lambda>c. c \<noteq> Null) cs)))"

end
