(* ===== verification/Wire_Result.thy ===== *)
theory Wire_Result
  imports Wire
begin

section \<open>Building results\<close>

text \<open>
  \<^verbatim>\<open>ResultBuilder\<close> of \<^verbatim>\<open>src/src/wire.cpp\<close>: a schema and one optional array per field. Every setter
  is a function of the builder that fails as the C++ throws; the arrays carry the type the Arrow
  builder of that setter gives them, which need not be the declared one. Arrow's
  \<^verbatim>\<open>ArrayBuilder::AppendEmptyValue\<close> is the argument \<open>empty_value\<close>.
\<close>

record result_builder =
  schema :: "field list"
  arrays :: "arr option list"

definition ResultBuilder :: "field list \<Rightarrow> result_builder" where
  "ResultBuilder fs = \<lparr>schema = fs, arrays = replicate (length fs) None\<rparr>"

text \<open>\<^verbatim>\<open>Schema::GetFieldIndex\<close>: -1 when the name is absent or not unique.\<close>

definition GetFieldIndex :: "field list \<Rightarrow> string \<Rightarrow> nat option" where
  "GetFieldIndex fs name =
     (case filter (\<lambda>i. field_name (fs ! i) = name) [0..<length fs] of [i] \<Rightarrow> Some i | _ \<Rightarrow> None)"

definition field_index :: "result_builder \<Rightarrow> string \<Rightarrow> wire_error + nat" where
  "field_index b name = (case GetFieldIndex (schema b) name of None \<Rightarrow> Inl (NoField name) | Some i \<Rightarrow> Inr i)"

abbreviation one :: "dtype \<Rightarrow> cell \<Rightarrow> arr" where
  "one t c \<equiv> \<lparr>arr_type = t, arr_cells = [c], arr_dictionary = []\<rparr>"

abbreviation item_field :: "dtype \<Rightarrow> field" where
  "item_field t \<equiv> Field ''item'' t True"

definition put_array :: "nat \<Rightarrow> arr \<Rightarrow> result_builder \<Rightarrow> result_builder" where
  "put_array i a b = b\<lparr>arrays := (arrays b)[i := Some a]\<rparr>"

definition set_plain :: "arr \<Rightarrow> string \<Rightarrow> result_builder \<Rightarrow> wire_error + result_builder" where
  "set_plain a name b = bindE (field_index b name) (\<lambda>i. Inr (put_array i a b))"

definition set_string :: "string \<Rightarrow> bytes \<Rightarrow> result_builder \<Rightarrow> wire_error + result_builder" where
  "set_string name v = set_plain (one TString (VText v)) name"

definition set_bool :: "string \<Rightarrow> bool \<Rightarrow> result_builder \<Rightarrow> wire_error + result_builder" where
  "set_bool name v = set_plain (one TBool (VBool v)) name"

definition set_int64 :: "string \<Rightarrow> int \<Rightarrow> result_builder \<Rightarrow> wire_error + result_builder" where
  "set_int64 name v = set_plain (one TInt64 (VInt v)) name"

text \<open>\<^verbatim>\<open>DictionaryArray::FromArrays\<close> refuses indices or values of another type than the declared one.\<close>

definition set_binary :: "string \<Rightarrow> bytes \<Rightarrow> result_builder \<Rightarrow> wire_error + result_builder" where
  "set_binary name v b =
     bindE (field_index b name) (\<lambda>i.
     let t = field_type (schema b ! i) in
     if is_dict t then
       if t = TDict TInt32 TBinary
       then Inr (put_array i \<lparr>arr_type = t, arr_cells = [VIndex 0], arr_dictionary = [VText v]\<rparr> b)
       else Inl (WrongType name)
     else Inr (put_array i (one TBinary (VText v)) b))"

definition set_array :: "string \<Rightarrow> arr option \<Rightarrow> result_builder \<Rightarrow> wire_error + result_builder" where
  "set_array name value b =
     bindE (field_index b name) (\<lambda>i.
     case value of
       None \<Rightarrow> Inl (NoValue name)
     | Some a \<Rightarrow>
         if arr_cells a = [] then Inl (NoValue name)
         else if arr_type a \<noteq> field_type (schema b ! i) then Inl (WrongType name)
         else Inr (put_array i (a\<lparr>arr_cells := take 1 (arr_cells a)\<rparr>) b))"

definition set_null :: "string \<Rightarrow> result_builder \<Rightarrow> wire_error + result_builder" where
  "set_null name b =
     bindE (field_index b name) (\<lambda>i.
     Inr (put_array i (one (field_type (schema b ! i)) Null) b))"

definition set_optional_string :: "string \<Rightarrow> bytes option \<Rightarrow> result_builder \<Rightarrow> wire_error + result_builder" where
  "set_optional_string name v = (case v of Some s \<Rightarrow> set_string name s | None \<Rightarrow> set_null name)"

subsection \<open>Lists and maps\<close>

definition set_binary_list :: "string \<Rightarrow> bytes list \<Rightarrow> result_builder \<Rightarrow> wire_error + result_builder" where
  "set_binary_list name vs b =
     bindE (field_index b name) (\<lambda>i.
     case field_type (schema b ! i) of
       TList f \<Rightarrow>
         let t = (if field_type f = TLargeBinary then TLargeBinary else TBinary) in
         Inr (put_array i (one (TList (item_field t)) (VList (map VText vs))) b)
     | _ \<Rightarrow> Inl Undefined)"

definition set_string_list :: "string \<Rightarrow> bytes list \<Rightarrow> result_builder \<Rightarrow> wire_error + result_builder" where
  "set_string_list name vs = set_plain (one (TList (item_field TString)) (VList (map VText vs))) name"

definition set_int32_list :: "string \<Rightarrow> int list \<Rightarrow> result_builder \<Rightarrow> wire_error + result_builder" where
  "set_int32_list name vs = set_plain (one (TList (item_field TInt32)) (VList (map VInt vs))) name"

definition set_int64_list :: "string \<Rightarrow> int list \<Rightarrow> result_builder \<Rightarrow> wire_error + result_builder" where
  "set_int64_list name vs = set_plain (one (TList (item_field TInt64)) (VList (map VInt vs))) name"

definition set_int32_list_list ::
    "string \<Rightarrow> int list list \<Rightarrow> result_builder \<Rightarrow> wire_error + result_builder" where
  "set_int32_list_list name groups =
     set_plain (one (TList (item_field (TList (item_field TInt32))))
       (VList (map (\<lambda>g. VList (map VInt g)) groups))) name"

definition set_string_list_list ::
    "string \<Rightarrow> bytes list list \<Rightarrow> result_builder \<Rightarrow> wire_error + result_builder" where
  "set_string_list_list name groups =
     set_plain (one (TList (item_field (TList (item_field TString))))
       (VList (map (\<lambda>g. VList (map VText g)) groups))) name"

definition set_string_list_list_list ::
    "string \<Rightarrow> bytes list list list \<Rightarrow> result_builder \<Rightarrow> wire_error + result_builder" where
  "set_string_list_list_list name groups =
     set_plain (one (TList (item_field (TList (item_field (TList (item_field TString))))))
       (VList (map (\<lambda>g. VList (map (\<lambda>p. VList (map VText p)) g)) groups))) name"

abbreviation map_type :: "dtype \<Rightarrow> dtype" where
  "map_type t \<equiv> TMap (Field ''key'' TString False) (Field ''value'' t True)"

definition set_int64_map ::
    "string \<Rightarrow> (bytes \<times> int) list \<Rightarrow> result_builder \<Rightarrow> wire_error + result_builder" where
  "set_int64_map name es =
     set_plain (one (map_type TInt64) (VMap (map (\<lambda>(k, v). (VText k, VInt v)) es))) name"

definition set_string_map ::
    "string \<Rightarrow> (bytes \<times> bytes) list \<Rightarrow> result_builder \<Rightarrow> wire_error + result_builder" where
  "set_string_map name es =
     set_plain (one (map_type TString) (VMap (map (\<lambda>(k, v). (VText k, VText v)) es))) name"

definition set_enum :: "string \<Rightarrow> bytes \<Rightarrow> result_builder \<Rightarrow> wire_error + result_builder" where
  "set_enum name v b =
     bindE (field_index b name) (\<lambda>i.
     let t = field_type (schema b ! i) in
     if \<not> is_dict t then Inl (NotDictionary name)
     else if t \<noteq> TDict TInt16 TString then Inl (WrongType name)
     else Inr (put_array i \<lparr>arr_type = t, arr_cells = [VIndex 0], arr_dictionary = [VText v]\<rparr> b))"

subsection \<open>Lists of structs, filled by child name\<close>

definition child :: "dtype \<Rightarrow> field list \<Rightarrow> string \<Rightarrow> wire_error + nat" where
  "child t fs name =
     (case GetFieldIndex fs name of
        None \<Rightarrow> Inl (NoField name)
      | Some i \<Rightarrow> if field_type (fs ! i) = t then Inr i else Inl (WrongType name))"

text \<open>
  One entry: the named children get their values; a child that gets none leaves the Arrow
  builder with columns of different lengths.
\<close>

definition entry_cell :: "field list \<Rightarrow> (string \<times> cell) list \<Rightarrow> wire_error + cell" where
  "entry_cell fs vals =
     bindE (mapE (\<lambda>f. case map_of vals (field_name f) of Some c \<Rightarrow> Inr c | None \<Rightarrow> Inl Undefined) fs)
       (\<lambda>cs. Inr (VStruct cs))"

definition set_entries ::
    "(string \<times> dtype) list \<Rightarrow> string \<Rightarrow> (string \<times> cell) list list \<Rightarrow> result_builder \<Rightarrow> wire_error + result_builder" where
  "set_entries children name rows b =
     bindE (field_index b name) (\<lambda>i.
     case field_type (schema b ! i) of
       TList f \<Rightarrow>
         (case field_type f of
            TStruct fs \<Rightarrow>
              bindE (mapE (\<lambda>(c, t). child t fs c) children) (\<lambda>_.
              bindE (mapE (entry_cell fs) rows) (\<lambda>cs.
              Inr (put_array i (one (TList f) (VList cs)) b)))
          | _ \<Rightarrow> Inl (NotStructs name))
     | _ \<Rightarrow> Inl (NotAList name))"

definition text_or_null :: "bytes \<Rightarrow> cell" where
  "text_or_null s = (if s = '''' then Null else VText s)"

definition opt_text :: "bytes option \<Rightarrow> cell" where
  "opt_text s = (case s of None \<Rightarrow> Null | Some v \<Rightarrow> VText v)"

definition set_secret_lookups ::
    "string \<Rightarrow> (bytes \<times> bytes \<times> bytes) list \<Rightarrow> result_builder \<Rightarrow> wire_error + result_builder" where
  "set_secret_lookups name lookups =
     set_entries [(''secret_type'', TString), (''scope'', TString), (''secret_name'', TString)] name
       (map (\<lambda>(t, s, n). [(''secret_type'', VText t), (''scope'', text_or_null s), (''secret_name'', text_or_null n)])
         lookups)"

definition set_examples ::
    "string \<Rightarrow> (bytes \<times> bytes \<times> bytes option) list \<Rightarrow> result_builder \<Rightarrow> wire_error + result_builder" where
  "set_examples name examples =
     set_entries [(''sql'', TString), (''description'', TString), (''expected_output'', TString)] name
       (map (\<lambda>(s, d, e). [(''sql'', VText s), (''description'', VText d), (''expected_output'', opt_text e)])
         examples)"

definition set_filter_identities ::
    "string \<Rightarrow> (bytes \<times> bytes \<times> int) list \<Rightarrow> result_builder \<Rightarrow> wire_error + result_builder" where
  "set_filter_identities name ids =
     set_entries [(''namespace'', TString), (''name'', TString), (''version'', TUInt64)] name
       (map (\<lambda>(ns, n, v). [(''namespace'', VText ns), (''name'', VText n), (''version'', VInt v)]) ids)"

definition set_evaluation_contexts ::
    "string \<Rightarrow> (bytes \<times> bytes option) list \<Rightarrow> result_builder \<Rightarrow> wire_error + result_builder" where
  "set_evaluation_contexts name ctxs =
     set_entries [(''profile'', TString), (''provider_fingerprint'', TString)] name
       (map (\<lambda>(p, f). [(''profile'', VText p), (''provider_fingerprint'', opt_text f)]) ctxs)"

subsection \<open>Defaults and completion\<close>

definition default_field ::
    "(dtype \<Rightarrow> arr) \<Rightarrow> nat \<Rightarrow> result_builder \<Rightarrow> wire_error + result_builder" where
  "default_field empty_value i b =
     (let f = schema b ! i; name = field_name f in
      if nullable f then set_null name b
      else case field_type f of
          TString \<Rightarrow> set_string name '''' b
        | TBinary \<Rightarrow> set_binary name '''' b
        | TBool \<Rightarrow> set_bool name False b
        | TInt64 \<Rightarrow> set_int64 name 0 b
        | TMap k v \<Rightarrow> set_string_map name [] b
        | TList g \<Rightarrow> Inr (put_array i (one (TList g) (VList [])) b)
        | t \<Rightarrow> Inr (put_array i (empty_value t) b))"

fun fill_from :: "(dtype \<Rightarrow> arr) \<Rightarrow> nat list \<Rightarrow> result_builder \<Rightarrow> wire_error + result_builder" where
  "fill_from ev [] b = Inr b"
| "fill_from ev (i # is) b =
     (if arrays b ! i \<noteq> None then fill_from ev is b
      else bindE (default_field ev i b) (fill_from ev is))"

definition fill_defaults :: "(dtype \<Rightarrow> arr) \<Rightarrow> result_builder \<Rightarrow> wire_error + result_builder" where
  "fill_defaults ev b = fill_from ev [0..<length (schema b)] b"

text \<open>The walk down the declared types; a value of another shape than declared is read as if it had it.\<close>

lemma zip_field_size: "(f, x) \<in> set (zip fs cs) \<Longrightarrow> size f < Suc (size_list size fs)"
  using size_list_estimation' [of f fs "size f" size] by (auto dest: set_zip_leftD simp: less_Suc_eq_le)

function check_null_at :: "field \<Rightarrow> cell \<Rightarrow> string \<Rightarrow> wire_error + unit" where
  "check_null_at (Field n t nb) c path =
     (if c = Null then (if nb then Inr () else Inl (NullInNonNullable path))
      else case t of
          TList f \<Rightarrow> (case c of
              VList cs \<Rightarrow> bindE (mapE (\<lambda>x. check_null_at f x (path @ ''.item'')) cs) (\<lambda>_. Inr ())
            | _ \<Rightarrow> Inl Undefined)
        | TLargeList f \<Rightarrow> (case c of
              VList cs \<Rightarrow> bindE (mapE (\<lambda>x. check_null_at f x (path @ ''.item'')) cs) (\<lambda>_. Inr ())
            | _ \<Rightarrow> Inl Undefined)
        | TMap k v \<Rightarrow> (case c of
              VMap es \<Rightarrow> bindE (mapE (\<lambda>(x, y).
                  bindE (check_null_at k x (path @ ''.key'')) (\<lambda>_. check_null_at v y (path @ ''.value''))) es)
                (\<lambda>_. Inr ())
            | _ \<Rightarrow> Inl Undefined)
        | TStruct fs \<Rightarrow> (case c of
              VStruct cs \<Rightarrow>
                if length cs < length fs then Inl Undefined
                else bindE (mapE (\<lambda>(f, x). check_null_at f x (path @ ''.'' @ field_name f)) (zip fs cs))
                  (\<lambda>_. Inr ())
            | _ \<Rightarrow> Inl Undefined)
        | _ \<Rightarrow> Inr ())"
  by pat_completeness auto
termination
  by (relation "measure (\<lambda>(f, c, p). size f)") (auto dest: zip_field_size)

declare check_null_at.simps [simp del]

definition check_nulls :: "field \<Rightarrow> arr \<Rightarrow> wire_error + unit" where
  "check_nulls f a = bindE (mapE (\<lambda>c. check_null_at f c (field_name f)) (arr_cells a)) (\<lambda>_. Inr ())"

fun finish_from :: "field list \<Rightarrow> arr option list \<Rightarrow> wire_error + arr list" where
  "finish_from (f # fs) (a # as) =
     (case a of
        None \<Rightarrow> Inl (NeverSet (field_name f))
      | Some x \<Rightarrow> bindE (check_nulls f x) (\<lambda>_. bindE (finish_from fs as) (\<lambda>xs. Inr (x # xs))))"
| "finish_from _ _ = Inr []"

definition finish :: "result_builder \<Rightarrow> wire_error + batch" where
  "finish b = bindE (finish_from (schema b) (arrays b)) (\<lambda>xs.
     Inr \<lparr>columns = zip (schema b) xs, num_rows = 1\<rparr>)"

end
