(* ===== verification/Wire_Properties.thy ===== *)
theory Wire_Properties
  imports Wire_Result
begin

section \<open>What the wire layer guarantees\<close>

text \<open>
  A value that was set is read back by the accessor of its kind; a finished row has a value for
  every field and no null where the schema, at any depth, declares none; defaults complete any
  schema with unique names; the accessors never read outside a one-row batch.
\<close>

subsection \<open>Columns of a finished row\<close>

definition wf_builder :: "result_builder \<Rightarrow> bool" where
  "wf_builder b \<longleftrightarrow> length (arrays b) = length (schema b)"

lemma wf_ResultBuilder [simp]: "wf_builder (ResultBuilder fs)"
  by (simp add: wf_builder_def ResultBuilder_def)

lemma put_array_simps [simp]:
  "schema (put_array i a b) = schema b" "arrays (put_array i a b) = (arrays b)[i := Some a]"
  "wf_builder (put_array i a b) = wf_builder b"
  by (simp_all add: put_array_def wf_builder_def)

lemma finish_from_Inr:
  "length fs = length as \<Longrightarrow> finish_from fs as = Inr xs \<longleftrightarrow>
     as = map Some xs \<and> (\<forall>(f, x) \<in> set (zip fs xs). check_nulls f x = Inr ())"
  by (induction fs as arbitrary: xs rule: list_induct2) (auto split: option.splits)

lemma finish_Inr:
  assumes "wf_builder b" "finish b = Inr r"
  shows "\<exists>xs. r = \<lparr>columns = zip (schema b) xs, num_rows = 1\<rparr> \<and> arrays b = map Some xs \<and>
    (\<forall>(f, x) \<in> set (zip (schema b) xs). check_nulls f x = Inr ())"
  using assms by (auto simp: finish_def wf_builder_def finish_from_Inr)

lemma filter_zip_index:
  assumes "length xs = length fs"
  shows "filter (\<lambda>(f, a). field_name f = name) (zip fs xs) =
    map (\<lambda>i. (fs ! i, xs ! i)) (filter (\<lambda>i. field_name (fs ! i) = name) [0..<length fs])"
proof -
  have "zip fs xs = map (\<lambda>i. (fs ! i, xs ! i)) [0..<length fs]"
    using assms by (intro nth_equalityI) auto
  then show ?thesis by (simp add: filter_map comp_def)
qed

lemma field_index_Inr: "field_index b name = Inr i \<longleftrightarrow> GetFieldIndex (schema b) name = Some i"
  by (auto simp: field_index_def split: option.splits)

lemma GetFieldIndex_iff:
  "GetFieldIndex fs name = Some i \<longleftrightarrow> filter (\<lambda>i. field_name (fs ! i) = name) [0..<length fs] = [i]"
  by (auto simp: GetFieldIndex_def split: list.splits)

lemma GetFieldIndex_less: "GetFieldIndex fs name = Some i \<Longrightarrow> i < length fs \<and> field_name (fs ! i) = name"
proof -
  assume "GetFieldIndex fs name = Some i"
  then have "i \<in> set (filter (\<lambda>i. field_name (fs ! i) = name) [0..<length fs])"
    unfolding GetFieldIndex_iff by simp
  then show ?thesis by simp
qed

lemma GetColumnByName_index:
  assumes "length xs = length fs" "columns r = zip fs xs"
  shows "GetColumnByName r name = map_option (nth xs) (GetFieldIndex fs name)"
  unfolding GetColumnByName_def GetFieldIndex_def assms(2) filter_zip_index [OF assms(1)]
  by (auto split: list.splits)

text \<open>The column of a finished row is the array that was put there.\<close>

lemma finish_column:
  assumes "wf_builder b" "finish b = Inr r" "GetFieldIndex (schema b) name = Some i"
  shows "GetColumnByName r name = arrays b ! i"
proof -
  obtain xs where xs: "r = \<lparr>columns = zip (schema b) xs, num_rows = 1\<rparr>" "arrays b = map Some xs"
    using finish_Inr [OF assms(1,2)] by blast
  then have len: "length xs = length (schema b)" using assms(1) by (simp add: wf_builder_def)
  with GetColumnByName_index [of xs "schema b" r name] xs assms(3) GetFieldIndex_less [OF assms(3)]
  show ?thesis by simp
qed

lemma set_plain_Inr:
  "set_plain a name b = Inr b' \<longleftrightarrow> (\<exists>i. GetFieldIndex (schema b) name = Some i \<and> b' = put_array i a b)"
  by (auto simp: set_plain_def field_index_Inr)


subsection \<open>Set, finish, read\<close>

text \<open>The setters that have an accessor of their own, and what the accessor must return.\<close>

datatype setting =
    PutString bytes | PutBinary bytes | PutBool bool | PutInt64 int | PutEnum bytes
  | PutOptionalString "bytes option" | PutStrings "bytes list" | PutBinaries "bytes list" | PutInt64s "int list"

fun put :: "setting \<Rightarrow> string \<Rightarrow> result_builder \<Rightarrow> wire_error + result_builder" where
  "put (PutString v) name = set_string name v"
| "put (PutBinary v) name = set_binary name v"
| "put (PutBool v) name = set_bool name v"
| "put (PutInt64 v) name = set_int64 name v"
| "put (PutEnum v) name = set_enum name v"
| "put (PutOptionalString v) name = set_optional_string name v"
| "put (PutStrings v) name = set_string_list name v"
| "put (PutBinaries v) name = set_binary_list name v"
| "put (PutInt64s v) name = set_int64_list name v"

fun reads :: "setting \<Rightarrow> string \<Rightarrow> batch \<Rightarrow> bool" where
  "reads (PutString v) name r \<longleftrightarrow>
     get_string (Some r) name = Inr v \<and> get_optional_string (Some r) name = Inr (Some v)"
| "reads (PutBinary v) name r \<longleftrightarrow> get_optional_binary (Some r) name = Inr (Some v)"
| "reads (PutBool v) name r \<longleftrightarrow>
     get_bool (Some r) name = Inr v \<and> get_optional_bool (Some r) name = Inr (Some v)"
| "reads (PutInt64 v) name r \<longleftrightarrow>
     get_int64 (Some r) name = Inr v \<and> get_optional_int64 (Some r) name = Inr (Some v)"
| "reads (PutEnum v) name r \<longleftrightarrow>
     get_enum (Some r) name = Inr v \<and> get_optional_enum (Some r) name = Inr (Some v)"
| "reads (PutOptionalString v) name r \<longleftrightarrow> get_optional_string (Some r) name = Inr v"
| "reads (PutStrings v) name r \<longleftrightarrow> get_string_list (Some r) name = Inr v \<and>
     get_optional_string_list (Some r) name = Inr (Some (map Some v))"
| "reads (PutBinaries v) name r \<longleftrightarrow> get_binary_list (Some r) name = Inr v"
| "reads (PutInt64s v) name r \<longleftrightarrow> get_int64_list (Some r) name = Inr v"

fun declared :: "setting \<Rightarrow> dtype \<Rightarrow> bool" where
  "declared (PutOptionalString v) t \<longleftrightarrow> t = TString"
| "declared _ t \<longleftrightarrow> True"

lemmas read_defs = get_string_def get_optional_string_def get_bool_def get_optional_bool_def
  get_int64_def get_optional_int64_def get_enum_def get_optional_enum_def get_string_list_def
  get_optional_string_list_def get_binary_list_def get_int64_list_def get_optional_binary_def
  required_def optional_def typed_column_def column_def has_column_def list_column_def at0_def
  enum_value_def string_items_def

lemma string_items_VText: "mapE (\<lambda>c. if c = Null then Inl e else Inr (text_of c)) (map VText vs) = Inr vs"
  by (induction vs) auto

lemma filter_text [simp]: "map text_of (filter (\<lambda>c. c \<noteq> Null) (map VText vs)) = vs"
  by (induction vs) auto

lemma filter_int [simp]: "map int_of (filter (\<lambda>c. c \<noteq> Null) (map VInt vs)) = vs"
  by (induction vs) auto

fun setting_arr :: "setting \<Rightarrow> dtype \<Rightarrow> arr" where
  "setting_arr (PutString v) t = one TString (VText v)"
| "setting_arr (PutBinary v) t =
     (if is_dict t then \<lparr>arr_type = t, arr_cells = [VIndex 0], arr_dictionary = [VText v]\<rparr>
      else one TBinary (VText v))"
| "setting_arr (PutBool v) t = one TBool (VBool v)"
| "setting_arr (PutInt64 v) t = one TInt64 (VInt v)"
| "setting_arr (PutEnum v) t = \<lparr>arr_type = t, arr_cells = [VIndex 0], arr_dictionary = [VText v]\<rparr>"
| "setting_arr (PutOptionalString v) t =
     (case v of None \<Rightarrow> one t Null | Some s \<Rightarrow> one TString (VText s))"
| "setting_arr (PutStrings v) t = one (TList (item_field TString)) (VList (map VText v))"
| "setting_arr (PutBinaries v) t =
     one (TList (item_field (if list_values t = Some TLargeBinary then TLargeBinary else TBinary)))
       (VList (map VText v))"
| "setting_arr (PutInt64s v) t = one (TList (item_field TInt64)) (VList (map VInt v))"

fun accepted :: "setting \<Rightarrow> dtype \<Rightarrow> bool" where
  "accepted (PutBinary v) t \<longleftrightarrow> (is_dict t \<longrightarrow> t = TDict TInt32 TBinary)"
| "accepted (PutEnum v) t \<longleftrightarrow> t = TDict TInt16 TString"
| "accepted _ t \<longleftrightarrow> True"

lemma put_Inr:
  assumes "put s name b = Inr b'"
  shows "\<exists>i. GetFieldIndex (schema b) name = Some i \<and> accepted s (field_type (schema b ! i)) \<and>
    b' = put_array i (setting_arr s (field_type (schema b ! i))) b"
proof (cases s)
  case (PutOptionalString v)
  with assms show ?thesis
    by (cases v) (auto simp: set_optional_string_def set_string_def set_null_def set_plain_Inr field_index_Inr)
next
  case (PutBinaries v)
  with assms obtain i where i: "GetFieldIndex (schema b) name = Some i" "(case field_type (schema b ! i) of
      TList f \<Rightarrow> (let t = (if field_type f = TLargeBinary then TLargeBinary else TBinary)
        in Inr (put_array i (one (TList (item_field t)) (VList (map VText v))) b))
    | _ \<Rightarrow> Inl Undefined) = Inr b'"
    by (auto simp: set_binary_list_def field_index_Inr)
  then show ?thesis using PutBinaries by (cases "field_type (schema b ! i)") (auto simp: Let_def)
qed (use assms in \<open>auto simp: set_string_def set_bool_def set_int64_def set_int64_list_def
    set_string_list_def set_plain_Inr set_binary_def set_enum_def field_index_Inr Let_def split: if_splits\<close>)

lemma setting_arr_reads:
  assumes "GetColumnByName r name = Some (setting_arr s t)" "accepted s t" "declared s t"
  shows "reads s name r"
proof (cases s)
  case (PutOptionalString v)
  with assms show ?thesis by (cases v) (simp_all add: read_defs)
next
  case (PutStrings vs)
  with assms show ?thesis by (simp add: read_defs string_items_VText)
qed (use assms in \<open>auto simp: read_defs comp_def split: if_splits\<close>)

text \<open>
  C9: What is set is what is read. Whatever other fields a result has, once a value was set with
  one of the typed setters and the row is finished, the accessor of that kind reads exactly
  that value from it: strings, binary (plain or dictionary encoded), booleans, integers, enums,
  optional strings (null included) and lists, in the order they were given.
\<close>

theorem set_finish_get:
  assumes "wf_builder b" "put s name b = Inr b'" "finish b' = Inr r"
    and "\<forall>i. GetFieldIndex (schema b) name = Some i \<longrightarrow> declared s (field_type (schema b ! i))"
  shows "reads s name r"
proof -
  obtain i where i: "GetFieldIndex (schema b) name = Some i" "accepted s (field_type (schema b ! i))"
    "b' = put_array i (setting_arr s (field_type (schema b ! i))) b"
    using put_Inr [OF assms(2)] by blast
  then have "GetColumnByName r name = Some (setting_arr s (field_type (schema b ! i)))"
    using finish_column [of b' r name i] assms(1,3) GetFieldIndex_less [OF i(1)]
    by (simp add: wf_builder_def)
  then show ?thesis using setting_arr_reads i assms(4) by blast
qed

definition demo_schema :: "field list" where
  "demo_schema = [Field ''k'' (TDict TInt16 TString) False]"

theorem set_finish_get_witness:
  "\<exists>r. bindE (put (PutEnum ''v'') ''k'' (ResultBuilder demo_schema)) finish = Inr r \<and>
     get_enum (Some r) ''k'' = Inr ''v''"
proof -
  let ?b = "ResultBuilder demo_schema"
  let ?b' = "put_array 0 \<lparr>arr_type = TDict TInt16 TString, arr_cells = [VIndex 0], arr_dictionary = [VText ''v'']\<rparr> ?b"
  have put: "put (PutEnum ''v'') ''k'' ?b = Inr ?b'"
    by (simp add: set_enum_def field_index_def GetFieldIndex_def ResultBuilder_def demo_schema_def Let_def)
  have fin: "finish ?b' = Inr \<lparr>columns = [(Field ''k'' (TDict TInt16 TString) False,
      \<lparr>arr_type = TDict TInt16 TString, arr_cells = [VIndex 0], arr_dictionary = [VText ''v'']\<rparr>)], num_rows = 1\<rparr>"
    by (simp add: finish_def ResultBuilder_def demo_schema_def put_array_def check_nulls_def check_null_at.simps)
  have "wf_builder ?b" by simp
  from set_finish_get [OF this put fin] have
    "reads (PutEnum ''v'') ''k'' \<lparr>columns = [(Field ''k'' (TDict TInt16 TString) False,
      \<lparr>arr_type = TDict TInt16 TString, arr_cells = [VIndex 0], arr_dictionary = [VText ''v'']\<rparr>)], num_rows = 1\<rparr>"
    by simp
  with put fin show ?thesis by auto
qed


subsection \<open>No null where the schema declares none\<close>

text \<open>A value fits a declared field: no null below a non-nullable field, at any depth.\<close>

inductive fits :: "field \<Rightarrow> cell \<Rightarrow> bool" where
  null: "nullable f \<Longrightarrow> fits f Null"
| list: "field_type f = TList g \<or> field_type f = TLargeList g \<Longrightarrow> (\<And>c. c \<in> set cs \<Longrightarrow> fits g c) \<Longrightarrow>
    fits f (VList cs)"
| map: "field_type f = TMap k v \<Longrightarrow> (\<And>x y. (x, y) \<in> set es \<Longrightarrow> fits k x \<and> fits v y) \<Longrightarrow>
    fits f (VMap es)"
| struct: "field_type f = TStruct fs \<Longrightarrow> length fs \<le> length cs \<Longrightarrow>
    (\<And>g c. (g, c) \<in> set (zip fs cs) \<Longrightarrow> fits g c) \<Longrightarrow> fits f (VStruct cs)"
| leaf: "c \<noteq> Null \<Longrightarrow> list_values (field_type f) = None \<Longrightarrow> \<not> is_struct (field_type f) \<Longrightarrow>
    \<nexists>g. field_type f = TLargeList g \<Longrightarrow> fits f c"

inductive_simps fits_field: "fits (Field n t nb) c"

lemma mapE_unit:
  fixes f :: "'a \<Rightarrow> 'e + unit"
  shows "(\<exists>ys. mapE f xs = Inr ys) \<longleftrightarrow> (\<forall>x \<in> set xs. f x = Inr ())"
  by (induction xs) auto

lemma check_null_at_iff: "check_null_at f c path = Inr () \<longleftrightarrow> fits f c"
proof (induction f c path rule: check_null_at.induct)
  case (1 n t nb c path)
  show ?case
  proof (cases "c = Null")
    case True
    then show ?thesis by (auto simp: check_null_at.simps fits_field)
  next
    case False
    show ?thesis
    proof (cases t)
      case (TList g)
      with False 1(1) show ?thesis by (cases c) (auto simp: check_null_at.simps fits_field mapE_unit)
    next
      case (TLargeList g)
      with False 1(2) show ?thesis by (cases c) (auto simp: check_null_at.simps fits_field mapE_unit)
    next
      case (TMap k v)
      with False 1(3,4) show ?thesis
        by (cases c) (auto simp: check_null_at.simps fits_field mapE_unit split_beta)
    next
      case (TStruct fs)
      with False 1(5) show ?thesis
        by (cases c) (auto simp: check_null_at.simps fits_field mapE_unit split_beta)
    qed (use False in \<open>auto simp: check_null_at.simps fits_field\<close>)
  qed
qed


lemma check_nulls_iff: "check_nulls f a = Inr () \<longleftrightarrow> (\<forall>c \<in> set (arr_cells a). fits f c)"
  by (auto simp: check_nulls_def mapE_unit check_null_at_iff)

text \<open>
  A finished row is complete. \<^verbatim>\<open>finish\<close> returns exactly when every field has been set and no
  value holds a null where its field, or a list item, map key, map value or struct child below
  it, is declared non-nullable; the batch then carries the arrays under the schema's fields.
\<close>

theorem finish_iff:
  assumes "wf_builder b"
  shows "finish b = Inr r \<longleftrightarrow>
    (\<exists>xs. arrays b = map Some xs \<and> r = \<lparr>columns = zip (schema b) xs, num_rows = 1\<rparr> \<and>
       (\<forall>(f, x) \<in> set (zip (schema b) xs). \<forall>c \<in> set (arr_cells x). fits f c))"
  using assms by (auto simp: finish_def wf_builder_def finish_from_Inr check_nulls_iff)

theorem finish_iff_witness:
  "(\<nexists>r. finish (ResultBuilder [Field ''k'' TString False]) = Inr r) \<and>
   (\<nexists>r. finish (put_array 0 (one (TList (Field ''item'' TString False)) (VList [Null]))
     (ResultBuilder [Field ''k'' (TList (Field ''item'' TString False)) False])) = Inr r)"
proof -
  have "wf_builder (ResultBuilder [Field ''k'' TString False])"
    "wf_builder (put_array 0 (one (TList (Field ''item'' TString False)) (VList [Null]))
      (ResultBuilder [Field ''k'' (TList (Field ''item'' TString False)) False]))" by simp_all
  from this [THEN finish_iff] show ?thesis
    by (auto simp: ResultBuilder_def put_array_def fits_field)
qed

subsection \<open>Defaults\<close>

text \<open>What \<^verbatim>\<open>AppendEmptyValue\<close> gives: one value of the type, which fits a non-nullable field.\<close>

definition empty_value_laws :: "(dtype \<Rightarrow> arr) \<Rightarrow> bool" where
  "empty_value_laws ev \<longleftrightarrow>
     (\<forall>t. arr_type (ev t) = t \<and> length (arr_cells (ev t)) = 1 \<and> (\<forall>n. \<forall>c \<in> set (arr_cells (ev t)). fits (Field n t False) c))"

lemma unique_index:
  assumes "distinct (map field_name fs)" "i < length fs"
  shows "GetFieldIndex fs (field_name (fs ! i)) = Some i"
proof -
  have eq: "field_name (fs ! j) = field_name (fs ! i) \<longleftrightarrow> j = i" if "j < length fs" for j
    using assms that by (metis distinct_conv_nth length_map nth_map)
  have "filter (\<lambda>j. field_name (fs ! j) = field_name (fs ! i)) [0..<length fs] = filter (\<lambda>j. j = i) [0..<length fs]"
    by (rule filter_cong) (auto simp: eq)
  also have "\<dots> = [i]"
    using assms(2) by (induction fs rule: rev_induct) (auto simp: less_Suc_eq)
  finally show ?thesis by (simp add: GetFieldIndex_iff)
qed

text \<open>The default of one field: it fits, and it is the only array that changes.\<close>

definition default_arr :: "(dtype \<Rightarrow> arr) \<Rightarrow> field \<Rightarrow> arr" where
  "default_arr ev f =
     (if nullable f then one (field_type f) Null
      else case field_type f of
          TString \<Rightarrow> one TString (VText []) | TBinary \<Rightarrow> one TBinary (VText []) | TBool \<Rightarrow> one TBool (VBool False)
        | TInt64 \<Rightarrow> one TInt64 (VInt 0) | TMap k v \<Rightarrow> one (map_type TString) (VMap [])
        | TList g \<Rightarrow> one (TList g) (VList []) | t \<Rightarrow> ev t)"

lemma default_arr_fits:
  assumes "empty_value_laws ev" "c \<in> set (arr_cells (default_arr ev f))"
  shows "fits f c"
proof -
  obtain n t nb where f: "f = Field n t nb" by (cases f)
  have ev: "\<forall>c \<in> set (arr_cells (ev t)). fits (Field n t False) c"
    using assms(1) by (simp add: empty_value_laws_def)
  then show ?thesis
  proof (cases "\<not> nb \<and> default_arr ev f = ev t")
    case True
    with ev assms(2) f show ?thesis by auto
  next
    case False
    with f assms(2) show ?thesis
      by (cases nb; cases t) (auto simp: default_arr_def fits_field)
  qed
qed

lemma default_field_ok:
  assumes "distinct (map field_name (schema b))" "i < length (schema b)"
  shows "default_field ev i b = Inr (put_array i (default_arr ev (schema b ! i)) b)"
proof -
  obtain n t nb where f: "schema b ! i = Field n t nb" by (cases "schema b ! i")
  with assms have idx: "GetFieldIndex (schema b) n = Some i" using unique_index by fastforce
  show ?thesis
  proof (cases nb)
    case True
    with f idx show ?thesis by (simp add: default_field_def default_arr_def Let_def set_null_def field_index_def)
  next
    case False
    with f idx show ?thesis
      by (cases t) (simp_all add: default_field_def default_arr_def Let_def set_string_def set_bool_def set_int64_def
          set_string_map_def set_binary_def set_plain_def field_index_def)
  qed
qed

lemma fill_from_ok:
  assumes "wf_builder b" "distinct (map field_name (schema b))" "\<forall>i \<in> set is. i < length (schema b)"
    "empty_value_laws ev"
  shows "\<exists>b'. fill_from ev is b = Inr b' \<and> schema b' = schema b \<and> wf_builder b' \<and>
    (\<forall>j < length (schema b). arrays b ! j \<noteq> None \<longrightarrow> arrays b' ! j = arrays b ! j) \<and>
    (\<forall>j < length (schema b). arrays b ! j = None \<longrightarrow> j \<in> set is \<longrightarrow>
       (\<exists>a. arrays b' ! j = Some a \<and> (\<forall>c \<in> set (arr_cells a). fits (schema b ! j) c)))"
  using assms
proof (induction "is" arbitrary: b)
  case (Cons i "is")
  show ?case
  proof (cases "arrays b ! i")
    case None
    obtain a where a: "default_field ev i b = Inr (put_array i a b)" "\<forall>c \<in> set (arr_cells a). fits (schema b ! i) c"
      using default_field_ok [of b i ev] default_arr_fits [OF Cons.prems(4)] Cons.prems(2,3) by auto
    have i: "i < length (arrays b)" using Cons.prems by (simp add: wf_builder_def)
    obtain b' where b': "fill_from ev is (put_array i a b) = Inr b'" "schema b' = schema b" "wf_builder b'"
      "\<forall>j < length (schema b). arrays (put_array i a b) ! j \<noteq> None \<longrightarrow> arrays b' ! j = arrays (put_array i a b) ! j"
      "\<forall>j < length (schema b). arrays (put_array i a b) ! j = None \<longrightarrow> j \<in> set is \<longrightarrow>
         (\<exists>a. arrays b' ! j = Some a \<and> (\<forall>c \<in> set (arr_cells a). fits (schema b ! j) c))"
      using Cons.IH [of "put_array i a b"] Cons.prems by auto
    have old: "arrays b' ! j = arrays b ! j" if "j < length (schema b)" "arrays b ! j \<noteq> None" for j
      using b'(4) that None i by (cases "j = i") auto
    have new: "\<exists>a. arrays b' ! j = Some a \<and> (\<forall>c \<in> set (arr_cells a). fits (schema b ! j) c)"
      if "j < length (schema b)" "arrays b ! j = None" "j \<in> set (i # is)" for j
    proof (cases "j = i")
      case True
      with b'(4) i a(2) that show ?thesis by auto
    next
      case False
      with b'(5) that show ?thesis by auto
    qed
    show ?thesis using a(1) b'(1-3) None old new by (intro exI [of _ b']) auto
  next
    case (Some x)
    have "\<forall>k \<in> set is. k < length (schema b)" using Cons.prems(3) by simp
    from Cons.IH [OF Cons.prems(1,2) this Cons.prems(4)] obtain b' where b': "fill_from ev is b = Inr b'"
      "schema b' = schema b" "wf_builder b'"
      "\<forall>j < length (schema b). arrays b ! j \<noteq> None \<longrightarrow> arrays b' ! j = arrays b ! j"
      "\<forall>j < length (schema b). arrays b ! j = None \<longrightarrow> j \<in> set is \<longrightarrow>
         (\<exists>a. arrays b' ! j = Some a \<and> (\<forall>c \<in> set (arr_cells a). fits (schema b ! j) c))" by blast
    have "j \<in> set is" if "j \<in> set (i # is)" "arrays b ! j = None" for j using that Some by auto
    then show ?thesis using b' Some by (intro exI [of _ b']) auto
  qed
qed simp

text \<open>
  Defaults always complete a row. For a schema with unique field names, \<^verbatim>\<open>fill_defaults\<close> never
  throws, leaves every value that was set as it is, gives every other field a value its
  declaration allows, and if the values that were set fit their fields \<^verbatim>\<open>finish\<close> returns the row.
\<close>

theorem fill_defaults_finish:
  assumes "wf_builder b" "distinct (map field_name (schema b))" "empty_value_laws ev"
    and "\<forall>i < length (schema b). \<forall>a. arrays b ! i = Some a \<longrightarrow> (\<forall>c \<in> set (arr_cells a). fits (schema b ! i) c)"
  shows "\<exists>b' r. fill_defaults ev b = Inr b' \<and> finish b' = Inr r \<and>
    (\<forall>i < length (schema b). arrays b ! i \<noteq> None \<longrightarrow> arrays b' ! i = arrays b ! i)"
proof -
  obtain b' where b': "fill_defaults ev b = Inr b'" "schema b' = schema b" "wf_builder b'"
    "\<forall>j < length (schema b). arrays b ! j \<noteq> None \<longrightarrow> arrays b' ! j = arrays b ! j"
    "\<forall>j < length (schema b). arrays b ! j = None \<longrightarrow>
       (\<exists>a. arrays b' ! j = Some a \<and> (\<forall>c \<in> set (arr_cells a). fits (schema b ! j) c))"
    using fill_from_ok [OF assms(1,2) _ assms(3), of "[0..<length (schema b)]"] by (auto simp: fill_defaults_def)
  have all: "\<exists>a. arrays b' ! j = Some a \<and> (\<forall>c \<in> set (arr_cells a). fits (schema b ! j) c)"
    if "j < length (schema b)" for j
    using that b'(4,5) assms(4) by (cases "arrays b ! j") auto
  let ?xs = "map the (arrays b')"
  have len: "length (arrays b') = length (schema b)" using b'(2,3) by (simp add: wf_builder_def)
  have "arrays b' = map Some ?xs"
  proof (rule nth_equalityI)
    fix i assume "i < length (arrays b')"
    with all [of i] len show "arrays b' ! i = map Some ?xs ! i" by auto
  qed simp
  moreover have "\<forall>(f, x) \<in> set (zip (schema b') ?xs). check_nulls f x = Inr ()"
    using all len b'(2) by (fastforce simp: set_zip check_nulls_iff)
  ultimately have "finish_from (schema b') (arrays b') = Inr ?xs"
    using len b'(2) by (simp add: finish_from_Inr)
  then show ?thesis using b'(1,4) by (simp add: finish_def)
qed


function empty_cell :: "dtype \<Rightarrow> cell" where
  "empty_cell t = (case t of
      TStruct fs \<Rightarrow> VStruct (map (\<lambda>f. empty_cell (field_type f)) fs)
    | TMap k v \<Rightarrow> VMap [] | TList f \<Rightarrow> VList [] | TLargeList f \<Rightarrow> VList [] | _ \<Rightarrow> VInt 0)"
  by auto
termination
proof (relation "measure size", goal_cases)
  case (2 t fs f)
  have "size (field_type f) < size f" by (cases f) simp
  also have "size f \<le> size_list size fs" using 2 by (simp add: size_list_estimation')
  finally show ?case using 2 by simp
qed simp

declare empty_cell.simps [simp del]

lemma empty_cell_fits: "fits (Field n t nb) (empty_cell t)"
proof (induction t arbitrary: n nb rule: empty_cell.induct)
  case (1 t)
  show ?case
  proof (cases t)
    case (TStruct fs)
    have child: "fits f (empty_cell (field_type f))" if "f \<in> set fs" for f
      using 1 [OF TStruct that, of "field_name f" "nullable f"] by simp
    have "fits g c" if "(g, c) \<in> set (zip fs (map (\<lambda>f. empty_cell (field_type f)) fs))" for g c
      using that child by (auto simp: zip_map2 zip_same_conv_map)
    with TStruct show ?thesis
      by (subst empty_cell.simps) (auto intro!: fits.struct [where fs = fs])
  qed (subst empty_cell.simps, simp add: fits_field)+
qed

theorem fill_defaults_finish_witness:
  "\<exists>b' r. fill_defaults (\<lambda>t. one t (empty_cell t))
     (ResultBuilder [Field ''a'' TDouble False, Field ''b'' (TStruct [Field ''c'' TString False]) False]) = Inr b' \<and>
     finish b' = Inr r"
proof -
  let ?b = "ResultBuilder [Field ''a'' TDouble False, Field ''b'' (TStruct [Field ''c'' TString False]) False]"
  have "empty_value_laws (\<lambda>t. one t (empty_cell t))"
    by (simp add: empty_value_laws_def empty_cell_fits)
  moreover have "\<forall>i < length (schema ?b). \<forall>a. arrays ?b ! i = Some a \<longrightarrow> (\<forall>c \<in> set (arr_cells a). fits (schema ?b ! i) c)"
    by (auto simp: ResultBuilder_def less_Suc_eq)
  moreover have "distinct (map field_name (schema ?b))" by (simp add: ResultBuilder_def)
  ultimately show ?thesis using fill_defaults_finish [OF wf_ResultBuilder, of _ "\<lambda>t. one t (empty_cell t)"] by blast
qed

subsection \<open>Reading stays inside the batch\<close>

lemma column_cells:
  assumes "\<forall>(f, a) \<in> set (columns b). arr_cells a \<noteq> []" "GetColumnByName b k = Some a"
  shows "arr_cells a \<noteq> []"
proof -
  obtain f where "filter (\<lambda>(f, a). field_name f = k) (columns b) = [(f, a)]"
    using assms(2) by (auto simp: GetColumnByName_def split: list.splits prod.splits)
  then have "(f, a) \<in> set (filter (\<lambda>(f, a). field_name f = k) (columns b))" by simp
  then have "(f, a) \<in> set (columns b)" by simp
  with assms(1) show ?thesis by blast
qed

lemma at0_defined: "at0 a = Inl e \<longleftrightarrow> arr_cells a = [] \<and> e = Undefined"
  by (auto simp: at0_def split: list.splits)

lemma string_items_error: "string_items k cs = Inl e \<Longrightarrow> e = NullComponent k"
  unfolding string_items_def by (induction cs) (auto simp: bindE_eq_Inl split: if_splits)

definition defined_result :: "wire_error + 'a \<Rightarrow> bool" where
  "defined_result r \<longleftrightarrow> r \<noteq> Inl Undefined"

lemma defined_bind:
  "defined_result m \<Longrightarrow> (\<And>x. m = Inr x \<Longrightarrow> defined_result (g x)) \<Longrightarrow> defined_result (bindE m g)"
  by (cases m) (auto simp: defined_result_def)

lemma defined_simps [simp]:
  "defined_result (Inr x)" "defined_result (Inl e) \<longleftrightarrow> e \<noteq> Undefined"
  "defined_result (ensure c e) \<longleftrightarrow> c \<or> e \<noteq> Undefined"
  by (auto simp: defined_result_def ensure_def)

lemma defined_column: "defined_result (column (Some b) k)"
  by (simp add: column_def split: option.splits)

lemma defined_typed: "defined_result (typed_column p (Some b) k)"
  unfolding typed_column_def by (intro defined_bind) (auto simp: defined_column)

lemma defined_at0: "arr_cells a \<noteq> [] \<Longrightarrow> defined_result (at0 a)"
  by (auto simp: at0_def split: list.splits)

lemma typed_cells: "typed_column p (Some b) k = Inr a \<Longrightarrow> arr_cells a \<noteq> []"
  by (auto simp: typed_column_def)

lemma defined_required: "defined_result (required p g (Some b) k)"
  unfolding required_def by (intro defined_bind) (auto simp: defined_typed defined_at0 dest: typed_cells)

lemma defined_optional: "defined_result (optional p g (Some b) k)"
  unfolding optional_def by (auto intro!: defined_bind simp: defined_typed defined_at0 dest: typed_cells)

lemma defined_enum_value: "defined_result (enum_value k a c)"
  by (simp add: enum_value_def Let_def)

lemma defined_list_column: "defined_result (list_column (Some b) k)"
  unfolding list_column_def by (auto intro!: defined_bind simp: defined_column split: option.splits)

lemma defined_string_items: "defined_result (string_items k cs)"
  by (cases "string_items k cs") (auto dest: string_items_error)

lemma defined_get_string_list: "defined_result (get_string_list (Some b) k)"
  unfolding get_string_list_def
  by (auto intro!: defined_bind simp: defined_list_column defined_string_items split: option.splits)


definition bad_dictionary :: batch where
  "bad_dictionary = \<lparr>columns = [(Field ''k'' (TDict TInt16 TString) True,
     \<lparr>arr_type = TDict TInt16 TString, arr_cells = [VIndex 7], arr_dictionary = [VText ''v'']\<rparr>)], num_rows = 1\<rparr>"


text \<open>
  The wide and the dictionary branch of \<^verbatim>\<open>get_optional_binary\<close> do not check that the column has
  a row, which the narrow branch and every other accessor do: on a batch without rows the one
  reports an error and the other two read outside the array.
\<close>

theorem empty_wide_column_undefined:
  "get_optional_binary (Some \<lparr>columns = [(Field ''k'' TBinary True, \<lparr>arr_type = TBinary, arr_cells = [], arr_dictionary = []\<rparr>)],
     num_rows = 0\<rparr>) ''k'' = Inl (NoRows ''k'') \<and>
   get_optional_binary (Some \<lparr>columns = [(Field ''k'' TLargeBinary True, \<lparr>arr_type = TLargeBinary, arr_cells = [], arr_dictionary = []\<rparr>)],
     num_rows = 0\<rparr>) ''k'' = Inl Undefined \<and>
   get_optional_binary (Some \<lparr>columns = [(Field ''k'' (TDict TInt32 TBinary) True,
       \<lparr>arr_type = TDict TInt32 TBinary, arr_cells = [], arr_dictionary = []\<rparr>)], num_rows = 0\<rparr>) ''k'' = Inl Undefined"
  by (simp add: get_optional_binary_def has_column_def column_def GetColumnByName_def typed_column_def at0_def)

end
