(* ===== verification/Codec.thy ===== *)
theory Codec
  imports Prelude
begin

section \<open>Little-endian fields and strict UTF-8\<close>

text \<open>
  The byte-level helpers of \<^verbatim>\<open>src/src/attach_ticket.cpp\<close> and \<^verbatim>\<open>src/src/split_token.cpp\<close>: unsigned
  little-endian stores and loads written with the shifts and masks of the sources, their round
  trips, and the UTF-8 validator with its equivalence to the encoding it validates.
\<close>

subsection \<open>Stores and loads\<close>

text \<open>\<open>n\<close> bytes of \<open>v\<close>, lowest first: \<^verbatim>\<open>(v >> (8 * i)) & 0xFF\<close>.\<close>

definition le_bytes :: "nat \<Rightarrow> nat \<Rightarrow> bytes" where
  "le_bytes n v = map (\<lambda>i. char_of (drop_bit (8 * i) v AND 0xFF)) [0..<n]"

text \<open>The load loop: \<^verbatim>\<open>value |= byte << (8 * i)\<close>.\<close>

definition le_value :: "bytes \<Rightarrow> nat" where
  "le_value bs = foldl (\<lambda>v (i, c). v OR push_bit (8 * i) (code c)) 0 (enumerate 0 bs)"

definition put_i64 :: "64 word \<Rightarrow> bytes" where
  "put_i64 w = le_bytes 8 (unat w)"

lemma and_255: "v AND 0xFF = v mod (256 :: nat)"
  using take_bit_eq_mask [of 8 v] by (simp add: take_bit_eq_mod mask_eq_exp_minus_1)

lemma length_le_bytes [simp, codec_simps]: "length (le_bytes n v) = n"
  by (simp add: le_bytes_def)

lemma code_char_of: "n < 256 \<Longrightarrow> code (char_of n) = n"
  by (simp add: of_char_of)

lemma le_bytes_Suc: "le_bytes (Suc n) v = le_bytes n v @ [char_of (v div 2 ^ (8 * n) mod 256)]"
  by (simp add: le_bytes_def and_255 drop_bit_eq_div)

lemma le_value_snoc:
  "le_value (bs @ [c]) = le_value bs OR push_bit (8 * length bs) (code c)"
  by (simp add: le_value_def enumerate_append_eq)

lemma or_push_bit_add:
  assumes "a < 2 ^ n"
  shows "a OR push_bit n b = a + 2 ^ n * (b :: nat)"
proof -
  have "a = take_bit n a" using assms by (simp add: take_bit_nat_eq_self)
  then have "\<not> bit a k \<or> \<not> bit (push_bit n b) k" for k
    by (metis bit_push_bit_iff_nat bit_take_bit_iff leD)
  then have "a + push_bit n b = a OR push_bit n b" by (intro disjunctive_add) auto
  then show ?thesis by (simp add: push_bit_eq_mult mult.commute)
qed

lemma le_value_less: "le_value bs < 2 ^ (8 * length bs)"
proof (induction bs rule: rev_induct)
  case (snoc c bs)
  let ?m = "2 ^ (8 * length bs) :: nat"
  have "le_value bs + ?m * code c < ?m * (code c + 1)" using snoc by simp
  also have "code c + 1 \<le> 256" using code_less [of c] by linarith
  then have "?m * (code c + 1) \<le> ?m * 256" by (rule mult_le_mono2)
  finally show ?case using snoc by (simp add: le_value_snoc or_push_bit_add power_add mult.commute)
qed (simp add: le_value_def)

lemma le_value_snoc_add:
  "le_value (bs @ [c]) = le_value bs + 2 ^ (8 * length bs) * code c"
  by (simp add: le_value_snoc or_push_bit_add le_value_less)

lemma le_value_le_bytes [codec_simps]: "v < 2 ^ (8 * n) \<Longrightarrow> le_value (le_bytes n v) = v"
proof -
  have "le_value (le_bytes n v) = v mod 2 ^ (8 * n)"
  proof (induction n)
    case (Suc n)
    have "v mod 2 ^ (8 * Suc n) = 2 ^ (8 * n) * (v div 2 ^ (8 * n) mod 256) + v mod 2 ^ (8 * n)"
      using mod_mult2_eq [of v "2 ^ (8 * n)" 256] by (simp add: power_add mult.commute)
    then show ?case using Suc by (simp add: le_bytes_Suc le_value_snoc_add code_char_of)
  qed (simp add: le_value_def le_bytes_def)
  then show "v < 2 ^ (8 * n) \<Longrightarrow> ?thesis" by simp
qed

lemma le_bytes_le_value [codec_simps]: "le_bytes (length bs) (le_value bs) = bs"
proof -
  have "le_bytes (length bs) (le_value bs + 2 ^ (8 * length bs) * k) = bs" for k
  proof (induction bs arbitrary: k rule: rev_induct)
    case (snoc c bs)
    let ?m = "2 ^ (8 * length bs) :: nat"
    have split: "le_value (bs @ [c]) + 2 ^ (8 * length (bs @ [c])) * k = le_value bs + ?m * (code c + 256 * k)"
      by (simp add: le_value_snoc_add power_add algebra_simps)
    have "(le_value bs + ?m * (code c + 256 * k)) div ?m = code c + 256 * k"
      using le_value_less [of bs] by simp
    then have "(le_value bs + ?m * (code c + 256 * k)) div ?m mod 256 = code c"
      using code_less [of c] by simp
    moreover have "char_of (code c) = c" by simp
    moreover have "length (bs @ [c]) = Suc (length bs)" by simp
    ultimately show ?case unfolding split using snoc by (metis le_bytes_Suc)
  qed (simp add: le_bytes_def)
  from this [of 0] show ?thesis by simp
qed

lemma le_bytes_inject: "u < 2 ^ (8 * n) \<Longrightarrow> v < 2 ^ (8 * n) \<Longrightarrow> le_bytes n u = le_bytes n v \<longleftrightarrow> u = v"
  by (metis le_value_le_bytes)

lemma length_put_i64 [simp, codec_simps]: "length (put_i64 w) = 8"
  by (simp add: put_i64_def)

lemma put_i64_load [codec_simps]: "word_of_nat (le_value (put_i64 w)) = w"
proof -
  have "unat w < 2 ^ LENGTH(64)" by (rule unsigned_less)
  then show ?thesis by (simp add: put_i64_def le_value_le_bytes)
qed

lemma load_put_i64 [codec_simps]:
  assumes "length bs = 8"
  shows "put_i64 (word_of_nat (le_value bs)) = bs"
proof -
  have "le_value bs < 2 ^ 64" using le_value_less [of bs] assms by simp
  then have "unat (word_of_nat (le_value bs) :: 64 word) = le_value bs" by (simp add: unat_of_nat)
  then show ?thesis using le_bytes_le_value [of bs] assms by (simp add: put_i64_def)
qed


subsection \<open>Strict UTF-8\<close>

text \<open>The lead byte: how many continuation bytes follow, and the bits it contributes.\<close>

definition utf8_lead :: "nat \<Rightarrow> (nat \<times> nat) option" where
  "utf8_lead c =
     (if c AND 0xE0 = 0xC0 then Some (1, c AND 0x1F)
      else if c AND 0xF0 = 0xE0 then Some (2, c AND 0x0F)
      else if c AND 0xF8 = 0xF0 then Some (3, c AND 0x07)
      else None)"

definition utf8_continue :: "nat \<Rightarrow> bytes \<Rightarrow> nat" where
  "utf8_continue cp cs = foldl (\<lambda>cp cc. push_bit 6 cp OR (code cc AND 0x3F)) cp cs"

definition utf8_bad :: "nat \<Rightarrow> nat \<Rightarrow> bool" where
  "utf8_bad extra cp \<longleftrightarrow> extra = 1 \<and> cp < 0x80 \<or> extra = 2 \<and> cp < 0x800 \<or>
     extra = 3 \<and> cp < 0x10000 \<or> cp > 0x10FFFF \<or> cp \<ge> 0xD800 \<and> cp \<le> 0xDFFF"

function valid_utf8 :: "bytes \<Rightarrow> bool" where
  "valid_utf8 [] \<longleftrightarrow> True"
| "valid_utf8 (c # s) \<longleftrightarrow>
     (if code c < 0x80 then valid_utf8 s
      else case utf8_lead (code c) of
        None \<Rightarrow> False
      | Some (extra, cp) \<Rightarrow>
          if length s < extra then False
          else if \<exists>cc \<in> set (take extra s). code cc AND 0xC0 \<noteq> 0x80 then False
          else if utf8_bad extra (utf8_continue cp (take extra s)) then False
          else valid_utf8 (drop extra s))"
  by pat_completeness auto
termination
  by (relation "measure length") auto

declare valid_utf8.simps(2) [simp del]

lemma valid_utf8_ascii: "list_all (\<lambda>c. code c < 0x80) s \<Longrightarrow> valid_utf8 s"
  by (induction s) (simp_all add: valid_utf8.simps(2))

text \<open>The encoding itself, for the code points Unicode calls scalar values.\<close>

definition scalar_value :: "nat \<Rightarrow> bool" where
  "scalar_value cp \<longleftrightarrow> cp \<le> 0x10FFFF \<and> \<not> (0xD800 \<le> cp \<and> cp \<le> 0xDFFF)"

definition utf8_encode :: "nat \<Rightarrow> bytes" where
  "utf8_encode cp = map char_of
     (if cp < 0x80 then [cp]
      else if cp < 0x800 then [0xC0 + cp div 64, 0x80 + cp mod 64]
      else if cp < 0x10000 then [0xE0 + cp div 4096, 0x80 + cp div 64 mod 64, 0x80 + cp mod 64]
      else [0xF0 + cp div 262144, 0x80 + cp div 4096 mod 64, 0x80 + cp div 64 mod 64, 0x80 + cp mod 64])"

text \<open>The masks as ranges.\<close>

lemma and_low: "c AND (2 ^ n - 1) = c mod (2 ^ n :: nat)"
  by (metis mask_eq_exp_minus_1 take_bit_eq_mask take_bit_eq_mod)

lemma and_high:
  assumes "c < 2 ^ (a + b)"
  shows "c AND (2 ^ a * (2 ^ b - 1)) = 2 ^ a * (c div (2 ^ a :: nat))"
proof -
  have "c div 2 ^ a < 2 ^ b" using assms by (simp add: power_add less_mult_imp_div_less mult.commute)
  then have "drop_bit a c AND mask b = drop_bit a c"
    by (simp add: drop_bit_eq_div take_bit_nat_eq_self flip: take_bit_eq_mask)
  moreover have "c AND push_bit a (mask b) = push_bit a (drop_bit a c AND mask b)"
    by (rule bit_eqI) (auto simp: bit_and_iff bit_push_bit_iff bit_drop_bit_eq bit_mask_iff)
  ultimately have "c AND push_bit a (mask b) = push_bit a (drop_bit a c)" by simp
  then show ?thesis
    by (simp add: mask_eq_exp_minus_1 push_bit_eq_mult drop_bit_eq_div mult.commute)
qed

lemma lead_masks:
  assumes "c < 256"
  shows "c AND 0xE0 = 0xC0 \<longleftrightarrow> 0xC0 \<le> c \<and> c < (0xE0 :: nat)"
    "c AND 0xF0 = 0xE0 \<longleftrightarrow> 0xE0 \<le> c \<and> c < (0xF0 :: nat)"
    "c AND 0xF8 = 0xF0 \<longleftrightarrow> 0xF0 \<le> c \<and> c < (0xF8 :: nat)"
    "c AND 0xC0 = 0x80 \<longleftrightarrow> 0x80 \<le> c \<and> c < (0xC0 :: nat)"
proof -
  have "c AND 0xE0 = 32 * (c div 32)" "c AND 0xF0 = 16 * (c div 16)" "c AND 0xF8 = 8 * (c div 8)"
    "c AND 0xC0 = 64 * (c div 64)"
    using assms and_high [of c 5 3] and_high [of c 4 4] and_high [of c 3 5] and_high [of c 6 2] by simp_all
  then show "c AND 0xE0 = 0xC0 \<longleftrightarrow> 0xC0 \<le> c \<and> c < (0xE0 :: nat)"
    "c AND 0xF0 = 0xE0 \<longleftrightarrow> 0xE0 \<le> c \<and> c < (0xF0 :: nat)"
    "c AND 0xF8 = 0xF0 \<longleftrightarrow> 0xF0 \<le> c \<and> c < (0xF8 :: nat)"
    "c AND 0xC0 = 0x80 \<longleftrightarrow> 0x80 \<le> c \<and> c < (0xC0 :: nat)" by auto
qed

lemma low_masks:
  "c AND 0x1F = c mod (32 :: nat)" "c AND 0x0F = c mod (16 :: nat)" "c AND 0x07 = c mod (8 :: nat)"
  "c AND 0x3F = c mod (64 :: nat)"
  using and_low [of c 5] and_low [of c 4] and_low [of c 3] and_low [of c 6] by simp_all

lemma continue_step: "push_bit 6 cp OR (c AND 0x3F) = 64 * cp + c mod (64 :: nat)"
  using or_push_bit_add [of "c mod 64" 6 cp] by (simp add: low_masks or.commute)

lemma utf8_lead_eq:
  assumes "c < 256"
  shows "utf8_lead c = (if 0xC0 \<le> c \<and> c < 0xE0 then Some (1, c mod 32)
    else if 0xE0 \<le> c \<and> c < 0xF0 then Some (2, c mod 16)
    else if 0xF0 \<le> c \<and> c < 0xF8 then Some (3, c mod 8) else None)"
  unfolding utf8_lead_def lead_masks [OF assms] low_masks ..

lemma utf8_continue_simps:
  "utf8_continue cp [] = cp" "utf8_continue cp (c # cs) = utf8_continue (64 * cp + code c mod 64) cs"
  by (simp_all add: utf8_continue_def continue_step)

lemma cont_code: "code (char_of (128 + m mod 64) :: char) = 128 + m mod (64 :: nat)"
  by (rule code_char_of) (use mod_less_divisor [of 64 m] in linarith)

lemma cont_byte: "128 + m mod 64 AND 0xC0 = (0x80 :: nat)"
proof -
  have "m mod 64 < 64" by simp
  then show ?thesis using lead_masks(4) [of "128 + m mod 64"] by simp
qed

lemma cont_mod: "(128 + m mod 64) mod 256 = 128 + m mod (64 :: nat)"
proof -
  have "m mod 64 < 64" by simp
  then show ?thesis by (intro mod_less) linarith
qed

lemma divmod64: "(64 * x + y mod 64) div 64 = x" "(64 * x + y mod 64) mod 64 = y mod (64 :: nat)"
  by simp_all

lemma cont_value: "(128 + m mod 64) mod 64 = m mod (64 :: nat)"
  using mod_mult_self2 [of "m mod 64" 64 2] by (simp add: add.commute)

lemma lead_value:
  "x < 32 \<Longrightarrow> (192 + x) mod 32 = (x :: nat)" "x < 16 \<Longrightarrow> (224 + x) mod 16 = (x :: nat)"
  "x < 8 \<Longrightarrow> (240 + x) mod 8 = (x :: nat)"
  using mod_mult_self2 [of x 32 6] mod_mult_self2 [of x 16 14] mod_mult_self2 [of x 8 30]
  by (simp_all add: add.commute)

lemma digits64:
  "64 * (cp div 4096) + cp div 64 mod 64 = cp div (64 :: nat)"
  "64 * (cp div 262144) + cp div 4096 mod 64 = cp div (4096 :: nat)"
  using mult_div_mod_eq [of 64 "cp div 64"] mult_div_mod_eq [of 64 "cp div 4096"]
  by (simp_all flip: div_mult2_eq)

lemma valid_utf8_step:
  assumes "\<not> code c < 0x80" "utf8_lead (code c) = Some (length cs, cp)"
    "\<forall>x \<in> set cs. code x AND 0xC0 = 0x80" "\<not> utf8_bad (length cs) (utf8_continue cp cs)"
  shows "valid_utf8 (c # cs @ s) \<longleftrightarrow> valid_utf8 s"
  using assms by (simp add: valid_utf8.simps(2))

lemma valid_utf8_encode:
  assumes "scalar_value cp"
  shows "valid_utf8 (utf8_encode cp @ s) \<longleftrightarrow> valid_utf8 s"
proof -
  consider "cp < 0x80" | "0x80 \<le> cp" "cp < 0x800" | "0x800 \<le> cp" "cp < 0x10000" | "0x10000 \<le> cp"
    by linarith
  then show ?thesis
  proof cases
    case 1
    then show ?thesis by (simp add: utf8_encode_def valid_utf8.simps(2) code_char_of)
  next
    case 2
    let ?c = "0xC0 + cp div 64" and ?cs = "[char_of (0x80 + cp mod 64)]"
    have "cp div 64 < 32" using 2 by auto
    then have c: "0xC0 \<le> ?c" "?c < 0xE0" "?c mod 32 = cp div 64" by (simp_all add: lead_value)
    then have "utf8_lead (code (char_of ?c :: char)) = Some (length ?cs, cp div 64)"
      by (simp add: utf8_lead_eq code_char_of)
    moreover have "utf8_continue (cp div 64) ?cs = cp"
      by (simp add: utf8_continue_simps cont_code cont_value)
    ultimately have "valid_utf8 (char_of ?c # ?cs @ s) \<longleftrightarrow> valid_utf8 s"
      using 2 c assms by (intro valid_utf8_step) (auto simp: code_char_of cont_code cont_byte cont_mod utf8_bad_def scalar_value_def)
    then show ?thesis using 2 by (simp add: utf8_encode_def)
  next
    case 3
    let ?c = "0xE0 + cp div 4096" and ?cs = "[char_of (0x80 + cp div 64 mod 64), char_of (0x80 + cp mod 64)]"
    have "cp div 4096 < 16" using 3 by auto
    then have c: "0xE0 \<le> ?c" "?c < 0xF0" "?c mod 16 = cp div 4096" by (simp_all add: lead_value)
    then have "utf8_lead (code (char_of ?c :: char)) = Some (length ?cs, cp div 4096)"
      by (simp add: utf8_lead_eq code_char_of)
    moreover have "utf8_continue (cp div 4096) ?cs = cp"
      by (simp add: utf8_continue_simps cont_code cont_value digits64)
    ultimately have "valid_utf8 (char_of ?c # ?cs @ s) \<longleftrightarrow> valid_utf8 s"
      using 3 c assms by (intro valid_utf8_step) (auto simp: code_char_of cont_code cont_byte cont_mod utf8_bad_def scalar_value_def)
    then show ?thesis using 3 by (simp add: utf8_encode_def)
  next
    case 4
    let ?c = "0xF0 + cp div 262144"
      and ?cs = "[char_of (0x80 + cp div 4096 mod 64), char_of (0x80 + cp div 64 mod 64), char_of (0x80 + cp mod 64)]"
    have "cp div 262144 < 8" using 4 assms by (auto simp: scalar_value_def)
    then have c: "0xF0 \<le> ?c" "?c < 0xF8" "?c mod 8 = cp div 262144" by (simp_all add: lead_value)
    then have "utf8_lead (code (char_of ?c :: char)) = Some (length ?cs, cp div 262144)"
      by (simp add: utf8_lead_eq code_char_of)
    moreover have "utf8_continue (cp div 262144) ?cs = cp"
      by (simp add: utf8_continue_simps cont_code cont_value digits64)
    ultimately have "valid_utf8 (char_of ?c # ?cs @ s) \<longleftrightarrow> valid_utf8 s"
      using 4 c assms by (intro valid_utf8_step) (auto simp: code_char_of cont_code cont_byte cont_mod utf8_bad_def scalar_value_def)
    then show ?thesis using 4 by (simp add: utf8_encode_def)
  qed
qed

lemma cont_range: "code (c :: char) AND 0xC0 = 0x80 \<Longrightarrow> 128 \<le> code c \<and> code c = 128 + code c mod 64"
proof -
  assume "code c AND 0xC0 = 0x80"
  then have "128 \<le> code c" "code c < 192" using lead_masks(4) [OF code_less] by simp_all
  moreover from this have "(64 * 2 + (code c - 128)) mod 64 = code c - 128" by (subst mod_mult_self4) simp
  ultimately show ?thesis by simp
qed

lemma char_of_cont: "code (c :: char) AND 0xC0 = 0x80 \<Longrightarrow> char_of (128 + code c mod 64) = c"
proof -
  assume "code c AND 0xC0 = 0x80"
  then have "code c = 128 + code c mod 64" using cont_range by blast
  then have "char_of (128 + code c mod 64) = (char_of (code c) :: char)" by simp
  then show ?thesis by simp
qed

text \<open>What one step of the validator accepts is the encoding of one scalar value.\<close>

lemma valid_utf8_decode:
  assumes "valid_utf8 (c # s)"
  shows "\<exists>cp t. scalar_value cp \<and> c # s = utf8_encode cp @ t \<and> valid_utf8 t"
proof (cases "code c < 0x80")
  case True
  then have "scalar_value (code c)" "utf8_encode (code c) = [c]"
    by (simp_all add: scalar_value_def utf8_encode_def)
  with True assms show ?thesis by (intro exI [of _ "code c"] exI [of _ s]) (simp add: valid_utf8.simps(2))
next
  case False
  with assms obtain extra b where lead: "utf8_lead (code c) = Some (extra, b)" and len: "extra \<le> length s"
    and cont: "\<forall>x \<in> set (take extra s). code x AND 0xC0 = 0x80"
    and bad: "\<not> utf8_bad extra (utf8_continue b (take extra s))" and rest: "valid_utf8 (drop extra s)"
    by (auto simp: valid_utf8.simps(2) not_less split: option.splits if_splits)
  let ?cp = "utf8_continue b (take extra s)"
  have char_c: "char_of (code c) = c" by simp
  note leads = lead [unfolded utf8_lead_eq [OF code_less]]
  have "scalar_value ?cp" using bad by (auto simp: utf8_bad_def scalar_value_def)
  moreover have "c # take extra s = utf8_encode ?cp"
  proof -
    consider "extra = 1" "0xC0 \<le> code c" "code c < 0xE0" "b = code c mod 32"
      | "extra = 2" "0xE0 \<le> code c" "code c < 0xF0" "b = code c mod 16"
      | "extra = 3" "0xF0 \<le> code c" "code c < 0xF8" "b = code c mod 8"
      using leads by (auto split: if_splits)
    then show ?thesis
    proof cases
      case 1
      then obtain d where d: "take extra s = [d]" using len by (cases s) auto
      have b: "code c = 192 + b" using 1 lead_value(1) [of "code c - 192"] by simp
      have cp: "?cp = 64 * b + code d mod 64" using d by (simp add: utf8_continue_simps)
      then have "?cp div 64 = b" "?cp mod 64 = code d mod 64" by (simp_all only: divmod64)
      moreover have "0x80 \<le> ?cp" "?cp < 0x800" using bad 1 cp by (auto simp: utf8_bad_def)
      ultimately show ?thesis using d cont b char_of_cont [of d] by (simp add: utf8_encode_def) (metis char_c)
    next
      case 2
      then obtain d e where d: "take extra s = [d, e]"
        using len by (cases s; cases "tl s") (auto simp: numeral_2_eq_2)
      have b: "code c = 224 + b" using 2 lead_value(2) [of "code c - 224"] by simp
      have cp: "?cp = 64 * (64 * b + code d mod 64) + code e mod 64" using d by (simp add: utf8_continue_simps)
      then have "?cp div 64 = 64 * b + code d mod 64" "?cp mod 64 = code e mod 64"
        by (simp_all only: divmod64)
      moreover from this have "?cp div 4096 = b" using div_mult2_eq [of ?cp 64 64] by simp
      moreover have "0x800 \<le> ?cp" "?cp < 0x10000" using bad 2 cp by (auto simp: utf8_bad_def)
      ultimately show ?thesis using d cont b char_of_cont [of d] char_of_cont [of e]
        by (simp add: utf8_encode_def) (metis char_c)
    next
      case 3
      then obtain d e g where d: "take extra s = [d, e, g]"
        using len by (cases s; cases "tl s"; cases "tl (tl s)") (auto simp: numeral_3_eq_3)
      have b: "code c = 240 + b" using 3 lead_value(3) [of "code c - 240"] by simp
      have cp: "?cp = 64 * (64 * (64 * b + code d mod 64) + code e mod 64) + code g mod 64"
        using d by (simp add: utf8_continue_simps)
      then have q: "?cp div 64 = 64 * (64 * b + code d mod 64) + code e mod 64" "?cp mod 64 = code g mod 64"
        by (simp_all only: divmod64)
      from q(1) have q2: "?cp div 4096 = 64 * b + code d mod 64"
        using div_mult2_eq [of ?cp 64 64] divmod64(1) [of "64 * b + code d mod 64" "code e"] by simp
      moreover from q2 have "?cp div 262144 = b" using div_mult2_eq [of ?cp 4096 64] by simp
      moreover have "?cp div 64 mod 64 = code e mod 64" unfolding q(1) by (rule divmod64)
      moreover have "0x10000 \<le> ?cp" using bad 3 by (auto simp: utf8_bad_def)
      ultimately show ?thesis using q(2) d cont b char_of_cont [of d] char_of_cont [of e] char_of_cont [of g]
        by (simp add: utf8_encode_def) (metis char_c)
    qed
  qed
  ultimately show ?thesis using rest
    by (intro exI [of _ ?cp] exI [of _ "drop extra s"]) (metis append_Cons append_take_drop_id)
qed

text \<open>
  C11: The validator accepts exactly UTF-8. A byte string passes the loop of \<^verbatim>\<open>valid_utf8\<close>, with its
  masks and shifts, if and only if it is the concatenation of the encodings of Unicode scalar
  values: no overlong form, no surrogate, nothing beyond U+10FFFF, no truncated sequence.
\<close>

theorem valid_utf8_iff:
  "valid_utf8 s \<longleftrightarrow> s \<in> {concat (map utf8_encode cps) | cps. list_all scalar_value cps}"
proof
  assume "valid_utf8 s"
  then have "\<exists>cps. list_all scalar_value cps \<and> s = concat (map utf8_encode cps)"
  proof (induction "length s" arbitrary: s rule: less_induct)
    case less
    show ?case
    proof (cases s)
      case Nil
      then show ?thesis by (intro exI [of _ "[]"]) simp
    next
      case (Cons c s')
      with less.prems obtain cp t where t: "scalar_value cp" "s = utf8_encode cp @ t" "valid_utf8 t"
        using valid_utf8_decode by blast
      moreover have "utf8_encode cp \<noteq> []" by (simp add: utf8_encode_def)
      ultimately obtain cps where "list_all scalar_value cps" "t = concat (map utf8_encode cps)"
        using less.hyps [of t] by auto
      with t show ?thesis by (intro exI [of _ "cp # cps"]) simp
    qed
  qed
  then show "s \<in> {concat (map utf8_encode cps) | cps. list_all scalar_value cps}" by blast
next
  assume "s \<in> {concat (map utf8_encode cps) | cps. list_all scalar_value cps}"
  then obtain cps where "list_all scalar_value cps" "s = concat (map utf8_encode cps)" by blast
  then show "valid_utf8 s" by (induction cps arbitrary: s) (simp_all add: valid_utf8_encode)
qed

end
