(* ===== verification/Crypto.thy ===== *)
theory Crypto
  imports Codec
begin

section \<open>The cryptographic library, as a parameter\<close>

text \<open>
  \<^verbatim>\<open>vgi_rpc::crypto\<close> is a library outside this repository: it is a record of functions, an argument
  of every definition that calls it. What the callers rely on is \<open>crypto_laws\<close>: a sealed value
  opens under its own key and associated data to what was sealed and under no other key or
  associated data (the authenticity an AEAD is documented to give, with the negligible
  probability of a forgery taken as none), an envelope is at least nonce and tag long, and
  base64url is the inverse of its decoder over its own alphabet. \<open>toy_crypto\<close> shows that the laws
  can hold together. The random nonce \<^verbatim>\<open>aead_seal\<close> draws is an argument.
\<close>

record crypto =
  aead_seal :: "bytes \<Rightarrow> bytes \<Rightarrow> bytes \<Rightarrow> bytes \<Rightarrow> bytes"
  aead_open :: "bytes \<Rightarrow> bytes \<Rightarrow> bytes \<Rightarrow> bytes option"
  base64url_encode :: "bytes \<Rightarrow> string"
  base64url_decode :: "string \<Rightarrow> bytes option"
  sha256 :: "bytes \<Rightarrow> bytes"

definition kAeadNonceBytes :: nat where
  "kAeadNonceBytes = 24"

definition kAeadTagBytes :: nat where
  "kAeadTagBytes = 16"

definition b64_char :: "char \<Rightarrow> bool" where
  "b64_char c \<longleftrightarrow> is_alnum c \<or> c = CHR ''-'' \<or> c = CHR ''_''"

definition crypto_laws :: "crypto \<Rightarrow> bool" where
  "crypto_laws c \<longleftrightarrow>
     (\<forall>k p a n. aead_open c k (aead_seal c k p a n) a = Some p) \<and>
     (\<forall>k p a n k' a'. (k', a') \<noteq> (k, a) \<longrightarrow> aead_open c k' (aead_seal c k p a n) a' = None) \<and>
     (\<forall>k p a n. kAeadNonceBytes + kAeadTagBytes \<le> length (aead_seal c k p a n)) \<and>
     (\<forall>b. base64url_decode c (base64url_encode c b) = Some b) \<and>
     (\<forall>b. b \<noteq> [] \<longrightarrow> base64url_encode c b \<noteq> []) \<and>
     (\<forall>b. list_all b64_char (base64url_encode c b) \<and> length (base64url_encode c b) mod 4 \<noteq> 1) \<and>
     (\<forall>b. length (sha256 c b) = 32)"

lemma crypto_lawsD:
  assumes "crypto_laws c"
  shows open_seal: "aead_open c k (aead_seal c k p a n) a = Some p"
    and open_other: "(k', a') \<noteq> (k, a) \<Longrightarrow> aead_open c k' (aead_seal c k p a n) a' = None"
    and seal_length: "40 \<le> length (aead_seal c k p a n)"
    and decode_encode: "base64url_decode c (base64url_encode c b) = Some b"
    and encode_alphabet: "list_all b64_char (base64url_encode c b)"
    and encode_not_Nil: "b \<noteq> [] \<Longrightarrow> base64url_encode c b \<noteq> []"
    and encode_length: "length (base64url_encode c b) mod 4 \<noteq> 1"
  using assms by (simp_all add: crypto_laws_def kAeadNonceBytes_def kAeadTagBytes_def)

text \<open>The caller of a request, as the transport authenticated it.\<close>

record auth_context =
  authenticated :: bool
  auth_domain :: string
  auth_principal :: "string option"

subsection \<open>An instance\<close>

fun unhex :: "string \<Rightarrow> bytes" where
  "unhex (a # b # s) =
     char_of (16 * length (takeWhile (\<lambda>d. d \<noteq> a) ''0123456789abcdef'') +
              length (takeWhile (\<lambda>d. d \<noteq> b) ''0123456789abcdef'')) # unhex s"
| "unhex _ = []"

fun strip_prefix :: "string \<Rightarrow> string \<Rightarrow> string option" where
  "strip_prefix [] s = Some s"
| "strip_prefix (p # ps) [] = None"
| "strip_prefix (p # ps) (c # s) = (if p = c then strip_prefix ps s else None)"

definition toy_frame :: "bytes \<Rightarrow> bytes \<Rightarrow> bytes" where
  "toy_frame k a = replicate 40 NUL @ hex k @ ''.'' @ hex a @ ''.''"

definition toy_crypto :: crypto where
  "toy_crypto = \<lparr>
     aead_seal = (\<lambda>k p a n. toy_frame k a @ p),
     aead_open = (\<lambda>k e a. strip_prefix (toy_frame k a) e),
     base64url_encode = hex,
     base64url_decode = (\<lambda>t. Some (unhex t)),
     sha256 = (\<lambda>b. replicate 32 NUL)\<rparr>"

lemma strip_prefix_append [simp]: "strip_prefix p (p @ s) = Some s"
  by (induction p) auto

lemma strip_prefix_Some: "strip_prefix p s = Some r \<longleftrightarrow> s = p @ r"
  by (induction p s rule: strip_prefix.induct) auto

lemma takeWhile_nth:
  assumes "distinct xs" "n < length xs"
  shows "length (takeWhile (\<lambda>d. d \<noteq> xs ! n) xs) = n"
proof -
  have "takeWhile (\<lambda>d. d \<noteq> xs ! n) xs = take n xs"
    using assms by (intro takeWhile_eq_take_P_nth) (auto simp: nth_eq_iff_index_eq)
  with assms show ?thesis by simp
qed

lemma hex_digit_index:
  assumes "n < 16"
  shows "length (takeWhile (\<lambda>d. d \<noteq> hex_digit n) ''0123456789abcdef'') = n"
  unfolding hex_digit_def by (rule takeWhile_nth) (use assms in simp_all)

lemma unhex_hex: "unhex (hex b) = b"
proof (induction b)
  case (Cons c b)
  have "16 * drop_bit 4 (code c) + (code c AND 15) = code c" by (rule nibbles)
  then show ?case using Cons by (simp add: hex_Cons hex_digit_index nibble_less del: takeWhile.simps)
qed simp

lemma hex_alnum: "list_all b64_char (hex b)"
proof -
  have "\<forall>c \<in> set ''0123456789abcdef''. b64_char c"
    by (simp add: b64_char_def is_alnum_def is_alpha_def is_upper_def is_lower_def is_digit_def)
  then show ?thesis using set_hex [of b] by (auto simp: list_all_iff)
qed

lemma toy_frame_inject: "toy_frame k a @ p = toy_frame k' a' @ p' \<longleftrightarrow> k = k' \<and> a = a' \<and> p = p'"
proof -
  have no: "CHR ''.'' \<notin> set (hex b)" for b using set_hex [of b] by auto
  have sep: "x @ CHR ''.'' # s = y @ CHR ''.'' # t \<longleftrightarrow> x = y \<and> s = t"
    if "CHR ''.'' \<notin> set x" "CHR ''.'' \<notin> set y" for x y s t
    using that by (auto simp: append_eq_append_conv2 append_eq_Cons_conv Cons_eq_append_conv)
  show ?thesis unfolding toy_frame_def by (simp add: sep no)
qed

lemma toy_crypto_laws: "crypto_laws toy_crypto"
proof -
  have "strip_prefix (toy_frame k' a') (toy_frame k a @ p) = None" if "(k', a') \<noteq> (k, a)" for k k' a a' p
  proof (rule ccontr)
    assume "\<not> ?thesis"
    then obtain r where "strip_prefix (toy_frame k' a') (toy_frame k a @ p) = Some r" by auto
    then show False using that unfolding strip_prefix_Some toy_frame_inject by simp
  qed
  moreover have "length (hex b) mod 4 \<noteq> 1" for b
    unfolding length_hex by presburger
  ultimately show ?thesis
    by (simp add: crypto_laws_def toy_crypto_def unhex_hex hex_alnum kAeadNonceBytes_def kAeadTagBytes_def)
      (simp add: toy_frame_def)
qed

end
