(* ===== verification/Attach_Ticket.thy ===== *)
theory Attach_Ticket
  imports Crypto Wire
begin

section \<open>Attach tickets\<close>

text \<open>
  \<^verbatim>\<open>src/src/attach_ticket.cpp\<close>: the payload codec, minting, opening and redeeming a ticket. The
  64-bit times are words; the clock is a real number of seconds, in place of the \<^verbatim>\<open>double\<close> of the
  sources (a time in seconds is far below \<^verbatim>\<open>2^53\<close>, so the conversions there are exact). Every
  exception is a value of \<open>ticket_error\<close>, which keeps its class apart from its text.
\<close>

record claims =
  issued_at :: "64 word"
  expires_at :: "64 word"
  ticket_id :: bytes
  catalog_name :: bytes
  data_version_spec :: bytes
  implementation_version :: bytes
  options_ipc :: bytes

datatype ticket_error =
    InvalidArgument string
  | TicketInvalid string
  | TicketExpired string
  | InvalidRequest string "(string \<times> string) list"
  | ActionDenied string
  | WireError wire_error

definition kMaxText :: nat where
  "kMaxText = 0xFFFF"

definition kAttachTicketMaxOptionsBytes :: nat where
  "kAttachTicketMaxOptionsBytes = 16 * 1024"

definition kAttachTicketMaxChars :: nat where
  "kAttachTicketMaxChars = 32 * 1024"

definition kAttachTicketClockSkewSeconds :: real where
  "kAttachTicketClockSkewSeconds = 60"

definition kAttachTicketPrefix :: string where
  "kAttachTicketPrefix = ''vgia1.''"

definition kAttachTicketOption :: string where
  "kAttachTicketOption = ''vgi_attach_ticket''"

definition kAttachTicketEnvelopeVersion :: char where
  "kAttachTicketEnvelopeVersion = char_of (1 :: nat)"

definition is_ticket_id :: "bytes \<Rightarrow> bool" where
  "is_ticket_id i \<longleftrightarrow> length i = 32 \<and>
     list_all (\<lambda>c. is_digit c \<or> code (CHR ''a'') \<le> code c \<and> code c \<le> code (CHR ''f'')) i"

subsection \<open>The payload\<close>

definition put_text :: "bytes \<Rightarrow> string \<Rightarrow> ticket_error + bytes" where
  "put_text v name =
     (if kMaxText < length v then Inl (InvalidArgument (name @ '' is longer than 65535 bytes''))
      else Inr (le_bytes 2 (length v) @ v))"

definition encode_attach_ticket_payload :: "claims \<Rightarrow> ticket_error + bytes" where
  "encode_attach_ticket_payload c =
     (if kAttachTicketMaxOptionsBytes < length (options_ipc c)
      then Inl (InvalidArgument ''options are too long; a ticket carries at most 16384'')
      else
        bindE (put_text (ticket_id c) ''ticket_id'') (\<lambda>t1.
        bindE (put_text (catalog_name c) ''catalog_name'') (\<lambda>t2.
        bindE (put_text (data_version_spec c) ''data_version_spec'') (\<lambda>t3.
        bindE (put_text (implementation_version c) ''implementation_version'') (\<lambda>t4.
        Inr (put_i64 (issued_at c) @ put_i64 (expires_at c) @ t1 @ t2 @ t3 @ t4 @
             le_bytes 4 (length (options_ipc c)) @ options_ipc c))))))"

text \<open>The reader: what is left of the payload.\<close>

definition take_bytes :: "nat \<Rightarrow> bytes \<Rightarrow> ticket_error + bytes \<times> bytes" where
  "take_bytes n rest =
     (if length rest < n then Inl (TicketInvalid ''attach ticket payload is truncated'')
      else Inr (take n rest, drop n rest))"

definition take_le :: "nat \<Rightarrow> bytes \<Rightarrow> ticket_error + nat \<times> bytes" where
  "take_le n rest = bindE (take_bytes n rest) (\<lambda>(bs, rest). Inr (le_value bs, rest))"

definition take_text :: "bytes \<Rightarrow> ticket_error + bytes \<times> bytes" where
  "take_text rest =
     bindE (take_le 2 rest) (\<lambda>(n, rest).
     bindE (take_bytes n rest) (\<lambda>(v, rest).
     bindE (ensure (valid_utf8 v) (TicketInvalid ''attach ticket payload is not UTF-8'')) (\<lambda>_.
     Inr (v, rest))))"

definition empty_lifetime :: "claims \<Rightarrow> bool" where
  "empty_lifetime c \<longleftrightarrow> expires_at c \<noteq> 0 \<and> sint (expires_at c) \<le> sint (issued_at c)"

definition decode_payload :: "bytes \<Rightarrow> ticket_error + claims" where
  "decode_payload payload =
     bindE (take_le 8 payload) (\<lambda>(issued, r).
     bindE (take_le 8 r) (\<lambda>(expires, r).
     bindE (take_text r) (\<lambda>(t1, r).
     bindE (take_text r) (\<lambda>(t2, r).
     bindE (take_text r) (\<lambda>(t3, r).
     bindE (take_text r) (\<lambda>(t4, r).
     bindE (take_le 4 r) (\<lambda>(options_len, r).
     bindE (ensure (options_len \<le> kAttachTicketMaxOptionsBytes)
        (TicketInvalid ''attach ticket options exceed 16 KiB'')) (\<lambda>_.
     bindE (take_bytes options_len r) (\<lambda>(options, r).
     let c = \<lparr>issued_at = word_of_nat issued, expires_at = word_of_nat expires, ticket_id = t1,
              catalog_name = t2, data_version_spec = t3, implementation_version = t4,
              options_ipc = options\<rparr> in
     bindE (ensure (r = []) (TicketInvalid ''attach ticket payload has trailing bytes'')) (\<lambda>_.
     bindE (ensure (is_ticket_id t1) (TicketInvalid ''attach ticket id is not 32 lowercase hex'')) (\<lambda>_.
     bindE (ensure (t2 \<noteq> []) (TicketInvalid ''attach ticket names no catalog'')) (\<lambda>_.
     bindE (ensure (\<not> empty_lifetime c) (TicketInvalid ''attach ticket lifetime is empty'')) (\<lambda>_.
     Inr c)))))))))))))"

subsection \<open>Minting and opening\<close>

definition attach_ticket_key :: "crypto \<Rightarrow> bytes \<Rightarrow> bytes" where
  "attach_ticket_key cr raw = (if length raw = 32 then raw else sha256 cr raw)"

definition attach_ticket_aad :: "bytes \<Rightarrow> bytes" where
  "attach_ticket_aad who = ''vgi.attach_ticket.v1'' @ [NUL] @ who"

definition mint_attach_ticket ::
    "crypto \<Rightarrow> bytes \<Rightarrow> bytes \<Rightarrow> claims \<Rightarrow> bytes \<Rightarrow> ticket_error + string" where
  "mint_attach_ticket cr key who c nonce =
     bindE (ensure (who \<noteq> []) (InvalidArgument ''a ticket needs a principal'')) (\<lambda>_.
     bindE (ensure (catalog_name c \<noteq> []) (InvalidArgument ''a ticket needs a catalog name'')) (\<lambda>_.
     bindE (ensure (is_ticket_id (ticket_id c)) (InvalidArgument ''ticket_id must be 32 lowercase hex'')) (\<lambda>_.
     bindE (ensure (\<not> empty_lifetime c) (InvalidArgument ''expires_at must be 0 or after issued_at'')) (\<lambda>_.
     bindE (encode_attach_ticket_payload c) (\<lambda>payload.
     let aad = attach_ticket_aad who;
         envelope = kAttachTicketEnvelopeVersion # aead_seal cr key payload aad nonce;
         token = kAttachTicketPrefix @ base64url_encode cr envelope
     in if kAttachTicketMaxChars < length token
        then Inl (InvalidArgument ''the ticket would be too long; at most 32768 are accepted'')
        else Inr token)))))"

definition b64url_strict :: "crypto \<Rightarrow> string \<Rightarrow> ticket_error + bytes" where
  "b64url_strict cr text =
     (let alphabet = (text \<noteq> [] \<and> list_all b64_char text) in
      if \<not> alphabet \<or> length text mod 4 = 1
      then Inl (TicketInvalid ''attach ticket is not unpadded base64url'')
      else case base64url_decode cr text of
          None \<Rightarrow> Inl (TicketInvalid ''attach ticket is not canonical base64url'')
        | Some raw \<Rightarrow>
            if base64url_encode cr raw \<noteq> text
            then Inl (TicketInvalid ''attach ticket is not canonical base64url'')
            else Inr raw)"

definition check_lifetime :: "claims \<Rightarrow> real \<Rightarrow> ticket_error + unit" where
  "check_lifetime c now =
     (if real_of_int (sint (issued_at c)) > now + kAttachTicketClockSkewSeconds
      then Inl (TicketExpired ''attach ticket is not yet valid'')
      else if expires_at c \<noteq> 0 \<and> now \<ge> real_of_int (sint (expires_at c)) + kAttachTicketClockSkewSeconds
      then Inl (TicketExpired ''attach ticket has expired'')
      else Inr ())"

definition open_attach_ticket ::
    "crypto \<Rightarrow> bytes \<Rightarrow> string \<Rightarrow> bytes \<Rightarrow> real \<Rightarrow> ticket_error + claims" where
  "open_attach_ticket cr key token who now =
     bindE (ensure (starts_with token kAttachTicketPrefix) (TicketInvalid ''not an attach ticket'')) (\<lambda>_.
     bindE (ensure (length token \<le> kAttachTicketMaxChars) (TicketInvalid ''attach ticket is too long'')) (\<lambda>_.
     bindE (b64url_strict cr (drop (length kAttachTicketPrefix) token)) (\<lambda>envelope.
     bindE (ensure (who \<noteq> [])
        (TicketInvalid ''an anonymous caller cannot redeem an attach ticket'')) (\<lambda>_.
     bindE (ensure (1 + kAeadNonceBytes + kAeadTagBytes \<le> length envelope \<and>
          hd envelope = kAttachTicketEnvelopeVersion)
        (TicketInvalid ''attach ticket failed verification'')) (\<lambda>_.
     case aead_open cr key (tl envelope) (attach_ticket_aad who) of
       None \<Rightarrow> Inl (TicketInvalid ''attach ticket failed verification'')
     | Some payload \<Rightarrow>
         bindE (decode_payload payload) (\<lambda>c.
         bindE (check_lifetime c now) (\<lambda>_.
         Inr c)))))))"

definition attach_ticket_principal :: "auth_context \<Rightarrow> bytes" where
  "attach_ticket_principal auth =
     (if \<not> authenticated auth then [] else case auth_principal auth of None \<Rightarrow> [] | Some p \<Rightarrow> p)"

definition is_reserved_attach_option :: "string \<Rightarrow> bool" where
  "is_reserved_attach_option name \<longleftrightarrow> lower name = kAttachTicketOption"

subsection \<open>Redeeming\<close>

definition string_value :: "arr \<Rightarrow> bytes option" where
  "string_value a =
     (if arr_cells a = [] \<or> hd (arr_cells a) = Null then None
      else if arr_type a \<in> {TString, TLargeString, TStringView} then Some (text_of (hd (arr_cells a)))
      else None)"

definition wire :: "wire_error + 'a \<Rightarrow> ticket_error + 'a" where
  "wire r = (case r of Inl e \<Rightarrow> Inl (WireError e) | Inr x \<Rightarrow> Inr x)"

definition text_or_null :: "bytes \<Rightarrow> cell" where
  "text_or_null v = (if v = [] then Null else VText v)"

definition scalar :: "dtype \<Rightarrow> cell \<Rightarrow> arr" where
  "scalar t c = \<lparr>arr_type = t, arr_cells = [c], arr_dictionary = []\<rparr>"

text \<open>The four columns the ticket seals are replaced; every other one keeps its first row.\<close>

definition restore_column :: "claims \<Rightarrow> field \<times> arr \<Rightarrow> field \<times> arr" where
  "restore_column c fa = (case fa of (f, a) \<Rightarrow>
     (f, if field_name f = ''name'' then scalar TString (VText (catalog_name c))
         else if field_name f = ''options'' then scalar TBinary (text_or_null (options_ipc c))
         else if field_name f = ''data_version_spec'' then scalar TString (text_or_null (data_version_spec c))
         else if field_name f = ''implementation_version''
           then scalar TString (text_or_null (implementation_version c))
         else a\<lparr>arr_cells := take 1 (arr_cells a)\<rparr>))"

definition restore_request ::
    "(bytes \<Rightarrow> wire_error + batch option) \<Rightarrow> claims \<Rightarrow> batch \<Rightarrow> ticket_error + batch" where
  "restore_request ipc c r =
     bindE (if options_ipc c = [] then Inr ()
            else case decode_ipc ipc (options_ipc c) of
                Inl e \<Rightarrow> Inl (TicketInvalid ''attach ticket options are not an Arrow IPC record'')
              | Inr _ \<Rightarrow> Inr ()) (\<lambda>_.
     let restored = map (restore_column c) (columns r) in
     if list_all (\<lambda>(f, a). arr_type a = field_type f \<and> length (arr_cells a) = 1) restored
     then Inr \<lparr>columns = restored, num_rows = 1\<rparr>
     else Inl (WireError (WrongType ''request'')))"

text \<open>The first spelling of the ticket's option, and what stands beside it.\<close>

definition ticket_column :: "batch \<Rightarrow> nat option" where
  "ticket_column opts =
     (case filter (\<lambda>i. is_reserved_attach_option (field_name (fst (columns opts ! i)))) [0..<length (columns opts)] of
        [] \<Rightarrow> None
      | t # _ \<Rightarrow> Some t)"

definition other_options :: "batch \<Rightarrow> nat \<Rightarrow> (string \<times> string) list" where
  "other_options opts t =
     map (\<lambda>i. (''options.'' @ field_name (fst (columns opts ! i)), ''not allowed alongside '' @ kAttachTicketOption))
       (filter (\<lambda>i. i \<noteq> t) [0..<length (columns opts)])"

definition redeem_options ::
    "(bytes \<Rightarrow> wire_error + batch option) \<Rightarrow> crypto \<Rightarrow> batch \<Rightarrow> batch \<Rightarrow> nat \<Rightarrow> bytes option \<Rightarrow> bytes \<Rightarrow> real \<Rightarrow>
     ticket_error + batch" where
  "redeem_options ipc cr r opts t key who now =
     (if other_options opts t \<noteq> []
      then Inl (InvalidRequest (kAttachTicketOption @ '' must be the only attach option'') (other_options opts t))
      else case string_value (snd (columns opts ! t)) of
          None \<Rightarrow> Inl (TicketInvalid (kAttachTicketOption @ '' must be a string''))
        | Some token \<Rightarrow>
            (case key of
               None \<Rightarrow> Inl (TicketInvalid ''this worker does not redeem attach tickets'')
             | Some k \<Rightarrow>
                 bindE (open_attach_ticket cr k token who now) (\<lambda>c. restore_request ipc c r)))"

definition redeem_attach_ticket ::
    "(bytes \<Rightarrow> wire_error + batch option) \<Rightarrow> crypto \<Rightarrow> batch option \<Rightarrow> bytes option \<Rightarrow> bytes \<Rightarrow> real \<Rightarrow>
     ticket_error + batch option" where
  "redeem_attach_ticket ipc cr request key who now =
     (case request of
        None \<Rightarrow> Inr None
      | Some r \<Rightarrow>
          bindE (wire (get_optional_binary request ''options'')) (\<lambda>encoded.
          case encoded of
            None \<Rightarrow> Inr None
          | Some bytes \<Rightarrow>
              if bytes = [] then Inr None
              else
                bindE (wire (decode_ipc ipc bytes)) (\<lambda>options.
                case options of
                  None \<Rightarrow> Inr None
                | Some opts \<Rightarrow>
                    if num_rows opts < 1 then Inr None
                    else (case ticket_column opts of
                        None \<Rightarrow> Inr None
                      | Some t \<Rightarrow> bindE (redeem_options ipc cr r opts t key who now) (\<lambda>b. Inr (Some b))))))"

end
