(* ===== verification/Attach_Ticket_Properties.thy ===== *)
theory Attach_Ticket_Properties
  imports Attach_Ticket
begin

section \<open>What an attach ticket guarantees\<close>

text \<open>
  The payload codec is a bijection between the well-formed claims and the payloads the strict
  parse accepts; a minted ticket opens for its own principal under its own key to the claims
  that were sealed, and for no other; the caller learns that a ticket is expired only when it is
  an authentic ticket of that caller; redeeming restores exactly the sealed request.
\<close>

subsection \<open>The payload codec\<close>

definition wf_claims :: "claims \<Rightarrow> bool" where
  "wf_claims c \<longleftrightarrow> valid_utf8 (ticket_id c) \<and> valid_utf8 (catalog_name c) \<and>
     valid_utf8 (data_version_spec c) \<and> valid_utf8 (implementation_version c) \<and>
     is_ticket_id (ticket_id c) \<and> catalog_name c \<noteq> [] \<and> \<not> empty_lifetime c"

lemma take_bytes_Inr [codec_simps]:
  "take_bytes n rest = Inr (x, r) \<longleftrightarrow> rest = x @ r \<and> length x = n"
  by (auto simp: take_bytes_def append_eq_conv_conj)

lemma take_le_Inr [codec_simps]:
  "take_le n rest = Inr (v, r) \<longleftrightarrow> rest = le_bytes n v @ r \<and> v < 2 ^ (8 * n)"
proof
  assume "take_le n rest = Inr (v, r)"
  then obtain bs where "rest = bs @ r" "length bs = n" "v = le_value bs"
    by (auto simp: take_le_def take_bytes_Inr)
  then show "rest = le_bytes n v @ r \<and> v < 2 ^ (8 * n)"
    using le_bytes_le_value [of bs] le_value_less [of bs] by simp
next
  assume "rest = le_bytes n v @ r \<and> v < 2 ^ (8 * n)"
  then have "take_bytes n rest = Inr (le_bytes n v, r)" "le_value (le_bytes n v) = v"
    by (simp_all add: take_bytes_Inr le_value_le_bytes)
  then show "take_le n rest = Inr (v, r)" by (simp add: take_le_def)
qed

lemma take_text_Inr [codec_simps]:
  "take_text rest = Inr (v, r) \<longleftrightarrow>
     rest = le_bytes 2 (length v) @ v @ r \<and> length v \<le> kMaxText \<and> valid_utf8 v"
  by (auto simp: take_text_def take_le_Inr take_bytes_Inr kMaxText_def split: prod.splits)

lemma put_text_Inr [codec_simps]:
  "put_text v name = Inr t \<longleftrightarrow> length v \<le> kMaxText \<and> t = le_bytes 2 (length v) @ v"
  by (auto simp: put_text_def)

lemma take_i64_Inr [codec_simps]:
  "take_le 8 rest = Inr (v, r) \<longleftrightarrow> rest = put_i64 (word_of_nat v) @ r \<and> v < 2 ^ 64"
  by (auto simp: take_le_Inr put_i64_def unat_of_nat)

lemma encode_Inr:
  "encode_attach_ticket_payload c = Inr p \<longleftrightarrow>
     length (options_ipc c) \<le> kAttachTicketMaxOptionsBytes \<and>
     length (ticket_id c) \<le> kMaxText \<and> length (catalog_name c) \<le> kMaxText \<and>
     length (data_version_spec c) \<le> kMaxText \<and> length (implementation_version c) \<le> kMaxText \<and>
     p = put_i64 (issued_at c) @ put_i64 (expires_at c) @
       le_bytes 2 (length (ticket_id c)) @ ticket_id c @ le_bytes 2 (length (catalog_name c)) @ catalog_name c @
       le_bytes 2 (length (data_version_spec c)) @ data_version_spec c @
       le_bytes 2 (length (implementation_version c)) @ implementation_version c @
       le_bytes 4 (length (options_ipc c)) @ options_ipc c"
  by (auto simp: encode_attach_ticket_payload_def put_text_Inr)

lemma put_i64_of_nat [simp]: "v < 18446744073709551616 \<Longrightarrow> put_i64 (word_of_nat v) = le_bytes 8 v"
  by (simp add: put_i64_def unat_of_nat)

lemma take_i64_put: "take_le 8 (put_i64 x @ r) = Inr (unat x, r)"
proof -
  have "unat x < 2 ^ LENGTH(64)" by (rule unsigned_less)
  then show ?thesis by (simp add: take_le_Inr put_i64_def)
qed

lemma take_text_put:
  "length v \<le> kMaxText \<Longrightarrow> valid_utf8 v \<Longrightarrow> take_text (le_bytes 2 (length v) @ v @ r) = Inr (v, r)"
  by (simp add: take_text_Inr)

lemma take_options_put:
  assumes "length v \<le> kAttachTicketMaxOptionsBytes"
  shows "take_le 4 (le_bytes 4 (length v) @ v) = Inr (length v, v)" "take_bytes (length v) v = Inr (v, [])"
  using assms by (simp_all add: take_le_Inr take_bytes_Inr kAttachTicketMaxOptionsBytes_def)

lemma decode_Inr:
  "decode_payload p = Inr c \<longleftrightarrow> wf_claims c \<and> encode_attach_ticket_payload c = Inr p"
proof
  assume "decode_payload p = Inr c"
  then show "wf_claims c \<and> encode_attach_ticket_payload c = Inr p"
    by (auto simp: decode_payload_def Let_def take_text_Inr take_le_Inr take_bytes_Inr
        encode_Inr wf_claims_def split: prod.splits)
next
  assume enc: "wf_claims c \<and> encode_attach_ticket_payload c = Inr p"
  then show "decode_payload p = Inr c"
    by (cases c) (simp add: decode_payload_def Let_def encode_Inr wf_claims_def take_i64_put take_text_put take_options_put)
qed

text \<open>
  C12: The payload has one spelling. The strict parse of a payload succeeds with some claims
  exactly when the claims are well formed and encode to that very payload: encoding and
  parsing are inverse to one another, and no two payloads carry the same claims.
\<close>

theorem payload_codec:
  "decode_payload payload = Inr c \<longleftrightarrow> wf_claims c \<and> encode_attach_ticket_payload c = Inr payload"
  by (rule decode_Inr)

subsection \<open>Minting and opening\<close>

lemma starts_with_prefix_append [simp]: "starts_with (p @ s) p"
  by (simp add: starts_with_def)

lemma b64url_strict_encode:
  assumes "crypto_laws cr" "e \<noteq> []"
  shows "b64url_strict cr (base64url_encode cr e) = Inr e"
  using encode_alphabet [OF assms(1), of e] encode_length [OF assms(1), of e]
    decode_encode [OF assms(1), of e] encode_not_Nil [OF assms(1,2)]
  by (simp add: b64url_strict_def)

text \<open>A minted ticket, seen by the one who opens it.\<close>

lemma open_minted:
  assumes laws: "crypto_laws cr" and mint: "mint_attach_ticket cr key who c nonce = Inr token"
  shows "open_attach_ticket cr key' token who' now =
    (if who' = [] then Inl (TicketInvalid ''an anonymous caller cannot redeem an attach ticket'')
     else if (key', who') \<noteq> (key, who) then Inl (TicketInvalid ''attach ticket failed verification'')
     else bindE (decode_payload (projr (encode_attach_ticket_payload c))) (\<lambda>c.
       bindE (check_lifetime c now) (\<lambda>_. Inr c)))"
proof -
  obtain payload where p: "encode_attach_ticket_payload c = Inr payload"
    and token: "token = kAttachTicketPrefix @ base64url_encode cr
      (kAttachTicketEnvelopeVersion # aead_seal cr key payload (attach_ticket_aad who) nonce)"
    and len: "length token \<le> kAttachTicketMaxChars"
    using mint by (auto simp: mint_attach_ticket_def Let_def split: if_splits)
  let ?seal = "aead_seal cr key payload (attach_ticket_aad who) nonce"
  have aad: "attach_ticket_aad who' = attach_ticket_aad who \<longleftrightarrow> who' = who" by (simp add: attach_ticket_aad_def)
  have long: "1 + kAeadNonceBytes + kAeadTagBytes \<le> length (kAttachTicketEnvelopeVersion # ?seal)"
    using seal_length [OF laws, of key payload "attach_ticket_aad who" nonce]
    by (simp add: kAeadNonceBytes_def kAeadTagBytes_def)
  have "aead_open cr key' ?seal (attach_ticket_aad who') = (if (key', who') = (key, who) then Some payload else None)"
    using open_seal [OF laws] open_other [OF laws, of key' "attach_ticket_aad who'" key "attach_ticket_aad who"] aad
    by auto
  then show ?thesis
    using len long p by (simp add: open_attach_ticket_def token b64url_strict_encode [OF laws])
qed

subsection \<open>A ticket, for the witnesses\<close>

definition demo_claims :: claims where
  "demo_claims = \<lparr>issued_at = 100, expires_at = 200, ticket_id = replicate 32 (CHR ''a''), catalog_name = ''cat'',
     data_version_spec = '''', implementation_version = '''', options_ipc = ''''\<rparr>"

lemma demo_claims_simps [simp]:
  "issued_at demo_claims = 100" "expires_at demo_claims = 200" "ticket_id demo_claims = replicate 32 (CHR ''a'')"
  "catalog_name demo_claims = ''cat''" "data_version_spec demo_claims = ''''"
  "implementation_version demo_claims = ''''" "options_ipc demo_claims = ''''"
  by (simp_all add: demo_claims_def)

lemma demo_texts [simp]: "valid_utf8 (catalog_name demo_claims)" "valid_utf8 (data_version_spec demo_claims)"
  "valid_utf8 (implementation_version demo_claims)" "is_ticket_id (ticket_id demo_claims)" "\<not> empty_lifetime demo_claims"
  by (auto intro!: valid_utf8_ascii simp: is_ticket_id_def list_all_iff empty_lifetime_def)

lemma demo_mint: "\<exists>token. mint_attach_ticket toy_crypto ''key'' ''me'' demo_claims [] = Inr token"
proof -
  obtain p where p: "encode_attach_ticket_payload demo_claims = Inr p" "length p = 63"
    by (simp add: encode_Inr kMaxText_def)
  then show ?thesis
    by (simp add: mint_attach_ticket_def Let_def toy_crypto_def toy_frame_def length_hex kAttachTicketMaxChars_def
        kAttachTicketPrefix_def attach_ticket_aad_def del: demo_claims_simps) simp
qed

lemma minted_opens:
  assumes "crypto_laws cr" "mint_attach_ticket cr key who c nonce = Inr token"
    and "valid_utf8 (catalog_name c)" "valid_utf8 (data_version_spec c)" "valid_utf8 (implementation_version c)"
    and "real_of_int (sint (issued_at c)) \<le> now + 60" "expires_at c = 0 \<or> now < real_of_int (sint (expires_at c)) + 60"
  shows "open_attach_ticket cr key token who now = Inr c"
proof -
  have wf: "who \<noteq> []" "is_ticket_id (ticket_id c)" "catalog_name c \<noteq> []" "\<not> empty_lifetime c"
    and enc: "\<exists>p. encode_attach_ticket_payload c = Inr p"
    using assms(2) by (auto simp: mint_attach_ticket_def)
  have "valid_utf8 (ticket_id c)"
    using wf(2) by (intro valid_utf8_ascii) (auto simp: is_ticket_id_def list_all_iff is_digit_def)
  with wf assms(3-5) have "wf_claims c" by (simp add: wf_claims_def)
  moreover have "check_lifetime c now = Inr ()"
    using assms(6,7) by (auto simp: check_lifetime_def kAttachTicketClockSkewSeconds_def)
  ultimately show ?thesis
    using enc wf(1) decode_Inr [of "projr (encode_attach_ticket_payload c)" c]
    by (auto simp: open_minted [OF assms(1,2)] simp del: bindE_eq_Inr)
qed

text \<open>
  C13: A ticket opens to what was sealed. If minting returned a token for claims whose text is
  UTF-8, then within the ticket's lifetime, give or take the clock skew, opening the token
  under the same key for the same principal returns exactly those claims.
\<close>

theorem mint_open:
  assumes "crypto_laws cr" "mint_attach_ticket cr key who c nonce = Inr token"
    and "valid_utf8 (catalog_name c)" "valid_utf8 (data_version_spec c)" "valid_utf8 (implementation_version c)"
    and "real_of_int (sint (issued_at c)) \<le> now + 60" "expires_at c = 0 \<or> now < real_of_int (sint (expires_at c)) + 60"
  shows "open_attach_ticket cr key token who now = Inr c"
  using assms by (rule minted_opens)

theorem mint_open_witness:
  "\<exists>token. mint_attach_ticket toy_crypto ''key'' ''me'' demo_claims [] = Inr token \<and>
     open_attach_ticket toy_crypto ''key'' token ''me'' 250 = Inr demo_claims"
proof -
  obtain token where t: "mint_attach_ticket toy_crypto ''key'' ''me'' demo_claims [] = Inr token"
    using demo_mint by blast
  from mint_open [OF toy_crypto_laws t demo_texts(1-3), of 250] t show ?thesis by simp
qed

text \<open>
  C14: A ticket is nobody else's. For any other principal, for an anonymous caller and under any
  other key, opening a minted ticket fails as invalid, whatever its lifetime: the caller
  cannot tell another user's ticket, expired or not, from a forged one.
\<close>

theorem ticket_bound_to_principal:
  assumes "crypto_laws cr" "mint_attach_ticket cr key who c nonce = Inr token" "(key', who') \<noteq> (key, who)"
  shows "open_attach_ticket cr key' token who' now \<in> range (Inl \<circ> TicketInvalid)"
  using assms(3) by (auto simp: open_minted [OF assms(1,2)])

theorem ticket_bound_to_principal_witness:
  "\<exists>token. mint_attach_ticket toy_crypto ''key'' ''me'' demo_claims [] = Inr token \<and>
     open_attach_ticket toy_crypto ''key'' token ''you'' 999 \<in> range (Inl \<circ> TicketInvalid)"
proof -
  obtain token where t: "mint_attach_ticket toy_crypto ''key'' ''me'' demo_claims [] = Inr token"
    using demo_mint by blast
  from ticket_bound_to_principal [OF toy_crypto_laws t, of "''key''" "''you''" 999] t show ?thesis by auto
qed

text \<open>Parsing fails in one way only.\<close>

definition invalid_only :: "ticket_error + 'a \<Rightarrow> bool" where
  "invalid_only r \<longleftrightarrow> (\<forall>e. r = Inl e \<longrightarrow> e \<in> range TicketInvalid)"

lemma invalid_only_bind:
  "invalid_only m \<Longrightarrow> (\<And>x. m = Inr x \<Longrightarrow> invalid_only (f x)) \<Longrightarrow> invalid_only (bindE m f)"
  by (cases m) (auto simp: invalid_only_def)

lemma invalid_only_simps [simp]:
  "invalid_only (Inr x)" "invalid_only (Inl (TicketInvalid m))" "invalid_only (ensure b (TicketInvalid m))"
  by (auto simp: invalid_only_def ensure_def)

lemma invalid_only_readers [simp]: "invalid_only (take_bytes n r)" "invalid_only (take_le n r)" "invalid_only (take_text r)"
  unfolding take_text_def take_le_def
  by (auto simp: take_bytes_def split: prod.splits intro!: invalid_only_bind)

lemma decode_payload_invalid: "invalid_only (decode_payload p)"
  unfolding decode_payload_def Let_def by (auto split: prod.splits intro!: invalid_only_bind)

text \<open>
  Expiry is told to the owner only. When opening answers that a ticket is expired or not yet
  valid, the token had the prefix and length of a ticket, was canonical base64url of an
  envelope that the AEAD opened for this very principal, and carried a well-formed payload.
\<close>

theorem expired_implies_authentic:
  assumes "open_attach_ticket cr key token who now = Inl (TicketExpired m)"
  shows "\<exists>envelope payload c. who \<noteq> [] \<and> token = kAttachTicketPrefix @ base64url_encode cr envelope \<and>
    aead_open cr key (tl envelope) (attach_ticket_aad who) = Some payload \<and>
    encode_attach_ticket_payload c = Inr payload \<and> wf_claims c \<and> check_lifetime c now = Inl (TicketExpired m)"
proof -
  have pre: "starts_with token kAttachTicketPrefix" using assms
    by (rule contrapos_pp) (simp add: open_attach_ticket_def)
  then have split: "token = kAttachTicketPrefix @ drop (length kAttachTicketPrefix) token"
    by (metis starts_with_def append_eq_conv_conj prefix_def starts_with_prefix)
  have len: "length token \<le> kAttachTicketMaxChars" using assms
    by (rule contrapos_pp) (use pre in \<open>simp add: open_attach_ticket_def\<close>)
  obtain e where e: "b64url_strict cr (drop (length kAttachTicketPrefix) token) = Inr e"
    using assms pre len by (cases "b64url_strict cr (drop (length kAttachTicketPrefix) token)")
      (auto simp: open_attach_ticket_def b64url_strict_def Let_def split: if_splits option.splits)
  then have "base64url_encode cr e = drop (length kAttachTicketPrefix) token"
    by (auto simp: b64url_strict_def Let_def split: if_splits option.splits)
  with split have tok: "token = kAttachTicketPrefix @ base64url_encode cr e" by simp
  obtain payload where p: "aead_open cr key (tl e) (attach_ticket_aad who) = Some payload" and who: "who \<noteq> []"
    and run: "bindE (decode_payload payload) (\<lambda>c. bindE (check_lifetime c now) (\<lambda>_. Inr c)) = Inl (TicketExpired m)"
    using assms pre len e by (auto simp: open_attach_ticket_def ensure_def split: if_splits option.splits)
  have "decode_payload payload \<noteq> Inl (TicketExpired m)"
    using decode_payload_invalid [of payload] by (auto simp: invalid_only_def)
  with run obtain c where "decode_payload payload = Inr c" "check_lifetime c now = Inl (TicketExpired m)"
    by (auto simp: bindE_eq_Inl)
  with tok p who show ?thesis using decode_Inr by blast
qed

theorem expired_implies_authentic_witness:
  "\<exists>token envelope payload. open_attach_ticket toy_crypto ''key'' token ''me'' 260 =
      Inl (TicketExpired ''attach ticket has expired'') \<and>
     aead_open toy_crypto ''key'' (tl envelope) (attach_ticket_aad ''me'') = Some payload"
proof -
  obtain token where t: "mint_attach_ticket toy_crypto ''key'' ''me'' demo_claims [] = Inr token"
    using demo_mint by blast
  obtain p where p: "encode_attach_ticket_payload demo_claims = Inr p" by (simp add: encode_Inr kMaxText_def)
  have wf: "wf_claims demo_claims"
    unfolding wf_claims_def using demo_texts by (auto intro!: valid_utf8_ascii simp: list_all_iff)
  then have d: "decode_payload p = Inr demo_claims" using p decode_Inr by blast
  have "open_attach_ticket toy_crypto ''key'' token ''me'' 260 = Inl (TicketExpired ''attach ticket has expired'')"
    using d by (simp add: open_minted [OF toy_crypto_laws t] p check_lifetime_def kAttachTicketClockSkewSeconds_def)
  from expired_implies_authentic [OF this] this show ?thesis by blast
qed


subsection \<open>Redeeming\<close>

lemma restore_column_fst [simp]: "fst (restore_column c fa) = fst fa"
  by (cases fa) (simp add: restore_column_def)

lemma filter_restore:
  "filter (\<lambda>(f, a). field_name f = name) (map (restore_column c) cs) =
   map (restore_column c) (filter (\<lambda>(f, a). field_name f = name) cs)"
  by (induction cs) (auto simp: restore_column_def split: prod.splits)

lemma GetColumnByName_restore:
  assumes "GetColumnByName r name = Some a" "columns b = map (restore_column c) (columns r)"
  shows "\<exists>f. field_name f = name \<and> GetColumnByName b name = Some (snd (restore_column c (f, a)))"
proof -
  obtain f where f: "filter (\<lambda>(f, a). field_name f = name) (columns r) = [(f, a)]"
    using assms(1) by (auto simp: GetColumnByName_def split: list.splits prod.splits)
  then have "(f, a) \<in> set (filter (\<lambda>(f, a). field_name f = name) (columns r))" by simp
  then have "field_name f = name" by simp
  moreover have "GetColumnByName b name = Some (snd (restore_column c (f, a)))"
    unfolding GetColumnByName_def assms(2) filter_restore f by (simp add: split_beta)
  ultimately show ?thesis by blast
qed

lemma restore_request_Inr:
  "restore_request ipc c r = Inr b \<Longrightarrow> columns b = map (restore_column c) (columns r) \<and> num_rows b = 1"
  by (auto simp: restore_request_def Let_def split: if_splits)

lemma redeem_options_Inr:
  assumes "redeem_options ipc cr r opts t key who now = Inr b"
  shows "\<exists>k token c. key = Some k \<and> open_attach_ticket cr k token who now = Inr c \<and> restore_request ipc c r = Inr b"
proof -
  from assms have none: "other_options opts t = []" by (cases "other_options opts t") (auto simp: redeem_options_def)
  show ?thesis
  proof (cases "string_value (snd (columns opts ! t))")
    case None
    with none assms show ?thesis by (simp add: redeem_options_def)
  next
    case (Some token)
    with none assms show ?thesis by (cases key) (auto simp: redeem_options_def)
  qed
qed

lemma redeem_Some:
  assumes "redeem_attach_ticket ipc cr (Some r) key who now = Inr (Some b)"
  shows "\<exists>k token c. key = Some k \<and> open_attach_ticket cr k token who now = Inr c \<and>
    columns b = map (restore_column c) (columns r) \<and> num_rows b = 1"
proof -
  obtain e where e: "wire (get_optional_binary (Some r) ''options'') = Inr (Some e)" "e \<noteq> []"
  proof (cases "wire (get_optional_binary (Some r) ''options'')")
    case (Inr x)
    with assms that show ?thesis by (cases x) (auto simp: redeem_attach_ticket_def split: if_splits)
  qed (use assms in \<open>simp add: redeem_attach_ticket_def\<close>)
  obtain opts where o: "wire (decode_ipc ipc e) = Inr (Some opts)"
  proof (cases "wire (decode_ipc ipc e)")
    case (Inr x)
    with assms e that show ?thesis by (cases x) (auto simp: redeem_attach_ticket_def)
  qed (use assms e in \<open>simp add: redeem_attach_ticket_def\<close>)
  obtain t where "ticket_column opts = Some t" "redeem_options ipc cr r opts t key who now = Inr b"
    using assms e o by (cases "ticket_column opts") (auto simp: redeem_attach_ticket_def split: if_splits)
  then show ?thesis using redeem_options_Inr restore_request_Inr by metis
qed


definition demo_column :: "string \<Rightarrow> dtype \<Rightarrow> cell \<Rightarrow> field \<times> arr" where
  "demo_column name t c = (Field name t True, scalar t c)"

definition demo_request :: batch where
  "demo_request = \<lparr>columns = [demo_column ''name'' TString (VText ''x''), demo_column ''options'' TBinary (VText ''ipc''),
     demo_column ''data_version_spec'' TString Null, demo_column ''client_capabilities'' TInt64 (VInt 7)], num_rows = 1\<rparr>"

definition demo_ipc :: "string \<Rightarrow> bytes \<Rightarrow> wire_error + batch option" where
  "demo_ipc token _ = Inr (Some \<lparr>columns = [demo_column ''VGI_Attach_Ticket'' TString (VText token)], num_rows = 1\<rparr>)"

lemma demo_reserved: "is_reserved_attach_option ''VGI_Attach_Ticket''"
  by code_simp

lemma demo_columns:
  "GetColumnByName demo_request ''name'' = Some (scalar TString (VText ''x''))"
  "GetColumnByName demo_request ''options'' = Some (scalar TBinary (VText ''ipc''))"
  "GetColumnByName demo_request ''data_version_spec'' = Some (scalar TString Null)"
  by (simp_all add: demo_request_def demo_column_def GetColumnByName_def)

lemma demo_redeem:
  assumes "open_attach_ticket toy_crypto ''key'' token ''me'' 250 = Inr demo_claims"
  shows "\<exists>b. redeem_attach_ticket (demo_ipc token) toy_crypto (Some demo_request) (Some ''key'') ''me'' 250 = Inr (Some b)"
proof -
  have "get_optional_binary (Some demo_request) ''options'' = Inr (Some ''ipc'')"
    by (simp add: get_optional_binary_def has_column_def column_def demo_columns typed_column_def at0_def scalar_def)
  with assms show ?thesis
    by (simp add: redeem_attach_ticket_def wire_def decode_ipc_def demo_ipc_def ticket_column_def redeem_options_def
        other_options_def string_value_def demo_column_def demo_reserved restore_request_def demo_request_def
        restore_column_def scalar_def Let_def)
qed


end
