(* ===== verification/Attach_Service.thy ===== *)
theory Attach_Service
  imports Attach_Ticket_Properties
begin

section \<open>The service that seals tickets\<close>

text \<open>
  \<^verbatim>\<open>seal_attach\<close> and \<^verbatim>\<open>attach_ticket_max_ttl\<close> of \<^verbatim>\<open>src/src/attach_ticket_service.cpp\<close>. The clock, the
  random ticket id and the nonce are arguments, and so is the lookup of what a catalog declares.
  Sums and products of \<^verbatim>\<open>int64_t\<close> go through \<open>int64\<close>, which is an undefined result outside the
  range. The answer is the ticket and its expiry in microseconds.
\<close>

record option_spec =
  spec_name :: string
  spec_required :: bool

record ticket_answer =
  ticket :: string
  expires_micros :: "int option"

definition int64 :: "int \<Rightarrow> ticket_error + int" where
  "int64 i = (if int64_min \<le> i \<and> i \<le> int64_max then Inr i else Inl (WireError Undefined))"

subsection \<open>Validation\<close>

text \<open>The names of the options, and the violation a record of several rows is.\<close>

definition option_names :: "batch option \<Rightarrow> (string \<times> string) list \<times> string list" where
  "option_names options =
     (case options of
        None \<Rightarrow> ([], [])
      | Some b \<Rightarrow>
          if 1 < num_rows b then ([(''options'', ''must be a one-row record'')], [])
          else if num_rows b = 1 then ([], map (field_name \<circ> fst) (columns b))
          else ([], []))"

definition catalog_violations ::
    "string \<Rightarrow> option_spec list option \<Rightarrow> string list \<Rightarrow> (string \<times> string) list" where
  "catalog_violations catalog specs names =
     (case specs of
        None \<Rightarrow> [(''catalog_name'', ''no catalog named '' @ quoted catalog)]
      | Some ss \<Rightarrow>
          let known = set (map (lower \<circ> spec_name) ss); supplied = set (map lower names) in
          concat (map (\<lambda>name.
              if is_reserved_attach_option name then [(''options.'' @ name, ''a ticket cannot seal another ticket'')]
              else if lower name \<notin> known then [(''options.'' @ name, ''not an attach option this catalog declares'')]
              else []) names) @
          map (\<lambda>s. (''options.'' @ spec_name s, ''required''))
            (filter (\<lambda>s. spec_required s \<and> lower (spec_name s) \<notin> supplied) ss))"

definition ticket_lifetime :: "int \<Rightarrow> int option \<Rightarrow> int option" where
  "ticket_lifetime ttl cap =
     (if ttl = 0 then cap else Some (case cap of None \<Rightarrow> ttl | Some c \<Rightarrow> min ttl c))"

definition as_invalid_request :: "ticket_error + 'a \<Rightarrow> ticket_error + 'a" where
  "as_invalid_request r =
     (case r of
        Inl (InvalidArgument m) \<Rightarrow> Inl (InvalidRequest ''seal_attach request is invalid'' [(''request'', m)])
      | _ \<Rightarrow> r)"

text \<open>The claims of a request that has passed validation.\<close>

definition request_claims ::
    "int \<Rightarrow> bytes \<Rightarrow> int option \<Rightarrow> bytes \<Rightarrow> bytes \<Rightarrow> bytes \<Rightarrow> bytes \<Rightarrow> ticket_error + claims" where
  "request_claims now tid lifetime catalog data_version implementation options =
     bindE (case lifetime of None \<Rightarrow> Inr 0 | Some l \<Rightarrow> int64 (now + l)) (\<lambda>expires.
     Inr \<lparr>issued_at = word_of_int now, expires_at = word_of_int expires, ticket_id = tid,
          catalog_name = catalog, data_version_spec = data_version,
          implementation_version = implementation, options_ipc = options\<rparr>)"

definition seal_attach ::
    "(bytes \<Rightarrow> wire_error + batch option) \<Rightarrow> crypto \<Rightarrow> (string \<Rightarrow> option_spec list option) \<Rightarrow> bytes \<Rightarrow> int option \<Rightarrow>
     batch option \<Rightarrow> auth_context \<Rightarrow> int \<Rightarrow> bytes \<Rightarrow> bytes \<Rightarrow> ticket_error + ticket_answer" where
  "seal_attach ipc cr declared key cap req auth now tid nonce =
     (let who = attach_ticket_principal auth in
      if who = [] then Inl (ActionDenied ''an anonymous caller cannot seal an attach ticket'')
      else
        bindE (wire (get_ipc ipc req ''request'')) (\<lambda>request.
        bindE (ensure (request \<noteq> None) (InvalidArgument ''seal_attach: empty request'')) (\<lambda>_.
        bindE (wire (get_string request ''catalog_name'')) (\<lambda>catalog.
        bindE (wire (get_optional_binary request ''options'')) (\<lambda>encoded.
        bindE (wire (get_string request ''data_version_spec'')) (\<lambda>data_version.
        bindE (wire (get_string request ''implementation_version'')) (\<lambda>implementation.
        bindE (wire (get_int64 request ''ttl_seconds'')) (\<lambda>ttl.
        bindE (case encoded of None \<Rightarrow> Inr None | Some e \<Rightarrow> wire (decode_ipc ipc e)) (\<lambda>options.
        let names = snd (option_names options);
            options_ipc = (if names \<noteq> [] then the encoded else []);
            violations =
              (if ttl < 0 then [(''ttl_seconds'', ''must be 0 (as long as allowed) or positive'')] else []) @
              fst (option_names options) @
              catalog_violations catalog (declared catalog) names @
              (if kAttachTicketMaxOptionsBytes < length options_ipc
               then [(''options'', show_nat (length options_ipc) @ '' bytes; a ticket carries at most 16384'')] else [])
        in if violations \<noteq> [] then Inl (InvalidRequest ''seal_attach request is invalid'' violations)
           else
             bindE (request_claims now tid (ticket_lifetime ttl cap) catalog data_version implementation options_ipc) (\<lambda>c.
             bindE (as_invalid_request (mint_attach_ticket cr key who c nonce)) (\<lambda>token.
             bindE (if expires_at c = 0 then Inr None
                    else bindE (int64 (sint (expires_at c) * 1000000)) (\<lambda>m. Inr (Some m))) (\<lambda>micros.
             Inr \<lparr>ticket = token, expires_micros = micros\<rparr>))))))))))))"

subsection \<open>The configured ceiling\<close>

text \<open>What \<^verbatim>\<open>strtoll\<close> leaves unread; the whole text when it found no digits.\<close>

definition strtoll_rest :: "string \<Rightarrow> string" where
  "strtoll_rest s =
     (let t = dropWhile is_space s;
          u = (case t of [] \<Rightarrow> [] | c # r \<Rightarrow> if c = CHR ''-'' \<or> c = CHR ''+'' then r else t)
      in if takeWhile is_digit u = [] then s else dropWhile is_digit u)"

definition blank :: "char \<Rightarrow> bool" where
  "blank c \<longleftrightarrow> c = CHR '' '' \<or> c = CHR 0x09"

definition attach_ticket_max_ttl :: "string \<Rightarrow> int option \<Rightarrow> string option \<Rightarrow> ticket_error + int option" where
  "attach_ticket_max_ttl variable configured env =
     (case configured of
        Some c \<Rightarrow> Inr (Some c)
      | None \<Rightarrow> (case env of
          None \<Rightarrow> Inr None
        | Some raw \<Rightarrow>
            let text = rev (dropWhile blank (rev (dropWhile blank raw))) in
            if text = [] then Inr None
            else if strtoll_rest text = text \<or> strtoll_rest text \<noteq> [] \<or> strtoll text \<le> 0
            then Inl (InvalidArgument (variable @ ''='' @ quoted text @ '' must be a positive integer''))
            else Inr (Some (strtoll text))))"

subsection \<open>What is sealed\<close>

lemma int64_Inr [simp]: "int64 i = Inr j \<longleftrightarrow> j = i \<and> int64_min \<le> i \<and> i \<le> int64_max"
  by (auto simp: int64_def)

lemma sint_int64: "int64_min \<le> i \<Longrightarrow> i \<le> int64_max \<Longrightarrow> sint (word_of_int i :: 64 word) = i"
  by (simp add: int64_min_def int64_max_def signed_of_int signed_take_bit_int_eq_self)

lemma word64_eq_0: "int64_min \<le> i \<Longrightarrow> i \<le> int64_max \<Longrightarrow> (word_of_int i :: 64 word) = 0 \<longleftrightarrow> i = 0"
  using sint_int64 [of i] by (metis sint_0 of_int_0)

lemma request_claims_Inr:
  assumes "request_claims now t l cat dv im opts = Inr c"
  shows "\<exists>e. c = \<lparr>issued_at = word_of_int now, expires_at = word_of_int e, ticket_id = t, catalog_name = cat,
      data_version_spec = dv, implementation_version = im, options_ipc = opts\<rparr> \<and>
    int64_min \<le> e \<and> e \<le> int64_max \<and> (case l of None \<Rightarrow> e = 0 | Some d \<Rightarrow> e = now + d)"
  using assms by (auto simp: request_claims_def int64_min_def int64_max_def split: option.splits)

text \<open>
  A ticket never outlives the ceiling. Whatever lifetime a caller asks for, the expiry the
  ticket is sealed with is at most the ceiling after its issue when the worker has one; it is
  unlimited only when the caller asked for 0 and the worker has no ceiling.
\<close>

theorem lifetime_capped:
  assumes "0 \<le> ttl" "cap = None \<or> 0 < the cap" "0 < now"
    and "request_claims now tid (ticket_lifetime ttl cap) catalog dv im opts = Inr c"
  shows "(expires_at c = 0 \<longleftrightarrow> ttl = 0 \<and> cap = None) \<and>
    (\<forall>m. cap = Some m \<longrightarrow> sint (expires_at c) \<le> now + m) \<and>
    (ttl \<noteq> 0 \<longrightarrow> sint (expires_at c) \<le> now + ttl) \<and> (expires_at c \<noteq> 0 \<longrightarrow> now < sint (expires_at c))"
proof -
  obtain e where e: "expires_at c = word_of_int e" "int64_min \<le> e" "e \<le> int64_max"
    "case ticket_lifetime ttl cap of None \<Rightarrow> e = 0 | Some d \<Rightarrow> e = now + d"
    using request_claims_Inr [OF assms(4)] by auto
  then have "sint (expires_at c) = e" "expires_at c = 0 \<longleftrightarrow> e = 0" by (simp_all add: sint_int64 word64_eq_0)
  with e(4) assms(1-3) show ?thesis by (auto simp: ticket_lifetime_def split: option.splits if_splits)
qed

theorem lifetime_capped_witness:
  "\<exists>c. request_claims 100 ''id'' (ticket_lifetime 5000 (Some 3600)) ''cat'' '''' '''' '''' = Inr c \<and>
     sint (expires_at c) \<le> 100 + 3600 \<and> expires_at c \<noteq> 0"
proof -
  obtain c where c: "request_claims 100 ''id'' (ticket_lifetime 5000 (Some 3600)) ''cat'' '''' '''' '''' = Inr c"
    by (simp add: request_claims_def ticket_lifetime_def int64_min_def int64_max_def)
  from lifetime_capped [OF _ _ _ c] c show ?thesis by auto
qed

text \<open>
  A huge lifetime overflows. With no ceiling configured, a request for the largest 64-bit
  lifetime passes validation and the sum \<^verbatim>\<open>issued_at + *lifetime\<close> is outside the 64-bit range; a
  request whose sum still fits can overflow in the conversion to microseconds.
\<close>

theorem unbounded_ttl_overflows:
  "request_claims now tid (ticket_lifetime int64_max None) catalog dv im opts =
     (if now \<le> 0 then request_claims now tid (Some int64_max) catalog dv im opts else Inl (WireError Undefined)) \<and>
   int64 (1700000000 + 9300000000000) = Inr 9301700000000 \<and>
   int64 (9301700000000 * 1000000) = Inl (WireError Undefined)"
  by (auto simp: request_claims_def ticket_lifetime_def int64_def int64_max_def int64_min_def)


subsection \<open>What a sealed ticket opens to\<close>

lemma as_invalid_request_Inr [simp]: "as_invalid_request r = Inr x \<longleftrightarrow> r = Inr x"
  by (auto simp: as_invalid_request_def split: sum.splits ticket_error.splits)

lemma wire_Inr [simp]: "wire r = Inr x \<longleftrightarrow> r = Inr x"
  by (auto simp: wire_def split: sum.splits)

lemma wire_decoded:
  "(case e of None \<Rightarrow> Inr None | Some b \<Rightarrow> wire (decode_ipc ipc b)) = Inr x \<longleftrightarrow>
   (case e of None \<Rightarrow> Inr None | Some b \<Rightarrow> decode_ipc ipc b) = Inr x"
  by (cases e) auto

lemma catalog_violations_empty:
  "catalog_violations catalog specs names = [] \<longleftrightarrow>
     (\<exists>ss. specs = Some ss \<and>
        (\<forall>n \<in> set names. \<not> is_reserved_attach_option n \<and> (\<exists>s \<in> set ss. lower (spec_name s) = lower n)) \<and>
        (\<forall>s \<in> set ss. spec_required s \<longrightarrow> (\<exists>n \<in> set names. lower n = lower (spec_name s))))"
proof (cases specs)
  case (Some ss)
  have known: "lower n \<in> set (map (lower \<circ> spec_name) ss) \<longleftrightarrow> (\<exists>s \<in> set ss. lower (spec_name s) = lower n)" for n
    by force
  have supplied: "lower (spec_name s) \<in> set (map lower names) \<longleftrightarrow> (\<exists>n \<in> set names. lower n = lower (spec_name s))"
    for s :: option_spec
    unfolding set_map image_iff by metis
  have if_Nil: "(if b then [x] else if c then [y] else []) = [] \<longleftrightarrow> \<not> b \<and> \<not> c" for b c and x y :: "string \<times> string"
    by simp
  show ?thesis
    unfolding catalog_violations_def Let_def Some option.case append_is_Nil_conv concat_eq_Nil_conv
      map_is_Nil_conv filter_empty_conv known supplied by (simp only: set_map ball_simps if_Nil) simp
qed (simp add: catalog_violations_def)


text \<open>
  C16: A sealed request opens to itself. When \<^verbatim>\<open>seal_attach\<close> answers, the caller is authenticated, the
  catalog exists, every supplied option is declared and none is the reserved one, every
  required option is supplied, and the ticket opens for the same caller, within its lifetime, to
  claims that carry the requested catalog and the options exactly as they were sent.
\<close>

theorem sealed_request_opens:
  assumes "crypto_laws cr" "seal_attach ipc cr declared key cap req auth now tid nonce = Inr ans"
    and "get_ipc ipc req ''request'' = Inr request" "get_string request ''catalog_name'' = Inr catalog"
    and "get_optional_binary request ''options'' = Inr encoded"
    and "get_string request ''data_version_spec'' = Inr dv" "get_string request ''implementation_version'' = Inr im"
    and "valid_utf8 catalog" "valid_utf8 dv" "valid_utf8 im" "int64_min \<le> now" "now \<le> int64_max"
  shows "\<exists>options c ss. (case encoded of None \<Rightarrow> Inr None | Some e \<Rightarrow> decode_ipc ipc e) = Inr options \<and>
    authenticated auth \<and>
    open_attach_ticket cr key (ticket ans) (attach_ticket_principal auth) (real_of_int now) = Inr c \<and>
    catalog_name c = catalog \<and> data_version_spec c = dv \<and> implementation_version c = im \<and>
    options_ipc c = (if snd (option_names options) = [] then [] else the encoded) \<and>
    declared catalog = Some ss \<and>
    (\<forall>n \<in> set (snd (option_names options)).
       \<not> is_reserved_attach_option n \<and> (\<exists>s \<in> set ss. lower (spec_name s) = lower n)) \<and>
    (\<forall>s \<in> set ss. spec_required s \<longrightarrow> (\<exists>n \<in> set (snd (option_names options)). lower n = lower (spec_name s)))"
proof -
  obtain ttl options c where
    who: "attach_ticket_principal auth \<noteq> []"
    and opts: "(case encoded of None \<Rightarrow> Inr None | Some e \<Rightarrow> decode_ipc ipc e) = Inr options"
    and viol: "catalog_violations catalog (declared catalog) (snd (option_names options)) = []"
    and claims: "request_claims now tid (ticket_lifetime ttl cap) catalog dv im
        (if snd (option_names options) \<noteq> [] then the encoded else []) = Inr c"
    and mint: "mint_attach_ticket cr key (attach_ticket_principal auth) c nonce = Inr (ticket ans)"
    using assms(2) by (auto simp: seal_attach_def Let_def assms(3-7) wire_decoded split: if_splits)
  obtain ss where ss: "declared catalog = Some ss"
    "\<forall>n \<in> set (snd (option_names options)). \<not> is_reserved_attach_option n \<and> (\<exists>s \<in> set ss. lower (spec_name s) = lower n)"
    "\<forall>s \<in> set ss. spec_required s \<longrightarrow> (\<exists>n \<in> set (snd (option_names options)). lower n = lower (spec_name s))"
    using viol unfolding catalog_violations_empty by blast
  have c: "catalog_name c = catalog" "data_version_spec c = dv" "implementation_version c = im"
    "options_ipc c = (if snd (option_names options) = [] then [] else the encoded)" "sint (issued_at c) = now"
    using request_claims_Inr [OF claims] sint_int64 [OF assms(11,12)] by auto
  have "\<not> empty_lifetime c" using mint by (auto simp: mint_attach_ticket_def)
  then have "expires_at c = 0 \<or> real_of_int now < real_of_int (sint (expires_at c)) + 60"
    unfolding empty_lifetime_def using c(5) by linarith
  then have "open_attach_ticket cr key (ticket ans) (attach_ticket_principal auth) (real_of_int now) = Inr c"
    using c assms(8-10) by (intro minted_opens [OF assms(1) mint]) simp_all
  moreover have "authenticated auth" using who by (simp add: attach_ticket_principal_def split: if_splits)
  ultimately show ?thesis using opts ss c by blast
qed


definition demo_seal :: batch where
  "demo_seal = \<lparr>columns = [demo_column ''catalog_name'' TString (VText ''cat''), demo_column ''options'' TBinary Null,
     demo_column ''data_version_spec'' TString (VText ''''), demo_column ''implementation_version'' TString (VText ''''),
     demo_column ''ttl_seconds'' TInt64 (VInt 100)], num_rows = 1\<rparr>"

definition demo_call :: batch where
  "demo_call = \<lparr>columns = [demo_column ''request'' TBinary (VText ''ipc'')], num_rows = 1\<rparr>"

definition demo_seal_attach :: "ticket_error + ticket_answer" where
  "demo_seal_attach = seal_attach (\<lambda>_. Inr (Some demo_seal)) toy_crypto (\<lambda>n. if n = ''cat'' then Some [] else None)
     ''key'' None (Some demo_call) \<lparr>authenticated = True, auth_domain = ''jwt'', auth_principal = Some ''me''\<rparr>
     100 (replicate 32 (CHR ''a'')) []"

lemma demo_fields:
  "get_ipc (\<lambda>_. Inr (Some demo_seal)) (Some demo_call) ''request'' = Inr (Some demo_seal)"
  "get_string (Some demo_seal) ''catalog_name'' = Inr ''cat''"
  "get_optional_binary (Some demo_seal) ''options'' = Inr None"
  "get_string (Some demo_seal) ''data_version_spec'' = Inr ''''"
  "get_string (Some demo_seal) ''implementation_version'' = Inr ''''"
  "get_int64 (Some demo_seal) ''ttl_seconds'' = Inr 100"
  by code_simp+

lemma demo_seals: "\<exists>ans. demo_seal_attach = Inr ans"
proof -
  have c: "request_claims 100 (replicate 32 (CHR ''a'')) (ticket_lifetime 100 None) ''cat'' '''' '''' '''' = Inr demo_claims"
    by (simp add: request_claims_def ticket_lifetime_def demo_claims_def int64_min_def int64_max_def)
  obtain token where "mint_attach_ticket toy_crypto ''key'' ''me'' demo_claims [] = Inr token" using demo_mint by blast
  then show ?thesis
    by (simp add: demo_seal_attach_def seal_attach_def demo_fields attach_ticket_principal_def wire_def option_names_def
        catalog_violations_def Let_def c as_invalid_request_def kAttachTicketMaxOptionsBytes_def int64_def
        int64_min_def int64_max_def)
qed

theorem sealed_request_opens_witness:
  "\<exists>ans c. demo_seal_attach = Inr ans \<and>
     open_attach_ticket toy_crypto ''key'' (ticket ans) ''me'' 100 = Inr c \<and> catalog_name c = ''cat''"
proof -
  obtain ans where ans: "demo_seal_attach = Inr ans" using demo_seals by blast
  have "valid_utf8 ''cat''" "valid_utf8 ''''" using demo_texts(1,2) by simp_all
  with sealed_request_opens [OF toy_crypto_laws ans [unfolded demo_seal_attach_def] demo_fields(1-5)] ans show ?thesis
    by (auto simp: attach_ticket_principal_def int64_min_def int64_max_def)
qed

end
