(* ===== verification/Opaque_Seal.thy ===== *)
theory Opaque_Seal
  imports Crypto Wire_Properties
begin

section \<open>Sealed attach and transaction values\<close>

text \<open>
  \<^verbatim>\<open>src/src/opaque_seal.cpp\<close>: the values a client keeps between calls, sealed for the caller on a
  transport that authenticates, and the opening of every such value in a request before a
  handler runs. Records nested as IPC are read by the parameter \<open>ipc\<close> and written by \<open>encode\<close>; the
  C++ recursion over them has no bound of its own, so \<open>open_batch\<close> takes fuel and
  \<open>open_batch_fuel\<close> shows how much is enough. Pointer equality of a batch with the one opened from
  it is the flag \<open>changed\<close>.
\<close>

datatype opaque_error = NotRecognized string | OpaqueWire wire_error | NestedTooDeep

definition kAttachEnvelopeVersion :: char where
  "kAttachEnvelopeVersion = CHR 0x02"

definition kTransactionEnvelopeVersion :: char where
  "kTransactionEnvelopeVersion = CHR 0x02"

definition kAttachField :: string where
  "kAttachField = ''attach_opaque_data''"

definition kTransactionField :: string where
  "kTransactionField = ''transaction_opaque_data''"

subsection \<open>Envelopes\<close>

definition reject :: "string \<Rightarrow> opaque_error + 'a" where
  "reject field = Inl (NotRecognized (field @ '' not recognized''))"

definition seal_envelope :: "crypto \<Rightarrow> bytes \<Rightarrow> char \<Rightarrow> bytes \<Rightarrow> bytes \<Rightarrow> bytes \<Rightarrow> bytes" where
  "seal_envelope cr key version plaintext aad nonce = version # aead_seal cr key plaintext aad nonce"

definition open_envelope ::
    "crypto \<Rightarrow> bytes \<Rightarrow> char \<Rightarrow> bytes \<Rightarrow> bytes \<Rightarrow> string \<Rightarrow> opaque_error + bytes" where
  "open_envelope cr key version envelope aad field =
     (if length envelope < 1 + kAeadNonceBytes + kAeadTagBytes \<or> hd envelope \<noteq> version then reject field
      else case aead_open cr key (drop 1 envelope) aad of
          None \<Rightarrow> reject field
        | Some opened \<Rightarrow> Inr opened)"

definition identity_tail :: "auth_context \<Rightarrow> bytes" where
  "identity_tail auth =
     (if \<not> authenticated auth then NUL # ''anonymous''
      else CHR 0x01 # auth_domain auth @ [NUL] @
           (case auth_principal auth of None \<Rightarrow> '''' | Some p \<Rightarrow> p))"

definition attach_aad :: "auth_context \<Rightarrow> bytes" where
  "attach_aad auth = ''vgi.attach_opaque_data.v1'' @ [NUL] @ identity_tail auth"

definition transaction_aad :: "auth_context \<Rightarrow> bytes \<Rightarrow> bytes" where
  "transaction_aad auth attach_envelope =
     ''vgi.transaction_opaque_data.v1'' @ [NUL] @ identity_tail auth @ [NUL] @ attach_envelope"

definition seal_attach_value :: "crypto \<Rightarrow> bytes \<Rightarrow> bytes \<Rightarrow> auth_context \<Rightarrow> bytes \<Rightarrow> bytes" where
  "seal_attach_value cr key plaintext auth nonce =
     seal_envelope cr key kAttachEnvelopeVersion plaintext (attach_aad auth) nonce"

definition open_attach :: "crypto \<Rightarrow> bytes \<Rightarrow> bytes \<Rightarrow> auth_context \<Rightarrow> opaque_error + bytes" where
  "open_attach cr key envelope auth =
     open_envelope cr key kAttachEnvelopeVersion envelope (attach_aad auth) kAttachField"

definition seal_transaction :: "crypto \<Rightarrow> bytes \<Rightarrow> bytes \<Rightarrow> auth_context \<Rightarrow> bytes \<Rightarrow> bytes \<Rightarrow> bytes" where
  "seal_transaction cr key plaintext auth attach_envelope nonce =
     seal_envelope cr key kTransactionEnvelopeVersion plaintext (transaction_aad auth attach_envelope) nonce"

definition open_transaction ::
    "crypto \<Rightarrow> bytes \<Rightarrow> bytes \<Rightarrow> auth_context \<Rightarrow> bytes \<Rightarrow> opaque_error + bytes" where
  "open_transaction cr key envelope auth attach_envelope =
     open_envelope cr key kTransactionEnvelopeVersion envelope (transaction_aad auth attach_envelope)
       kTransactionField"

definition short_hash :: "crypto \<Rightarrow> bytes \<Rightarrow> string" where
  "short_hash cr v = take 12 (hex (sha256 cr (hex v)))"

subsection \<open>Opening a request\<close>

definition is_binary_column :: "arr \<Rightarrow> bool" where
  "is_binary_column a \<longleftrightarrow> arr_type a = TBinary"

definition one_binary :: "bytes \<Rightarrow> arr" where
  "one_binary v = \<lparr>arr_type = TBinary, arr_cells = [VText v], arr_dictionary = []\<rparr>"

definition binary_at :: "arr \<Rightarrow> opaque_error + bytes option" where
  "binary_at a =
     (case arr_cells a of
        [] \<Rightarrow> Inl (OpaqueWire Undefined)
      | c # _ \<Rightarrow> Inr (if c = Null then None else Some (text_of c)))"

definition check_field :: "batch \<Rightarrow> string \<Rightarrow> opaque_error + unit" where
  "check_field b field =
     (case GetColumnByName b field of
        None \<Rightarrow> Inr ()
      | Some a \<Rightarrow> if num_rows b \<noteq> 1 \<or> \<not> is_binary_column a then reject field else Inr ())"

text \<open>The attach value at this level: the one sent here, or the enclosing one.\<close>

definition attach_at :: "batch \<Rightarrow> bytes option \<Rightarrow> opaque_error + bytes option \<times> bytes option" where
  "attach_at b outer =
     (case GetColumnByName b kAttachField of
        None \<Rightarrow> Inr (outer, None)
      | Some a \<Rightarrow>
          if \<not> is_binary_column a then Inr (outer, None)
          else bindE (binary_at a) (\<lambda>sent. Inr (if sent = None then outer else sent, sent)))"

text \<open>
  One column. \<open>rec\<close> opens a nested record; the result is the new column, whether it changed, and
  the call's first attach value.
\<close>

definition open_column ::
    "(batch option \<Rightarrow> bytes option \<Rightarrow> bytes option \<Rightarrow> opaque_error + batch option \<times> bool \<times> bytes option) \<Rightarrow>
     (bytes \<Rightarrow> wire_error + batch option) \<Rightarrow> (batch option \<Rightarrow> bytes) \<Rightarrow> crypto \<Rightarrow> bytes \<Rightarrow> auth_context \<Rightarrow>
     bytes option \<Rightarrow> bytes option \<Rightarrow> field \<times> arr \<Rightarrow> opaque_error + (field \<times> arr) \<times> bool \<times> bytes option" where
  "open_column rec ipc encode cr key auth attach_here sent fa =
     (case fa of (f, a) \<Rightarrow>
      if \<not> is_binary_column a then Inr ((f, a), False, sent)
      else bindE (binary_at a) (\<lambda>sealed.
        case sealed of
          None \<Rightarrow> Inr ((f, a), False, sent)
        | Some v \<Rightarrow>
            if field_name f = kAttachField
            then bindE (open_attach cr key v auth) (\<lambda>p. Inr ((f, one_binary p), True, sent))
            else if field_name f = kTransactionField
            then (case attach_here of
                None \<Rightarrow> reject kTransactionField
              | Some e \<Rightarrow> bindE (open_transaction cr key v auth e) (\<lambda>p. Inr ((f, one_binary p), True, sent)))
            else if field_name f = ''request'' \<or> field_name f = ''bind_call''
            then (case decode_ipc ipc v of
                Inl e \<Rightarrow> Inl (OpaqueWire e)
              | Inr inner \<Rightarrow>
                  bindE (rec inner attach_here sent) (\<lambda>(opened, changed, sent).
                  Inr (if changed then ((f, one_binary (encode opened)), True, sent) else ((f, a), False, sent))))
            else Inr ((f, a), False, sent)))"

fun open_columns ::
    "(bytes option \<Rightarrow> field \<times> arr \<Rightarrow> opaque_error + (field \<times> arr) \<times> bool \<times> bytes option) \<Rightarrow>
     bytes option \<Rightarrow> (field \<times> arr) list \<Rightarrow> opaque_error + (field \<times> arr) list \<times> bool \<times> bytes option" where
  "open_columns opening sent [] = Inr ([], False, sent)"
| "open_columns opening sent (c # cs) =
     bindE (opening sent c) (\<lambda>(c, changed, sent).
     bindE (open_columns opening sent cs) (\<lambda>(cs, more, sent).
     Inr (c # cs, changed \<or> more, sent)))"

primrec open_batch ::
    "nat \<Rightarrow> (bytes \<Rightarrow> wire_error + batch option) \<Rightarrow> (batch option \<Rightarrow> bytes) \<Rightarrow> crypto \<Rightarrow> bytes \<Rightarrow> auth_context \<Rightarrow>
     batch option \<Rightarrow> bytes option \<Rightarrow> bytes option \<Rightarrow> opaque_error + batch option \<times> bool \<times> bytes option" where
  "open_batch 0 ipc encode cr key auth batch outer sent = Inl NestedTooDeep"
| "open_batch (Suc n) ipc encode cr key auth batch outer sent =
     (case batch of
        None \<Rightarrow> Inr (None, False, sent)
      | Some b \<Rightarrow>
          bindE (check_field b kAttachField) (\<lambda>_.
          bindE (check_field b kTransactionField) (\<lambda>_.
          if num_rows b \<noteq> 1 then Inr (Some b, False, sent)
          else
            bindE (attach_at b outer) (\<lambda>(attach_here, here).
            let sent = (if sent = None then here else sent) in
            bindE (open_columns (open_column (open_batch n ipc encode cr key auth) ipc encode cr key auth attach_here)
              sent (columns b)) (\<lambda>(cols, changed, sent).
            Inr (if changed then Some \<lparr>columns = cols, num_rows = 1\<rparr> else Some b, changed, sent))))))"

subsection \<open>A call\<close>

record call =
  call_key :: "bytes option"
  call_auth :: auth_context
  attach_as_sent :: "bytes option"

definition call_open ::
    "nat \<Rightarrow> (bytes \<Rightarrow> wire_error + batch option) \<Rightarrow> (batch option \<Rightarrow> bytes) \<Rightarrow> crypto \<Rightarrow> call \<Rightarrow> batch option \<Rightarrow>
     opaque_error + batch option \<times> call" where
  "call_open fuel ipc encode cr c request =
     (case (call_key c, request) of
        (Some key, Some b) \<Rightarrow>
          bindE (open_batch fuel ipc encode cr key (call_auth c) request None (attach_as_sent c)) (\<lambda>(opened, changed, sent).
          Inr (opened, c\<lparr>attach_as_sent := sent\<rparr>))
      | _ \<Rightarrow> Inr (request, c))"

definition call_seal_attach :: "crypto \<Rightarrow> call \<Rightarrow> bytes \<Rightarrow> bytes \<Rightarrow> bytes" where
  "call_seal_attach cr c plaintext nonce =
     (case call_key c of None \<Rightarrow> plaintext | Some key \<Rightarrow> seal_attach_value cr key plaintext (call_auth c) nonce)"

definition call_seal_transaction :: "crypto \<Rightarrow> call \<Rightarrow> bytes \<Rightarrow> bytes \<Rightarrow> bytes" where
  "call_seal_transaction cr c plaintext nonce =
     (case call_key c of
        None \<Rightarrow> plaintext
      | Some key \<Rightarrow> seal_transaction cr key plaintext (call_auth c)
          (case attach_as_sent c of None \<Rightarrow> '''' | Some e \<Rightarrow> e) nonce)"

text \<open>The thread's current call is a stack: a constructor pushes, a destructor pops.\<close>

definition enter_call :: "bytes option \<Rightarrow> auth_context \<Rightarrow> call list \<Rightarrow> call list" where
  "enter_call key auth calls = \<lparr>call_key = key, call_auth = auth, attach_as_sent = None\<rparr> # calls"

definition leave_call :: "call list \<Rightarrow> call list" where
  "leave_call calls = tl calls"

definition seal_attach_out :: "crypto \<Rightarrow> call list \<Rightarrow> bytes \<Rightarrow> bytes \<Rightarrow> bytes" where
  "seal_attach_out cr calls plaintext nonce =
     (case calls of [] \<Rightarrow> plaintext | c # _ \<Rightarrow> call_seal_attach cr c plaintext nonce)"

definition seal_transaction_out :: "crypto \<Rightarrow> call list \<Rightarrow> bytes \<Rightarrow> bytes \<Rightarrow> bytes" where
  "seal_transaction_out cr calls plaintext nonce =
     (case calls of [] \<Rightarrow> plaintext | c # _ \<Rightarrow> call_seal_transaction cr c plaintext nonce)"

subsection \<open>Whose an envelope is\<close>

text \<open>Who a caller is to the associated data: a missing principal and an empty one are the same.\<close>

definition identity :: "auth_context \<Rightarrow> (string \<times> string) option" where
  "identity auth =
     (if authenticated auth
      then Some (auth_domain auth, case auth_principal auth of None \<Rightarrow> '''' | Some p \<Rightarrow> p) else None)"

lemma NUL_separates:
  "NUL \<notin> set x \<Longrightarrow> NUL \<notin> set y \<Longrightarrow> x @ NUL # s = y @ NUL # t \<longleftrightarrow> x = y \<and> s = t"
  by (auto simp: append_eq_append_conv2 append_eq_Cons_conv Cons_eq_append_conv)

definition plain_domain :: "auth_context \<Rightarrow> bool" where
  "plain_domain auth \<longleftrightarrow> NUL \<notin> set (auth_domain auth)"

definition plain_identity :: "auth_context \<Rightarrow> bool" where
  "plain_identity auth \<longleftrightarrow> plain_domain auth \<and> NUL \<notin> set (case auth_principal auth of None \<Rightarrow> '''' | Some p \<Rightarrow> p)"

lemma identity_tail_inject:
  assumes "plain_domain a" "plain_domain b"
  shows "identity_tail a = identity_tail b \<longleftrightarrow> identity a = identity b"
  using assms by (auto simp: identity_tail_def identity_def plain_domain_def NUL_separates)

lemma transaction_tail_inject:
  assumes "plain_identity a" "plain_identity b"
  shows "identity_tail a @ NUL # e = identity_tail b @ NUL # e' \<longleftrightarrow> identity a = identity b \<and> e = e'"
  using assms
  by (auto simp: identity_tail_def identity_def plain_identity_def plain_domain_def NUL_separates)

lemma open_sealed:
  assumes "crypto_laws cr"
  shows "open_envelope cr key' v (seal_envelope cr key v p aad n) aad' field =
    (if key' = key \<and> aad' = aad then Inr p else reject field)"
  using seal_length [OF assms, of key p aad n] open_seal [OF assms, of key p aad n]
    open_other [OF assms, of key' aad' key aad p n]
  by (auto simp: open_envelope_def seal_envelope_def kAeadNonceBytes_def kAeadTagBytes_def)

text \<open>
  C18: A sealed value belongs to one caller. An attach value opens, to what was sealed, exactly for
  the key and the identity it was sealed for, and every other caller gets the one uniform
  error; a transaction opens exactly for the same key and identity beside the same attach
  envelope. (Domains are taken without NUL bytes, and for transactions principals too.)
\<close>

theorem opaque_bound_to_caller:
  assumes "crypto_laws cr" "plain_identity auth" "plain_identity auth'"
  shows "open_attach cr key' (seal_attach_value cr key p auth n) auth' =
      (if key' = key \<and> identity auth' = identity auth then Inr p else reject kAttachField) \<and>
    open_transaction cr key' (seal_transaction cr key p auth e n) auth' e' =
      (if key' = key \<and> identity auth' = identity auth \<and> e' = e then Inr p else reject kTransactionField)"
proof -
  have "plain_domain auth" "plain_domain auth'" using assms by (simp_all add: plain_identity_def)
  then have "attach_aad auth' = attach_aad auth \<longleftrightarrow> identity auth' = identity auth"
    by (simp add: attach_aad_def identity_tail_inject)
  moreover have "transaction_aad auth' e' = transaction_aad auth e \<longleftrightarrow> identity auth' = identity auth \<and> e' = e"
    using transaction_tail_inject [OF assms(3,2)] by (simp add: transaction_aad_def)
  ultimately show ?thesis
    by (simp add: open_attach_def seal_attach_value_def open_transaction_def seal_transaction_def open_sealed [OF assms(1)])
qed

definition alice :: auth_context where
  "alice = \<lparr>authenticated = True, auth_domain = ''jwt'', auth_principal = Some ''alice''\<rparr>"

definition bob :: auth_context where
  "bob = \<lparr>authenticated = True, auth_domain = ''jwt'', auth_principal = Some ''bob''\<rparr>"

lemma plain_demo: "plain_identity alice" "plain_identity bob" "identity alice \<noteq> identity bob"
  by (simp_all add: plain_identity_def plain_domain_def identity_def alice_def bob_def)

theorem opaque_bound_to_caller_witness:
  "open_attach toy_crypto ''k'' (seal_attach_value toy_crypto ''k'' ''data'' alice '''') bob = reject kAttachField \<and>
   open_attach toy_crypto ''k'' (seal_attach_value toy_crypto ''k'' ''data'' alice '''') alice = Inr ''data''"
  using opaque_bound_to_caller [OF toy_crypto_laws plain_demo(1,2), of "''k''" "''k''" "''data''"]
    opaque_bound_to_caller [OF toy_crypto_laws plain_demo(1,1), of "''k''" "''k''" "''data''"] plain_demo(3)
  by (auto dest: sym)


subsection \<open>Nothing skips the open\<close>

text \<open>
  The opaque values a request carries, at its top level and inside the one-row records nested in
  its \<^verbatim>\<open>request\<close> and \<^verbatim>\<open>bind_call\<close> columns, each with the attach envelope beside it.
\<close>

inductive carried :: "(bytes \<Rightarrow> wire_error + batch option) \<Rightarrow> batch \<Rightarrow> bytes option \<Rightarrow> string \<Rightarrow> bytes \<Rightarrow> bytes option \<Rightarrow> bool"
  for ipc where
  carried_here: "carried ipc b outer (field_name f) (text_of c) att"
    if "num_rows b = 1" "(f, a) \<in> set (columns b)" "is_binary_column a" "arr_cells a = c # cs" "c \<noteq> Null"
      "attach_at b outer = Inr (att, here)" "field_name f = kAttachField \<or> field_name f = kTransactionField"
| carried_nested: "carried ipc b outer field v att'"
    if "num_rows b = 1" "(f, a) \<in> set (columns b)" "is_binary_column a" "arr_cells a = c # cs" "c \<noteq> Null"
      "attach_at b outer = Inr (att, here)" "field_name f = ''request'' \<or> field_name f = ''bind_call''"
      "decode_ipc ipc (text_of c) = Inr (Some inner)" "carried ipc inner att field v att'"

lemma field_names [simp]:
  "kAttachField \<noteq> kTransactionField" "kTransactionField \<noteq> kAttachField" "kAttachField \<noteq> ''request''"
  "''request'' \<noteq> kAttachField" "''request'' \<noteq> kTransactionField"
  "kAttachField \<noteq> ''bind_call''" "kTransactionField \<noteq> ''request''" "kTransactionField \<noteq> ''bind_call''"
  by (simp_all add: kAttachField_def kTransactionField_def)

lemma reject_neq_Inr [simp]: "reject field \<noteq> Inr x" "Inr x \<noteq> reject field"
  by (simp_all add: reject_def)

lemma binary_at_Cons [simp]:
  "arr_cells a = c # cs \<Longrightarrow> binary_at a = Inr (if c = Null then None else Some (text_of c))"
  by (simp add: binary_at_def)

lemma open_columns_Inr:
  "open_columns opening sent cs = Inr r \<Longrightarrow> c \<in> set cs \<Longrightarrow> \<exists>sent c' changed sent'. opening sent c = Inr (c', changed, sent')"
  by (induction cs arbitrary: sent r) (auto, blast)

lemma open_batch_columns:
  assumes "open_batch n ipc encode cr key auth (Some b) outer sent = Inr r" "num_rows b = 1"
    "attach_at b outer = Inr (att, here)" "fa \<in> set (columns b)"
  shows "\<exists>m sent' x. n = Suc m \<and> open_column (open_batch m ipc encode cr key auth) ipc encode cr key auth att sent' fa = Inr x"
proof (cases n)
  case (Suc m)
  with assms obtain cols where
    "open_columns (open_column (open_batch m ipc encode cr key auth) ipc encode cr key auth att)
      (if sent = None then here else sent) (columns b) = Inr cols"
    by (auto simp: Let_def)
  from open_columns_Inr [OF this assms(4)] Suc show ?thesis by blast
qed (use assms in simp)

lemma carried_opens:
  assumes "carried ipc b outer field v att" "open_batch n ipc encode cr key auth (Some b) outer sent = Inr r"
  shows "(field = kAttachField \<and> (\<exists>p. open_attach cr key v auth = Inr p)) \<or>
    (field = kTransactionField \<and> (\<exists>e p. att = Some e \<and> open_transaction cr key v auth e = Inr p))"
  using assms
proof (induction arbitrary: n sent r rule: carried.induct)
  case (carried_here b f a c cs outer att here)
  from open_batch_columns [OF carried_here(8,1,6,2)] carried_here(3-5,7) show ?case
    by (auto simp: open_column_def split: if_splits option.splits)
next
  case (carried_nested b f a c cs outer att here inner field v att')
  from open_batch_columns [OF carried_nested(11,1,6,2)] carried_nested(3-5,7,8) obtain m s x where
    "open_batch m ipc encode cr key auth (Some inner) att s = Inr x"
    by (auto simp: open_column_def split: if_splits option.splits)
  from carried_nested(10) [OF this] show ?case .
qed


definition demo_envelope :: bytes where
  "demo_envelope = seal_attach_value toy_crypto ''k'' ''data'' alice ''''"

definition inner_record :: batch where
  "inner_record = \<lparr>columns = [(Field kAttachField TBinary True, one_binary demo_envelope)], num_rows = 1\<rparr>"

definition outer_record :: batch where
  "outer_record = \<lparr>columns = [(Field ''request'' TBinary False, one_binary ''ipc'')], num_rows = 1\<rparr>"

definition demo_call_record :: call where
  "demo_call_record = \<lparr>call_key = Some ''k'', call_auth = alice, attach_as_sent = None\<rparr>"

lemma demo_envelope_opens: "open_attach toy_crypto ''k'' demo_envelope alice = Inr ''data''"
  unfolding demo_envelope_def open_attach_def seal_attach_value_def by (simp add: open_sealed [OF toy_crypto_laws])

lemma demo_call_opens:
  "\<exists>r. call_open 2 (\<lambda>_. Inr (Some inner_record)) (\<lambda>_. ''ipc2'') toy_crypto demo_call_record (Some outer_record) = Inr r"
  by (simp add: call_open_def demo_call_record_def numeral_2_eq_2 outer_record_def inner_record_def check_field_def
      GetColumnByName_def attach_at_def one_binary_def is_binary_column_def open_column_def binary_at_def decode_ipc_def
      demo_envelope_opens Let_def)



subsection \<open>The recursion ends\<close>

lemma open_columns_not_deep:
  assumes "\<And>sent c. c \<in> set cs \<Longrightarrow> opening sent c \<noteq> Inl NestedTooDeep"
  shows "open_columns opening sent cs \<noteq> Inl NestedTooDeep"
  using assms
proof (induction cs arbitrary: sent)
  case (Cons c cs)
  then have "open_columns opening s cs \<noteq> Inl NestedTooDeep" for s by simp
  with Cons.prems [of c sent] show ?case by (auto simp: bindE_eq_Inl)
qed simp

lemma not_deep [simp]:
  "reject x \<noteq> Inl NestedTooDeep" "check_field b x \<noteq> Inl NestedTooDeep" "binary_at a \<noteq> Inl NestedTooDeep"
  "open_envelope cr key w e aad x \<noteq> Inl NestedTooDeep" "attach_at b outer \<noteq> Inl NestedTooDeep"
  "open_attach cr key e auth \<noteq> Inl NestedTooDeep" "open_transaction cr key e auth e' \<noteq> Inl NestedTooDeep"
  by (auto simp: reject_def check_field_def binary_at_def open_envelope_def attach_at_def open_attach_def
      open_transaction_def bindE_eq_Inl split: option.splits list.splits)

text \<open>
  Opening a request ends. If every nested record is smaller, in some measure, than the record
  whose cell it was decoded from, then fuel for two levels more than the request's measure is enough: the
  recursion never runs out, whatever the records hold.
\<close>

theorem open_batch_fuel:
  assumes "\<And>b f a c cs inner. (f, a) \<in> set (columns b) \<Longrightarrow> arr_cells a = c # cs \<Longrightarrow>
      decode_ipc ipc (text_of c) = Inr (Some inner) \<Longrightarrow> m inner < (m b :: nat)"
    and "\<And>b. batch = Some b \<Longrightarrow> Suc (m b) < n" "0 < n"
  shows "open_batch n ipc encode cr key auth batch outer sent \<noteq> Inl NestedTooDeep"
  using assms(2,3)
proof (induction n arbitrary: batch outer sent)
  case (Suc n)
  show ?case
  proof (cases batch)
    case (Some b)
    have column: "open_column (open_batch n ipc encode cr key auth) ipc encode cr key auth att s fa \<noteq> Inl NestedTooDeep"
      if "fa \<in> set (columns b)" for att s fa
    proof -
      have "open_batch n ipc encode cr key auth inner att s \<noteq> Inl NestedTooDeep"
        if "arr_cells (snd fa) = c # cs" "decode_ipc ipc (text_of c) = Inr inner" for c cs inner
      proof (rule Suc.IH)
        show "Suc (m x) < n" if "inner = Some x" for x
          using assms(1) [of "fst fa" "snd fa" b c cs x] \<open>fa \<in> _\<close> that \<open>arr_cells _ = _\<close> \<open>decode_ipc _ _ = _\<close>
            Suc.prems(1) [OF Some] by simp
        show "0 < n" using Suc.prems(1) [OF Some] by simp
      qed
      then show ?thesis
        by (cases fa) (auto simp: open_column_def bindE_eq_Inl binary_at_def split: option.splits sum.splits list.splits if_splits)
    qed
    then show ?thesis
      using open_columns_not_deep [of "columns b"]
      by (auto simp: Some bindE_eq_Inl Let_def split: if_splits)
  qed simp
qed simp


theorem open_batch_fuel_witness:
  "open_batch 3 (\<lambda>v. if v = ''ipc'' then Inr (Some \<lparr>columns = [], num_rows = 1\<rparr>) else Inl (IpcError v)) (\<lambda>_. '''')
     toy_crypto ''k'' alice (Some outer_record) None None \<noteq> Inl NestedTooDeep"
  by (rule open_batch_fuel [where m = "\<lambda>b. length (columns b)"])
    (auto simp: decode_ipc_def outer_record_def length_pos_if_in_set split: if_splits)

subsection \<open>What is not opened\<close>

definition wide_record :: batch where
  "wide_record = \<lparr>columns = [(Field ''request'' TLargeBinary False,
     \<lparr>arr_type = TLargeBinary, arr_cells = [VText ''ipc''], arr_dictionary = []\<rparr>)], num_rows = 1\<rparr>"

lemma wide_get: "get_optional_binary (Some wide_record) ''request'' = Inr (Some ''ipc'')"
  by code_simp

lemma wide_columns:
  "num_rows wide_record = 1" "GetColumnByName wide_record kAttachField = None" "GetColumnByName wide_record kTransactionField = None"
  by (simp_all add: wide_record_def GetColumnByName_def)

lemma wide_open: "open_batch (Suc n) ipc encode cr key auth (Some wide_record) outer sent = Inr (Some wide_record, False, sent)"
proof -
  have "open_columns (open_column rec ipc encode cr key auth att) s (columns wide_record) = Inr (columns wide_record, False, s)"
    for rec att s by (simp add: wide_record_def open_column_def is_binary_column_def)
  then show ?thesis by (simp add: wide_columns check_field_def attach_at_def Let_def)
qed

text \<open>
  A record nested in a wide column is not opened. The open looks into a \<^verbatim>\<open>request\<close> column only when
  its type is exactly \<^verbatim>\<open>binary\<close> and the batch has one row; the accessor every handler reads the
  column with also accepts \<^verbatim>\<open>large_binary\<close>. Whatever the key, a request with a wide column passes
  the open unchanged, and the handler's \<^verbatim>\<open>get_ipc\<close> returns the inner record with its opaque values as
  the client sent them.
\<close>

theorem wide_request_not_opened:
  "call_open (Suc n) (\<lambda>_. Inr (Some inner)) encode cr c (Some wide_record) = Inr (Some wide_record, c) \<and>
   get_ipc (\<lambda>_. Inr (Some inner)) (Some wide_record) ''request'' = Inr (Some inner)"
  by (cases "call_key c") (simp_all add: call_open_def wide_open get_ipc_def wide_get decode_ipc_def del: open_batch.simps)

end
