(* ===== verification/Split_Token.thy ===== *)
theory Split_Token
  imports Opaque_Seal
begin

section \<open>Split tokens\<close>

text \<open>
  \<^verbatim>\<open>src/src/split_token.cpp\<close>: the envelope around the payload of a scan split. The header is plain;
  a worker with a key seals the payload with the header and the caller's identity as associated
  data. \<open>crypto_laws\<close> is what is relied on of the cryptographic library.
\<close>

definition kFormatVersion :: nat where
  "kFormatVersion = 1"

definition kFlagPayloadSealed :: nat where
  "kFlagPayloadSealed = 1"

definition kFingerprintLen :: nat where
  "kFingerprintLen = 16"

definition kHeaderLen :: nat where
  "kHeaderLen = 4 + kFingerprintLen"

definition kSealVersion :: char where
  "kSealVersion = CHR 0x01"

definition feed :: "string \<Rightarrow> bytes \<Rightarrow> bytes" where
  "feed label v = label @ [NUL] @ v @ [NUL]"

definition token_identity_tail :: "auth_context \<Rightarrow> bytes" where
  "token_identity_tail auth =
     (if \<not> authenticated auth then NUL # ''anonymous''
      else CHR 0x01 # auth_domain auth @ [NUL] @
           (case auth_principal auth of None \<Rightarrow> '''' | Some p \<Rightarrow> p))"

definition token_aad :: "bytes \<Rightarrow> auth_context \<Rightarrow> bytes" where
  "token_aad body auth = body @ token_identity_tail auth"

text \<open>What is hashed, and the fingerprint.\<close>

definition fingerprint_input :: "string list \<Rightarrow> string \<Rightarrow> bytes \<Rightarrow> bytes \<Rightarrow> bytes" where
  "fingerprint_input path function_name arguments settings =
     ''vgi.split_token.v1'' @ [NUL] @ concat (map (feed ''schema_path'') path) @
     feed ''function_name'' function_name @ feed ''arguments'' arguments @ feed ''settings'' settings"

definition bind_fingerprint :: "crypto \<Rightarrow> string list \<Rightarrow> string \<Rightarrow> bytes \<Rightarrow> bytes \<Rightarrow> bytes" where
  "bind_fingerprint cr path function_name arguments settings =
     take kFingerprintLen (sha256 cr (fingerprint_input path function_name arguments settings))"

definition anchor_for :: "64 word option \<Rightarrow> bytes" where
  "anchor_for version = put_i64 (case version of None \<Rightarrow> 0 | Some v \<Rightarrow> v)"

datatype token_error = BadFingerprint | AnchorTooLong

definition token_header :: "bool \<Rightarrow> bytes \<Rightarrow> bytes \<Rightarrow> bytes" where
  "token_header sealed fingerprint anchor =
     char_of kFormatVersion # char_of (if sealed then kFlagPayloadSealed else 0) #
     le_bytes 2 (length anchor) @ fingerprint @ anchor"

definition build ::
    "crypto \<Rightarrow> bytes \<Rightarrow> bytes \<Rightarrow> bytes \<Rightarrow> bytes option \<Rightarrow> auth_context \<Rightarrow> bytes \<Rightarrow> token_error + bytes" where
  "build cr payload fingerprint anchor signing_key auth nonce =
     (if length fingerprint \<noteq> kFingerprintLen then Inl BadFingerprint
      else if 0xFFFF < length anchor then Inl AnchorTooLong
      else case signing_key of
          None \<Rightarrow> Inr (token_header False fingerprint anchor @ payload)
        | Some key \<Rightarrow>
            let out = token_header True fingerprint anchor in
            Inr (out @ kSealVersion # aead_seal cr key payload (token_aad out auth) nonce))"

datatype open_result = Opened bytes | Invalid | SnapshotExpired

definition open_payload :: "crypto \<Rightarrow> bytes option \<Rightarrow> auth_context \<Rightarrow> bytes \<Rightarrow> bytes \<Rightarrow> open_result" where
  "open_payload cr signing_key auth header payload =
     (case signing_key of
        None \<Rightarrow> Opened payload
      | Some key \<Rightarrow>
          if payload = [] \<or> hd payload \<noteq> kSealVersion then Invalid
          else case aead_open cr key (drop 1 payload) (token_aad header auth) of
              None \<Rightarrow> Invalid
            | Some p \<Rightarrow> Opened p)"

definition open_token ::
    "crypto \<Rightarrow> bytes \<Rightarrow> bytes \<Rightarrow> bytes \<Rightarrow> bytes option \<Rightarrow> auth_context \<Rightarrow> open_result" where
  "open_token cr token expected_fingerprint current_anchor signing_key auth =
     (if length token < kHeaderLen then Invalid
      else if code (token ! 0) \<noteq> kFormatVersion then Invalid
      else let flags = code (token ! 1); sealed = (flags AND kFlagPayloadSealed \<noteq> 0) in
        if flags AND 0xFE \<noteq> 0 then Invalid
        else if (signing_key \<noteq> None) \<noteq> sealed then Invalid
        else let anchor_len = code (token ! 2) OR push_bit 8 (code (token ! 3));
                 end_of_anchor = kHeaderLen + anchor_len in
          if length token < end_of_anchor then Invalid
          else if take kFingerprintLen (drop 4 token) \<noteq> expected_fingerprint then Invalid
          else if anchor_len \<noteq> length current_anchor \<or> take anchor_len (drop kHeaderLen token) \<noteq> current_anchor
          then SnapshotExpired
          else open_payload cr signing_key auth (take end_of_anchor token) (drop end_of_anchor token))"


subsection \<open>What a token opens to\<close>

lemma token_identity_tail_eq: "token_identity_tail auth = identity_tail auth"
  by (simp add: token_identity_tail_def identity_tail_def)

lemma length_token_header:
  "length fp = kFingerprintLen \<Longrightarrow> length (token_header s fp anchor) = kHeaderLen + length anchor"
  by (simp add: token_header_def kHeaderLen_def)

lemma two_bytes: "le_bytes 2 n = [char_of (n mod 256), char_of (n div 256 mod 256)]"
  by (simp add: le_bytes_def upt_rec and_255 drop_bit_eq_div)

lemma u16: "a < 256 \<Longrightarrow> b < 256 \<Longrightarrow> a OR push_bit 8 b = a + 256 * (b :: nat)"
  using or_push_bit_add [of a 8 b] by simp

lemma token_fields:
  assumes "length fp = kFingerprintLen" "length anchor \<le> 0xFFFF" "tok = token_header s fp anchor @ rest"
  shows "kHeaderLen \<le> length tok" "code (tok ! 0) = kFormatVersion" "code (tok ! 1) = (if s then 1 else 0)"
    "code (tok ! 2) OR push_bit 8 (code (tok ! 3)) = length anchor" "take kFingerprintLen (drop 4 tok) = fp"
    "take (length anchor) (drop kHeaderLen tok) = anchor" "take (kHeaderLen + length anchor) tok = token_header s fp anchor"
    "drop (kHeaderLen + length anchor) tok = rest" "kHeaderLen + length anchor \<le> length tok"
proof -
  have n: "length anchor div 256 < 256" using assms(2) by simp
  have tok: "tok = char_of (1 :: nat) # char_of (if s then 1 else 0 :: nat) # char_of (length anchor mod 256) #
      char_of (length anchor div 256) # fp @ anchor @ rest"
    using n by (simp add: assms(3) token_header_def two_bytes kFormatVersion_def kFlagPayloadSealed_def)
  show "code (tok ! 0) = kFormatVersion" "code (tok ! 1) = (if s then 1 else 0)"
    by (simp_all add: tok kFormatVersion_def code_char_of)
  have "code (tok ! 2) = length anchor mod 256" "code (tok ! 3) = length anchor div 256"
    using n by (simp_all add: tok code_char_of)
  then show "code (tok ! 2) OR push_bit 8 (code (tok ! 3)) = length anchor" using n by (simp add: u16)
  have d4: "drop 4 tok = fp @ anchor @ rest" by (simp add: tok)
  then show "take kFingerprintLen (drop 4 tok) = fp" using assms(1) by simp
  have "drop kHeaderLen tok = drop kFingerprintLen (drop 4 tok)" by (simp add: kHeaderLen_def add.commute)
  then show "take (length anchor) (drop kHeaderLen tok) = anchor" using d4 assms(1) by simp
qed (use assms length_token_header [OF assms(1), of s anchor] in \<open>simp_all\<close>)

lemma open_header:
  assumes "length fp = kFingerprintLen" "length anchor \<le> 0xFFFF"
  shows "open_token cr (token_header s fp anchor @ rest) fp' anchor' key auth =
    (if (key \<noteq> None) \<noteq> s \<or> fp' \<noteq> fp then Invalid else if anchor' \<noteq> anchor then SnapshotExpired
     else open_payload cr key auth (token_header s fp anchor) rest)"
proof -
  let ?tok = "token_header s fp anchor @ rest"
  note t = token_fields [OF assms refl, of s rest]
  have flags: "(if s then 1 else 0 :: nat) AND 0xFE = 0" "(if s then 1 else 0 :: nat) AND kFlagPayloadSealed \<noteq> 0 \<longleftrightarrow> s"
    by (simp_all add: kFlagPayloadSealed_def)
  have fits: "\<not> length ?tok < kHeaderLen" "\<not> length ?tok < kHeaderLen + length anchor" using t(1,9) by simp_all
  have "(length anchor \<noteq> length anchor' \<or> anchor \<noteq> anchor') \<longleftrightarrow> anchor' \<noteq> anchor" by auto
  then show ?thesis using fits(2) unfolding open_token_def Let_def t flags if_not_P [OF fits(1)]
    by (simp only: if_False simp_thms if_cancel) (auto split: if_splits)
qed

text \<open>
  A token opens exactly where it belongs. What a built token opens to, for every expected
  fingerprint, snapshot, key and caller: invalid when the worker's key state or the bind is not
  the one it was built for, expired when only the snapshot moved, the payload for the same key and
  identity, and invalid for any other.
\<close>

theorem token_opens:
  assumes "crypto_laws cr" "build cr payload fp anchor key auth nonce = Inr tok" "plain_domain auth" "plain_domain auth'"
  shows "open_token cr tok fp' anchor' key' auth' =
    (if (key' = None) \<noteq> (key = None) \<or> fp' \<noteq> fp then Invalid
     else if anchor' \<noteq> anchor then SnapshotExpired
     else if key = None \<or> key' = key \<and> identity auth' = identity auth then Opened payload
     else Invalid)"
proof -
  have fp: "length fp = kFingerprintLen" "length anchor \<le> 0xFFFF"
    using assms(2) by (auto simp: build_def split: if_splits)
  let ?h = "token_header (key \<noteq> None) fp anchor"
  obtain rest where tok: "tok = ?h @ rest"
    and rest: "case key of None \<Rightarrow> rest = payload
      | Some k \<Rightarrow> rest = kSealVersion # aead_seal cr k payload (token_aad ?h auth) nonce"
    using assms(2) by (auto simp: build_def Let_def split: if_splits option.splits)
  have "token_aad ?h auth' = token_aad ?h auth \<longleftrightarrow> identity auth' = identity auth"
    by (simp add: token_aad_def token_identity_tail_eq identity_tail_inject [OF assms(4,3)])
  with rest have "open_payload cr key' auth' ?h rest =
      (if key = None \<or> key' = key \<and> identity auth' = identity auth then Opened payload else Invalid)"
    if "key' = None \<longleftrightarrow> key = None"
    using that open_seal [OF assms(1)]
      open_other [OF assms(1), of "the key'" "token_aad ?h auth'" "the key" "token_aad ?h auth" payload nonce]
    by (cases "the key' = the key") (auto simp: open_payload_def split: option.splits)
  then show ?thesis unfolding tok open_header [OF fp] by (auto split: if_splits)
qed

theorem token_opens_witness:
  "\<exists>tok. build toy_crypto ''p'' (replicate 16 (CHR ''f'')) (anchor_for None) (Some ''k'') alice '''' = Inr tok \<and>
     open_token toy_crypto tok (replicate 16 (CHR ''f'')) (anchor_for None) (Some ''k'') bob = Invalid \<and>
     open_token toy_crypto tok (replicate 16 (CHR ''f'')) (anchor_for None) None alice = Invalid \<and>
     open_token toy_crypto tok (replicate 16 (CHR ''f'')) (anchor_for (Some 7)) (Some ''k'') bob = SnapshotExpired"
proof -
  have a: "length (anchor_for v) = 8" for v by (simp add: anchor_for_def put_i64_def)
  have "put_i64 0 ! 0 \<noteq> put_i64 7 ! 0" by (simp add: put_i64_def le_bytes_def and_255)
  then have ne: "anchor_for None \<noteq> anchor_for (Some 7)" by (auto simp: anchor_for_def)
  obtain tok where tok: "build toy_crypto ''p'' (replicate 16 (CHR ''f'')) (anchor_for None) (Some ''k'') alice '''' = Inr tok"
    by (simp add: build_def kFingerprintLen_def a Let_def)
  have "plain_domain alice" "plain_domain bob" using plain_demo by (simp_all add: plain_identity_def)
  with token_opens [OF toy_crypto_laws tok] tok ne plain_demo(3) show ?thesis by auto
qed

lemma sealed_flag:
  assumes "f < 256" "f AND 0xFE = 0" "f AND kFlagPayloadSealed \<noteq> 0"
  shows "f = kFlagPayloadSealed"
proof -
  have "f div 2 = f div 2 mod 128" using assms(1) by simp
  also have "\<dots> = f div 2 AND 127"
    using take_bit_eq_mask [of 7 "f div 2"] by (simp add: take_bit_eq_mod mask_eq_exp_minus_1)
  also have "\<dots> = drop_bit 1 f AND drop_bit 1 0xFE" by (simp add: drop_bit_eq_div)
  also have "\<dots> = drop_bit 1 (f AND 0xFE)" by (rule drop_bit_and [symmetric])
  finally have "f < 2" using assms(2) by simp
  with assms(3) show ?thesis by (cases "f = 0") (simp_all add: kFlagPayloadSealed_def)
qed

lemma take_nth_4: "4 \<le> length xs \<Longrightarrow> take 4 xs = [xs ! 0, xs ! 1, xs ! 2, xs ! 3]"
  by (auto simp: numeral_eq_Suc Suc_le_length_iff)

text \<open>
  C19: A keyed worker accepts nothing it did not seal. Whatever bytes are presented, with the flag
  set or cleared, a payload comes out of a worker with a key only when the token is exactly the
  header for the expected fingerprint and the current anchor followed by an envelope that opens
  under the key with that header and this caller as associated data.
\<close>

theorem keyed_payload_authentic:
  assumes "open_token cr tok fp anchor (Some key) auth = Opened p"
  shows "\<exists>e. tok = token_header True fp anchor @ kSealVersion # e \<and>
    aead_open cr key e (token_aad (token_header True fp anchor) auth) = Some p"
proof -
  define n where "n = code (tok ! 2) OR push_bit 8 (code (tok ! 3))"
  have g: "kHeaderLen \<le> length tok" "code (tok ! 0) = kFormatVersion" "code (tok ! 1) AND 0xFE = 0"
    "code (tok ! 1) AND kFlagPayloadSealed \<noteq> 0" "kHeaderLen + n \<le> length tok" "take kFingerprintLen (drop 4 tok) = fp"
    "n = length anchor" "take n (drop kHeaderLen tok) = anchor"
    "open_payload cr (Some key) auth (take (kHeaderLen + n) tok) (drop (kHeaderLen + n) tok) = Opened p"
    using assms by (auto simp: open_token_def Let_def n_def [symmetric] not_less split: if_splits)
  have "tok ! 0 = char_of kFormatVersion" using g(2) by (metis char_of_char)
  moreover have "tok ! 1 = char_of kFlagPayloadSealed"
    using sealed_flag [OF code_less g(3,4)] by (metis char_of_char)
  moreover have "le_bytes 2 n = [tok ! 2, tok ! 3]"
    by (simp add: n_def two_bytes u16)
  ultimately have "take 4 tok = char_of kFormatVersion # char_of kFlagPayloadSealed # le_bytes 2 n"
    using g(1) by (simp add: take_nth_4 kHeaderLen_def)
  moreover have "take (kHeaderLen + n) tok = take 4 tok @ take kFingerprintLen (drop 4 tok) @ take n (drop kHeaderLen tok)"
    by (simp add: kHeaderLen_def take_add add.assoc) (simp add: add.commute)
  ultimately have header: "take (kHeaderLen + n) tok = token_header True fp anchor"
    using g(6-8) by (simp add: token_header_def)
  from g(9) obtain e where "drop (kHeaderLen + n) tok = kSealVersion # e"
    "aead_open cr key e (token_aad (token_header True fp anchor) auth) = Some p"
    by (cases "drop (kHeaderLen + n) tok") (auto simp: open_payload_def header split: if_splits option.splits)
  then show ?thesis using header by (metis append_take_drop_id)
qed

theorem keyed_payload_authentic_witness:
  "\<exists>tok e. open_token toy_crypto tok (replicate 16 (CHR ''f'')) [] (Some ''k'') alice = Opened ''p'' \<and>
     tok = token_header True (replicate 16 (CHR ''f'')) [] @ kSealVersion # e"
proof -
  let ?h = "token_header True (replicate 16 (CHR ''f'')) []"
  have "open_token toy_crypto (?h @ kSealVersion # aead_seal toy_crypto ''k'' ''p'' (token_aad ?h alice) [])
      (replicate 16 (CHR ''f'')) [] (Some ''k'') alice = Opened ''p''"
    by (simp add: open_header kFingerprintLen_def open_payload_def open_seal [OF toy_crypto_laws])
  from keyed_payload_authentic [OF this] this show ?thesis by blast
qed


subsection \<open>What the fingerprint frames\<close>

definition framed :: "string list \<Rightarrow> bytes" where
  "framed xs = concat (map (\<lambda>x. x @ [NUL]) xs)"

lemma framed_inject:
  "\<forall>x \<in> set xs. NUL \<notin> set x \<Longrightarrow> \<forall>y \<in> set ys. NUL \<notin> set y \<Longrightarrow> framed xs = framed ys \<longleftrightarrow> xs = ys"
proof (induction xs arbitrary: ys)
  case Nil then show ?case by (cases ys) (auto simp: framed_def)
next
  case (Cons x xs) then show ?case by (cases ys) (auto simp: framed_def NUL_separates)
qed

definition bind_fields :: "string list \<Rightarrow> string \<Rightarrow> bytes \<Rightarrow> bytes \<Rightarrow> string list" where
  "bind_fields path f a s =
     ''vgi.split_token.v1'' # concat (map (\<lambda>c. [''schema_path'', c]) path) @
     [''function_name'', f, ''arguments'', a, ''settings'', s]"

lemma fingerprint_input_framed: "fingerprint_input path f a s = framed (bind_fields path f a s)"
proof -
  have "concat (map (feed ''schema_path'') path) = framed (concat (map (\<lambda>c. [''schema_path'', c]) path))"
    by (induction path) (auto simp: framed_def feed_def)
  then show ?thesis by (simp add: fingerprint_input_def bind_fields_def) (simp add: framed_def feed_def)
qed

lemma path_fields_inject:
  "concat (map (\<lambda>c. [l, c]) xs) = concat (map (\<lambda>c. [l, c]) ys) \<longleftrightarrow> xs = ys"
  by (induction xs arbitrary: ys; case_tac ys) auto

lemma bind_fields_inject:
  "bind_fields path f a s = bind_fields path' f' a' s' \<longleftrightarrow> path = path' \<and> f = f' \<and> a = a' \<and> s = s'"
  by (auto simp: bind_fields_def path_fields_inject)

text \<open>
  The fingerprint frames its fields only without NUL bytes. What is hashed determines the path,
  the function, the arguments and the settings when none of them holds a NUL; the arguments and
  settings are serialised records, and with NUL bytes two different pairs of them are the same
  input, so they have one fingerprint.
\<close>

theorem fingerprint_framing:
  "(\<forall>x \<in> set path \<union> set path' \<union> {f, a, s, f', a', s'}. NUL \<notin> set x) \<longrightarrow>
     (fingerprint_input path f a s = fingerprint_input path' f' a' s' \<longleftrightarrow> path = path' \<and> f = f' \<and> a = a' \<and> s = s')"
  (is "?plain \<longrightarrow> _")
proof
  assume ?plain
  then have "\<forall>x \<in> set (bind_fields path f a s). NUL \<notin> set x" "\<forall>x \<in> set (bind_fields path' f' a' s'). NUL \<notin> set x"
    by (auto simp: bind_fields_def)
  from framed_inject [OF this] show
    "fingerprint_input path f a s = fingerprint_input path' f' a' s' \<longleftrightarrow> path = path' \<and> f = f' \<and> a = a' \<and> s = s'"
    by (simp add: fingerprint_input_framed bind_fields_inject)
qed

theorem fingerprint_framing_witness:
  "fingerprint_input [''main''] ''f'' ''a'' ''s'' \<noteq> fingerprint_input [''main''] ''f'' ''a'' ''t''"
  using fingerprint_framing [of "[''main'']" "[''main'']" "''f''" "''a''" "''s''" "''f''" "''a''" "''t''"] by simp

text \<open>
  Two binds with one fingerprint. Moving a framed settings field from the settings into the
  arguments changes both fields and leaves the fingerprint as it was, so a token built for one
  bind opens for the other.
\<close>

theorem fingerprint_collision:
  "bind_fingerprint cr path f (a @ [NUL] @ ''settings'' @ [NUL] @ s) t =
   bind_fingerprint cr path f a (s @ [NUL] @ ''settings'' @ [NUL] @ t) \<and>
   a @ [NUL] @ ''settings'' @ [NUL] @ s \<noteq> a"
  by (simp add: bind_fingerprint_def fingerprint_input_def feed_def)

end
