(* ===== verification/Filter_Types.thy ===== *)
theory Filter_Types
  imports Prelude Complex_Main
begin

section \<open>Data of the filter language\<close>

text \<open>
  What \<^verbatim>\<open>src/src/pushdown.cpp\<close> works on: Arrow types with their extension annotations, arrays of
  logical values, JSON documents, and its own expression tree \<^verbatim>\<open>Spec\<close>. An array carries logical
  values, so decoding a dictionary changes its type only. Arrow's compute functions are the record
  \<open>compute\<close>, an argument of every definition that calls one.
\<close>

datatype filter_error = BadFilter string | EvalError string

definition invalid :: "string \<Rightarrow> filter_error + 'a" where
  "invalid message = Inl (BadFilter (''Filter Encoding v2: '' @ message))"

definition throw_runtime :: "string \<Rightarrow> filter_error + 'a" where
  "throw_runtime message = Inl (EvalError message)"

lemma invalid_simps [simp]: "invalid m \<noteq> Inr x" "Inr x \<noteq> invalid m" "throw_runtime m \<noteq> Inr x" "Inr x \<noteq> throw_runtime m"
  by (simp_all add: invalid_def throw_runtime_def)

definition check :: "bool \<Rightarrow> string \<Rightarrow> filter_error + unit" where
  "check ok message = (if ok then Inr () else invalid message)"

lemma check_Inr [simp]: "check ok m = Inr u \<longleftrightarrow> ok"
  by (simp add: check_def)

subsection \<open>Types\<close>

datatype atype =
    ANull | ABool | AUInt8 | AInt8 | AUInt16 | AInt16 | AUInt32 | AInt32 | AUInt64 | AInt64
  | AHalfFloat | AFloat | ADouble | ADecimal128 string | ADecimal256 string
  | AString | ALargeString | ABinary | ALargeBinary
  | ADate32 | ADate64 | ATime32 string | ATime64 string | ATimestamp string
  | ADictionary atype atype
  | AList afield | ALargeList afield | AFixedSizeList afield nat | AListView afield | ALargeListView afield
  | AStruct "afield list" | AMap afield afield
  | ASparseUnion "afield list" | ADenseUnion "afield list" | ARunEndEncoded atype atype
  | AExtension string atype | AOther string
and afield = AField (af_name: string) (af_type: atype) (af_nullable: bool) (af_extension: "string option")

text \<open>\<^verbatim>\<open>DataType::Equals\<close> does not look at the metadata of nested fields.\<close>

primrec bare :: "atype \<Rightarrow> atype" and bare_field :: "afield \<Rightarrow> afield" where
  "bare ANull = ANull" | "bare ABool = ABool" | "bare AUInt8 = AUInt8" | "bare AInt8 = AInt8"
| "bare AUInt16 = AUInt16" | "bare AInt16 = AInt16" | "bare AUInt32 = AUInt32" | "bare AInt32 = AInt32"
| "bare AUInt64 = AUInt64" | "bare AInt64 = AInt64" | "bare AHalfFloat = AHalfFloat" | "bare AFloat = AFloat"
| "bare ADouble = ADouble" | "bare (ADecimal128 p) = ADecimal128 p" | "bare (ADecimal256 p) = ADecimal256 p"
| "bare AString = AString" | "bare ALargeString = ALargeString" | "bare ABinary = ABinary"
| "bare ALargeBinary = ALargeBinary" | "bare ADate32 = ADate32" | "bare ADate64 = ADate64"
| "bare (ATime32 u) = ATime32 u" | "bare (ATime64 u) = ATime64 u" | "bare (ATimestamp u) = ATimestamp u"
| "bare (ADictionary i t) = ADictionary (bare i) (bare t)"
| "bare (AList f) = AList (bare_field f)" | "bare (ALargeList f) = ALargeList (bare_field f)"
| "bare (AFixedSizeList f n) = AFixedSizeList (bare_field f) n"
| "bare (AListView f) = AListView (bare_field f)" | "bare (ALargeListView f) = ALargeListView (bare_field f)"
| "bare (AStruct fs) = AStruct (map bare_field fs)" | "bare (AMap k v) = AMap (bare_field k) (bare_field v)"
| "bare (ASparseUnion fs) = ASparseUnion (map bare_field fs)"
| "bare (ADenseUnion fs) = ADenseUnion (map bare_field fs)"
| "bare (ARunEndEncoded r t) = ARunEndEncoded (bare r) (bare t)"
| "bare (AExtension n t) = AExtension n (bare t)" | "bare (AOther s) = AOther s"
| "bare_field (AField n t b e) = AField n (bare t) b None"

definition type_equals :: "atype \<Rightarrow> atype \<Rightarrow> bool" where
  "type_equals a b \<longleftrightarrow> bare a = bare b"

fun logical_type :: "atype \<Rightarrow> atype" where
  "logical_type (ADictionary i t) = logical_type t"
| "logical_type t = t"

text \<open>A null type pointer is \<open>None\<close>.\<close>

definition same_logical_type :: "atype option \<Rightarrow> atype option \<Rightarrow> bool" where
  "same_logical_type left right =
     (case (left, right) of
        (Some a, Some b) \<Rightarrow> type_equals (logical_type a) (logical_type b)
      | _ \<Rightarrow> False)"

definition boolean_type :: "atype option \<Rightarrow> bool" where
  "boolean_type type = (case type of None \<Rightarrow> False | Some t \<Rightarrow> logical_type t = ABool)"

fun is_integer :: "atype \<Rightarrow> bool" where
  "is_integer AUInt8 = True" | "is_integer AInt8 = True" | "is_integer AUInt16 = True" | "is_integer AInt16 = True"
| "is_integer AUInt32 = True" | "is_integer AInt32 = True" | "is_integer AUInt64 = True" | "is_integer AInt64 = True"
| "is_integer _ = False"

fun floating_type :: "atype \<Rightarrow> bool" where
  "floating_type AHalfFloat = True" | "floating_type AFloat = True" | "floating_type ADouble = True"
| "floating_type _ = False"

fun is_decimal :: "atype \<Rightarrow> bool" where
  "is_decimal (ADecimal128 p) = True" | "is_decimal (ADecimal256 p) = True" | "is_decimal _ = False"

definition numeric_type :: "atype option \<Rightarrow> bool" where
  "numeric_type type =
     (case type of
        None \<Rightarrow> False
      | Some t \<Rightarrow> let l = logical_type t in is_integer l \<or> floating_type l \<or> is_decimal l)"

definition exact_context_free_cast :: "atype option \<Rightarrow> atype option \<Rightarrow> bool" where
  "exact_context_free_cast source target =
     (case (source, target) of
        (Some s, Some t) \<Rightarrow>
          type_equals s t \<or> (is_integer s \<and> is_integer t) \<or> (s = AFloat \<and> t = ADouble)
      | _ \<Rightarrow> False)"

fun is_contextual :: "atype \<Rightarrow> bool" where
  "is_contextual AString = True" | "is_contextual ALargeString = True" | "is_contextual ADate32 = True"
| "is_contextual ADate64 = True" | "is_contextual (ATime32 u) = True" | "is_contextual (ATime64 u) = True"
| "is_contextual (ATimestamp u) = True" | "is_contextual _ = False"

definition contextual_type :: "atype option \<Rightarrow> bool" where
  "contextual_type type = (case type of None \<Rightarrow> False | Some t \<Rightarrow> is_contextual (logical_type t))"

fun comparison_type_supported :: "atype \<Rightarrow> bool" where
  "comparison_type_supported ANull = False" | "comparison_type_supported (AList f) = False"
| "comparison_type_supported (ALargeList f) = False" | "comparison_type_supported (AFixedSizeList f n) = False"
| "comparison_type_supported (AListView f) = False" | "comparison_type_supported (ALargeListView f) = False"
| "comparison_type_supported (AStruct fs) = False" | "comparison_type_supported (AMap k v) = False"
| "comparison_type_supported (ASparseUnion fs) = False" | "comparison_type_supported (ADenseUnion fs) = False"
| "comparison_type_supported (ARunEndEncoded r t) = False" | "comparison_type_supported (AExtension n t) = False"
| "comparison_type_supported _ = True"

definition known_extensions :: "string list" where
  "known_extensions =
     [''arrow.bool8'', ''arrow.json'', ''arrow.uuid'', ''geoarrow.linestring'', ''geoarrow.multilinestring'',
      ''geoarrow.multipoint'', ''geoarrow.multipolygon'', ''geoarrow.point'', ''geoarrow.polygon'', ''geoarrow.wkb'']"

fun validate_arrow_extensions :: "afield \<Rightarrow> filter_error + unit" where
  "validate_arrow_extensions (AField name t null ext) =
     bindE (case ext of
         None \<Rightarrow> Inr ()
       | Some e \<Rightarrow> check (e \<in> set known_extensions) (''unknown Arrow extension type on field '' @ quoted name)) (\<lambda>_.
     bindE (case t of
         AExtension e s \<Rightarrow> check (e \<in> set known_extensions) (''unknown Arrow extension type '' @ quoted e)
       | _ \<Rightarrow> Inr ()) (\<lambda>_.
     case t of
       AStruct fs \<Rightarrow> eachE validate_arrow_extensions fs
     | AList f \<Rightarrow> validate_arrow_extensions f
     | ALargeList f \<Rightarrow> validate_arrow_extensions f
     | AFixedSizeList f n \<Rightarrow> validate_arrow_extensions f
     | _ \<Rightarrow> Inr ()))"

subsection \<open>Values and arrays\<close>

text \<open>A double up to what comparisons see: the two zeros are one value.\<close>

datatype float64 = NaN | NegInf | Fin real | PosInf

datatype aval =
    ANil | ABoolV bool | AIntV int | AFloatV float64 | ATextV bytes | AListV "aval list" | AStructV "aval list"
  | AOtherV string

record aarr =
  a_type :: atype
  a_vals :: "aval list"

record fbatch =
  f_fields :: "afield list"
  f_cols :: "aarr list"
  f_rows :: nat
  f_metadata :: "(string \<times> string) list option"

datatype datum = DArray aarr | DScalar atype aval

fun datum_type :: "datum \<Rightarrow> atype" where
  "datum_type (DArray a) = a_type a"
| "datum_type (DScalar t v) = t"

text \<open>The values a datum stands for in a batch of \<open>n\<close> rows.\<close>

fun rows :: "nat \<Rightarrow> datum \<Rightarrow> aval list" where
  "rows n (DArray a) = a_vals a"
| "rows n (DScalar t v) = replicate n v"

text \<open>
  Arrow's compute functions: \<^verbatim>\<open>CallFunction\<close> by name, \<^verbatim>\<open>Cast\<close>, \<^verbatim>\<open>Filter\<close> with nulls dropped, \<^verbatim>\<open>Concatenate\<close>,
  \<^verbatim>\<open>Unique\<close>, \<^verbatim>\<open>Scalar::Equals\<close>, and the cast of one value to text (none when it fails).
\<close>

record compute =
  call_function :: "string \<Rightarrow> datum list \<Rightarrow> string + datum"
  cast_to :: "datum \<Rightarrow> atype \<Rightarrow> string + datum"
  filter_rows :: "fbatch \<Rightarrow> aval list \<Rightarrow> string + fbatch"
  concat_arrays :: "aarr list \<Rightarrow> aarr option"
  unique_values :: "aarr \<Rightarrow> aarr option"
  scalar_equals :: "atype \<Rightarrow> aval \<Rightarrow> aval \<Rightarrow> bool"
  value_text :: "atype \<Rightarrow> aval \<Rightarrow> string option"

definition value_or_throw :: "string + 'a \<Rightarrow> string \<Rightarrow> filter_error + 'a" where
  "value_or_throw result context =
     (case result of Inl status \<Rightarrow> throw_runtime (context @ '': '' @ status) | Inr v \<Rightarrow> Inr v)"

lemma value_or_throw_Inr [simp]: "value_or_throw r c = Inr v \<longleftrightarrow> r = Inr v"
  by (cases r) (auto simp: value_or_throw_def)

subsection \<open>Documents\<close>

datatype json =
    JNull | JBool bool | JUInt nat | JNegative int | JFloat string | JString string
  | JArray "json list" | JObject "(string \<times> json) list"

fun is_object :: "json \<Rightarrow> bool" where
  "is_object (JObject m) = True" | "is_object _ = False"

fun is_array :: "json \<Rightarrow> bool" where
  "is_array (JArray xs) = True" | "is_array _ = False"

fun items :: "json \<Rightarrow> json list" where
  "items (JArray xs) = xs" | "items _ = []"

fun member :: "json \<Rightarrow> string \<Rightarrow> json option" where
  "member (JObject m) key = map_of m key"
| "member _ key = None"

subsection \<open>The expression tree\<close>

datatype kind =
    KColumn | KField | KLiteral | KConstant | KAnd | KOr | KNot | KIsNull | KIsNotNull | KIn | KCast
  | KArithmetic | KNegate | KCall | KRuntimeFilter

record attrs =
  s_kind :: kind
  s_column_name :: string
  s_column_index :: nat
  s_field_index :: nat
  s_field_name :: string
  s_op :: string
  s_function :: string
  s_type :: "atype option"
  s_value :: "aarr option"
  s_negated :: bool
  s_advisory :: bool
  s_id :: string
  s_revision :: nat

datatype spec = Spec (attrs: attrs) (children: "spec list")

definition new_spec :: "kind \<Rightarrow> attrs" where
  "new_spec k = \<lparr>s_kind = k, s_column_name = '''', s_column_index = 0, s_field_index = 0, s_field_name = '''',
     s_op = '''', s_function = '''', s_type = None, s_value = None, s_negated = False, s_advisory = False,
     s_id = '''', s_revision = 0\<rparr>"

fun root_column :: "spec \<Rightarrow> string" where
  "root_column (Spec a cs) =
     (if s_kind a = KColumn then s_column_name a
      else if s_kind a = KField then (case cs of [] \<Rightarrow> '''' | c # _ \<Rightarrow> root_column c)
      else '''')"

definition is_direct_column :: "spec \<Rightarrow> string \<Rightarrow> bool" where
  "is_direct_column e column \<longleftrightarrow> s_kind (attrs e) = KColumn \<and> s_column_name (attrs e) = column"

end
