(* ===== verification/Filter_Parser.thy ===== *)
theory Filter_Parser
  imports Filter_Types
begin

section \<open>Parsing filter documents\<close>

text \<open>
  The decoder of Filter Encoding v2 in \<^verbatim>\<open>src/src/pushdown.cpp\<close>: the payload batch, the JSON document,
  the expressions. \<open>expression\<close> recurses on the nesting that is left, \<^verbatim>\<open>kMaxDepth + 1 - depth\<close>, so it
  runs out exactly where the source reports its depth limit, and it threads the node counter of the
  C++ \<^verbatim>\<open>Parser\<close>. The text-to-JSON parser is a parameter: it gives the document and the events its
  callback saw, or fails.
\<close>

definition kMaxPayloadBytes :: nat where
  "kMaxPayloadBytes = 16 * 2 ^ 20"

definition kMaxJsonBytes :: nat where
  "kMaxJsonBytes = 2 ^ 20"

definition kMaxDepth :: nat where
  "kMaxDepth = 64"

definition kMaxNodes :: nat where
  "kMaxNodes = 10000"

definition kMaxPredicates :: nat where
  "kMaxPredicates = 1024"

definition kMaxPredicateIds :: nat where
  "kMaxPredicateIds = 4096"

subsection \<open>JSON members\<close>

definition require_keys :: "json \<Rightarrow> string list \<Rightarrow> string list \<Rightarrow> string \<Rightarrow> filter_error + unit" where
  "require_keys object required optional loc =
     (case object of
        JObject m \<Rightarrow>
          bindE (eachE (\<lambda>key. check (map_of m key \<noteq> None) (loc @ '' is missing '' @ quoted key)) required) (\<lambda>_.
          eachE (\<lambda>key. check (key \<in> set required \<union> set optional) (loc @ '' has unknown property '' @ quoted key))
            (map fst m))
      | _ \<Rightarrow> invalid (loc @ '' must be an object''))"

text \<open>\<^verbatim>\<open>object.at(key)\<close> throws \<^verbatim>\<open>json::out_of_range\<close> when the key is absent.\<close>

definition at_key :: "json \<Rightarrow> string \<Rightarrow> filter_error + json" where
  "at_key object key = (case member object key of None \<Rightarrow> throw_runtime (''key '' @ quoted key @ '' not found'') | Some v \<Rightarrow> Inr v)"

definition required_string :: "json \<Rightarrow> string \<Rightarrow> string \<Rightarrow> filter_error + string" where
  "required_string object key loc =
     bindE (at_key object key) (\<lambda>v.
     case v of
       JString s \<Rightarrow> if s = '''' then invalid (loc @ ''.'' @ key @ '' must be a nonempty string'') else Inr s
     | _ \<Rightarrow> invalid (loc @ ''.'' @ key @ '' must be a nonempty string''))"

definition required_uint :: "json \<Rightarrow> string \<Rightarrow> string \<Rightarrow> filter_error + nat" where
  "required_uint object key loc =
     bindE (at_key object key) (\<lambda>v.
     case v of JUInt n \<Rightarrow> Inr n | _ \<Rightarrow> invalid (loc @ ''.'' @ key @ '' must be uint64''))"

definition required_bool :: "json \<Rightarrow> string \<Rightarrow> string \<Rightarrow> filter_error + bool" where
  "required_bool object key loc =
     bindE (at_key object key) (\<lambda>v.
     case v of JBool b \<Rightarrow> Inr b | _ \<Rightarrow> invalid (loc @ ''.'' @ key @ '' must be Boolean''))"

subsection \<open>The payload batch\<close>

definition canonical_suffix :: "string \<Rightarrow> bool" where
  "canonical_suffix s \<longleftrightarrow> s \<noteq> '''' \<and> \<not> (1 < length s \<and> hd s = CHR ''0'') \<and> list_all is_digit s"

definition canonical_payload_name :: "string \<Rightarrow> bool" where
  "canonical_payload_name name =
     (if starts_with name ''value_'' then canonical_suffix (drop 6 name)
      else if starts_with name ''type_'' then canonical_suffix (drop 5 name)
      else if starts_with name ''artifact_'' then canonical_suffix (drop 9 name)
      else False)"

definition metadata_value :: "fbatch \<Rightarrow> string \<Rightarrow> filter_error + string" where
  "metadata_value b key =
     (case f_metadata b of
        None \<Rightarrow> invalid (''missing schema metadata '' @ quoted key)
      | Some m \<Rightarrow> (case map_of m key of None \<Rightarrow> invalid (''missing schema metadata '' @ quoted key) | Some v \<Rightarrow> Inr v))"

definition null_at :: "aarr \<Rightarrow> nat \<Rightarrow> bool" where
  "null_at a i \<longleftrightarrow> length (a_vals a) \<le> i \<or> a_vals a ! i = ANil"

fun payload_fields :: "string list \<Rightarrow> (afield \<times> aarr) list \<Rightarrow> filter_error + unit" where
  "payload_fields names [] = Inr ()"
| "payload_fields names ((f, a) # rest) =
     bindE (check (af_name f \<notin> set names \<and> canonical_payload_name (af_name f))
       (''noncanonical or duplicate payload field '' @ quoted (af_name f))) (\<lambda>_.
     bindE (check (\<not> (starts_with (af_name f) ''type_'' \<and> \<not> null_at a 0)) ''type payload must contain NULL'') (\<lambda>_.
     payload_fields (af_name f # names) rest))"

definition session_keys :: "string list" where
  "session_keys = [''vgi_time_zone'', ''vgi_calendar'', ''vgi_default_collation'', ''vgi_ieee_floating_point_ops'',
     ''vgi_integer_division'', ''vgi_context_provider_fingerprint'']"

definition validate_filter_spec :: "fbatch \<Rightarrow> filter_error + string" where
  "validate_filter_spec b =
     (case zip (f_fields b) (f_cols b) of
        [] \<Rightarrow> invalid ''filter RecordBatch has no filter_spec field''
      | (f, a) # rest \<Rightarrow>
          bindE (check (af_name f = ''filter_spec'' \<and> af_type f = AString \<and> \<not> af_nullable f)
            ''first field must be filter_spec: utf8 not null'') (\<lambda>_.
          case a_vals a of
            ATextV text # _ \<Rightarrow>
              bindE (check (length text \<le> kMaxJsonBytes) ''filter JSON exceeds 1 MiB'') (\<lambda>_.
              bindE (payload_fields [''filter_spec''] rest) (\<lambda>_. Inr text))
          | _ \<Rightarrow> invalid ''filter_spec value must not be NULL''))"

text \<open>The evaluation context, and the text of the document.\<close>

definition validate_batch :: "fbatch option \<Rightarrow> filter_error + string \<times> string" where
  "validate_batch batch =
     (case batch of
        None \<Rightarrow> invalid ''filter RecordBatch must contain exactly one row''
      | Some b \<Rightarrow>
          bindE (check (f_rows b = 1) ''filter RecordBatch must contain exactly one row'') (\<lambda>_.
          bindE (validate_filter_spec b) (\<lambda>text.
          bindE (metadata_value b ''vgi_filter_encoding'') (\<lambda>encoding.
          bindE (check (encoding = ''vgi.filters.v2'') ''unsupported filter encoding/version'') (\<lambda>_.
          bindE (metadata_value b ''vgi_filter_version'') (\<lambda>version.
          bindE (check (version = ''2'') ''unsupported filter encoding/version'') (\<lambda>_.
          bindE (metadata_value b ''vgi_evaluation_context'') (\<lambda>context.
          bindE (check (context = ''vgi.none.v1'') (''evaluation context '' @ quoted context @ '' was not advertised'')) (\<lambda>_.
          bindE (eachE (\<lambda>key. check (case f_metadata b of None \<Rightarrow> True | Some m \<Rightarrow> map_of m key = None)
            ''vgi.none.v1 forbids session-context metadata'') session_keys) (\<lambda>_.
          Inr (context, text)))))))))))"

definition payload :: "fbatch \<Rightarrow> string \<Rightarrow> nat \<Rightarrow> filter_error + aarr" where
  "payload b pre reference =
     (let name = pre @ ''_'' @ show_nat reference in
      case filter (\<lambda>(f, a). af_name f = name) (zip (f_fields b) (f_cols b)) of
        [(f, a)] \<Rightarrow>
          bindE (if pre \<noteq> ''artifact'' then validate_arrow_extensions f else Inr ()) (\<lambda>_. Inr a)
      | _ \<Rightarrow> invalid (''missing or duplicate payload field '' @ quoted name))"

subsection \<open>Identities\<close>

definition name_char :: "char \<Rightarrow> bool" where
  "name_char c \<longleftrightarrow> is_lower c \<or> is_digit c \<or> c = CHR ''_''"

text \<open>\<^verbatim>\<open>[a-z][a-z0-9_]*\<close>\<close>

definition name_pattern :: "string \<Rightarrow> bool" where
  "name_pattern s \<longleftrightarrow> s \<noteq> [] \<and> is_lower (hd s) \<and> list_all name_char s"

fun split_dots :: "string \<Rightarrow> string list" where
  "split_dots [] = [[]]"
| "split_dots (c # s) =
     (case split_dots s of
        [] \<Rightarrow> [[c]]
      | x # xs \<Rightarrow> if c = CHR ''.'' then [] # x # xs else (c # x) # xs)"

text \<open>\<^verbatim>\<open>[a-z][a-z0-9]*(?:\.[a-z][a-z0-9_]*)*\<close>: no underscore in the first component.\<close>

definition namespace_pattern :: "string \<Rightarrow> bool" where
  "namespace_pattern s \<longleftrightarrow> list_all name_pattern (split_dots s) \<and> CHR ''_'' \<notin> set (hd (split_dots s))"

definition validate_identity :: "json \<Rightarrow> string \<Rightarrow> filter_error + string \<times> string \<times> nat" where
  "validate_identity identity loc =
     bindE (require_keys identity [''namespace'', ''name'', ''version''] [] loc) (\<lambda>_.
     bindE (required_string identity ''namespace'' loc) (\<lambda>ns.
     bindE (required_string identity ''name'' loc) (\<lambda>name.
     bindE (required_uint identity ''version'' loc) (\<lambda>version.
     bindE (check (namespace_pattern ns \<and> name_pattern name \<and> version \<noteq> 0) (loc @ '' has a noncanonical identity'')) (\<lambda>_.
     Inr (ns, name, version))))))"

subsection \<open>Expressions\<close>

record parser_env =
  p_batch :: fbatch
  p_join_keys :: "fbatch list"
  p_schema :: "afield list option"

type_synonym 'a parse = "nat \<Rightarrow> filter_error + 'a \<times> nat"

definition bindP :: "'a parse \<Rightarrow> ('a \<Rightarrow> 'b parse) \<Rightarrow> 'b parse" where
  "bindP m f = (\<lambda>nodes. bindE (m nodes) (\<lambda>(x, nodes). f x nodes))"

definition now :: "filter_error + 'a \<Rightarrow> 'a parse" where
  "now r = (\<lambda>nodes. bindE r (\<lambda>x. Inr (x, nodes)))"

definition returnP :: "'a \<Rightarrow> 'a parse" where
  "returnP x = (\<lambda>nodes. Inr (x, nodes))"

fun eachP :: "('a \<Rightarrow> 'b parse) \<Rightarrow> 'a list \<Rightarrow> 'b list parse" where
  "eachP f [] = returnP []"
| "eachP f (x # xs) = bindP (f x) (\<lambda>y. bindP (eachP f xs) (\<lambda>ys. returnP (y # ys)))"

definition type_of :: "spec \<Rightarrow> atype option" where
  "type_of e = s_type (attrs e)"

definition sub_expression :: "(json \<Rightarrow> spec parse) \<Rightarrow> json \<Rightarrow> string \<Rightarrow> spec parse" where
  "sub_expression sub node key = bindP (now (at_key node key)) sub"

definition parse_column_ref :: "parser_env \<Rightarrow> json \<Rightarrow> filter_error + spec" where
  "parse_column_ref env node =
     bindE (require_keys node [''node'', ''column_index'', ''column_name''] [] ''column_ref'') (\<lambda>_.
     bindE (required_uint node ''column_index'' ''column_ref'') (\<lambda>index.
     bindE (required_string node ''column_name'' ''column_ref'') (\<lambda>name.
     case p_schema env of
       None \<Rightarrow> invalid ''column_ref index is outside the authoritative output schema''
     | Some fs \<Rightarrow>
         if length fs \<le> index then invalid ''column_ref index is outside the authoritative output schema''
         else let field = fs ! index in
           bindE (validate_arrow_extensions field) (\<lambda>_.
           bindE (check (af_name field = name) ''column_ref name does not match authoritative index'') (\<lambda>_.
           Inr (Spec ((new_spec KColumn)\<lparr>s_column_index := index, s_column_name := name, s_type := Some (af_type field)\<rparr>) []))))))"

definition parse_field_ref :: "(json \<Rightarrow> spec parse) \<Rightarrow> json \<Rightarrow> spec parse" where
  "parse_field_ref sub node =
     bindP (now (require_keys node [''node'', ''expression'', ''field_index'', ''field_name''] [] ''field_ref'')) (\<lambda>_.
     bindP (sub_expression sub node ''expression'') (\<lambda>child.
     bindP (now (required_uint node ''field_index'' ''field_ref'')) (\<lambda>index.
     bindP (now (required_string node ''field_name'' ''field_ref'')) (\<lambda>name.
     now (case type_of child of
         Some (AStruct fs) \<Rightarrow>
           bindE (check (index < length fs \<and> af_name (fs ! index) = name)
             ''field_ref name/index does not match authoritative struct'') (\<lambda>_.
           bindE (validate_arrow_extensions (fs ! index)) (\<lambda>_.
           Inr (Spec ((new_spec KField)\<lparr>s_field_index := index, s_field_name := name,
             s_column_name := root_column child, s_type := Some (af_type (fs ! index))\<rparr>) [child])))
       | _ \<Rightarrow> invalid ''field_ref input must be STRUCT'')))))"

definition parse_literal :: "parser_env \<Rightarrow> json \<Rightarrow> filter_error + spec" where
  "parse_literal env node =
     bindE (require_keys node [''node'', ''value_ref''] [] ''literal'') (\<lambda>_.
     bindE (required_uint node ''value_ref'' ''literal'') (\<lambda>reference.
     bindE (payload (p_batch env) ''value'' reference) (\<lambda>a.
     Inr (Spec ((new_spec KLiteral)\<lparr>s_value := Some a, s_type := Some (a_type a)\<rparr>) []))))"

definition comparison_ops :: "string list" where
  "comparison_ops = [''eq'', ''ne'', ''lt'', ''le'', ''gt'', ''ge'', ''distinct_from'', ''not_distinct_from'']"

definition parse_comparison :: "(json \<Rightarrow> spec parse) \<Rightarrow> json \<Rightarrow> spec parse" where
  "parse_comparison sub node =
     bindP (now (require_keys node [''node'', ''op'', ''left'', ''right''] [] ''comparison'')) (\<lambda>_.
     bindP (now (required_string node ''op'' ''comparison'')) (\<lambda>op.
     bindP (now (check (op \<in> set comparison_ops) (''unknown comparison operator '' @ quoted op))) (\<lambda>_.
     bindP (sub_expression sub node ''left'') (\<lambda>left.
     bindP (sub_expression sub node ''right'') (\<lambda>right.
     bindP (now (check (same_logical_type (type_of left) (type_of right)) ''comparison operands have incompatible types'')) (\<lambda>_.
     returnP (Spec ((new_spec KConstant)\<lparr>s_op := op,
       s_column_name := (if root_column left = '''' then root_column right else root_column left),
       s_value := (if s_kind (attrs right) = KLiteral then s_value (attrs right) else None),
       s_type := Some ABool\<rparr>) [left, right])))))))"

definition parse_junction :: "(json \<Rightarrow> spec parse) \<Rightarrow> kind \<Rightarrow> string \<Rightarrow> json \<Rightarrow> spec parse" where
  "parse_junction sub k name node =
     bindP (now (require_keys node [''node'', ''children''] [] name)) (\<lambda>_.
     bindP (now (at_key node ''children'')) (\<lambda>list.
     bindP (now (check (is_array list \<and> 2 \<le> length (items list)) (name @ '' requires at least two children''))) (\<lambda>_.
     bindP (eachP sub (items list)) (\<lambda>cs.
     bindP (now (eachE (\<lambda>c. check (boolean_type (type_of c)) (name @ '' children must be BOOLEAN'')) cs)) (\<lambda>_.
     returnP (Spec ((new_spec k)\<lparr>s_type := Some ABool\<rparr>) cs))))))"

definition parse_not :: "(json \<Rightarrow> spec parse) \<Rightarrow> json \<Rightarrow> spec parse" where
  "parse_not sub node =
     bindP (now (require_keys node [''node'', ''expression''] [] ''not'')) (\<lambda>_.
     bindP (sub_expression sub node ''expression'') (\<lambda>child.
     bindP (now (check (boolean_type (type_of child)) ''not operand must be BOOLEAN'')) (\<lambda>_.
     returnP (Spec ((new_spec KNot)\<lparr>s_type := Some ABool\<rparr>) [child]))))"

definition parse_is_null :: "(json \<Rightarrow> spec parse) \<Rightarrow> json \<Rightarrow> spec parse" where
  "parse_is_null sub node =
     bindP (now (require_keys node [''node'', ''expression'', ''negated''] [] ''is_null'')) (\<lambda>_.
     bindP (now (required_bool node ''negated'' ''is_null'')) (\<lambda>negated.
     bindP (sub_expression sub node ''expression'') (\<lambda>child.
     returnP (Spec ((new_spec (if negated then KIsNotNull else KIsNull))\<lparr>s_negated := negated,
       s_column_name := root_column child, s_type := Some ABool\<rparr>) [child]))))"

text \<open>The set of an \<^verbatim>\<open>in\<close>: a list payload, or a column of a join-key batch.\<close>

definition literal_set :: "parser_env \<Rightarrow> json \<Rightarrow> filter_error + aarr" where
  "literal_set env values_node =
     bindE (require_keys values_node [''kind'', ''value_ref''] [] ''in.set'') (\<lambda>_.
     bindE (required_uint values_node ''value_ref'' ''in.set'') (\<lambda>reference.
     bindE (payload (p_batch env) ''value'' reference) (\<lambda>list.
     case (a_type list, a_vals list) of
       (AList f, AListV vs # _) \<Rightarrow> Inr \<lparr>a_type = af_type f, a_vals = vs\<rparr>
     | (ALargeList f, AListV vs # _) \<Rightarrow> Inr \<lparr>a_type = af_type f, a_vals = vs\<rparr>
     | (AList f, _) \<Rightarrow> invalid ''literal IN list must not be NULL''
     | (ALargeList f, _) \<Rightarrow> invalid ''literal IN list must not be NULL''
     | _ \<Rightarrow> invalid ''literal IN payload must be a list scalar'')))"

definition external_set :: "parser_env \<Rightarrow> json \<Rightarrow> filter_error + aarr" where
  "external_set env values_node =
     bindE (require_keys values_node [''kind'', ''batch_index'', ''column_index'', ''column_name''] [] ''in.set'') (\<lambda>_.
     bindE (required_uint values_node ''batch_index'' ''in.set'') (\<lambda>bi.
     bindE (required_uint values_node ''column_index'' ''in.set'') (\<lambda>ci.
     bindE (required_string values_node ''column_name'' ''in.set'') (\<lambda>name.
     bindE (check (bi < length (p_join_keys env) \<and> ci < length (f_cols (p_join_keys env ! bi)))
       ''external IN batch/column index is unavailable'') (\<lambda>_.
     let keys = p_join_keys env ! bi; field = f_fields keys ! ci in
     bindE (check (af_name field = name) ''external IN column name does not match authoritative index'') (\<lambda>_.
     bindE (validate_arrow_extensions field) (\<lambda>_.
     Inr (f_cols keys ! ci))))))))"

definition parse_set :: "parser_env \<Rightarrow> json \<Rightarrow> filter_error + aarr" where
  "parse_set env values_node =
     (case member values_node ''kind'' of
        Some (JString k) \<Rightarrow>
          if k = ''literal'' then literal_set env values_node
          else if k = ''external'' then external_set env values_node
          else invalid ''in.set has an unknown kind''
      | _ \<Rightarrow> invalid ''in.set must have a string kind'')"

definition parse_in :: "parser_env \<Rightarrow> (json \<Rightarrow> spec parse) \<Rightarrow> json \<Rightarrow> spec parse" where
  "parse_in env sub node =
     bindP (now (require_keys node [''node'', ''expression'', ''set'', ''negated''] [] ''in'')) (\<lambda>_.
     bindP (now (required_bool node ''negated'' ''in'')) (\<lambda>negated.
     bindP (sub_expression sub node ''expression'') (\<lambda>child.
     bindP (now (at_key node ''set'')) (\<lambda>values_node.
     bindP (now (parse_set env values_node)) (\<lambda>values.
     bindP (now (check (same_logical_type (type_of child) (Some (a_type values))) ''IN expression and set have incompatible types'')) (\<lambda>_.
     returnP (Spec ((new_spec KIn)\<lparr>s_negated := negated, s_column_name := root_column child,
       s_value := Some values, s_type := Some ABool\<rparr>) [child])))))))"

definition parse_cast :: "parser_env \<Rightarrow> (json \<Rightarrow> spec parse) \<Rightarrow> json \<Rightarrow> spec parse" where
  "parse_cast env sub node =
     bindP (now (require_keys node [''node'', ''expression'', ''type_ref''] [] ''cast'')) (\<lambda>_.
     bindP (sub_expression sub node ''expression'') (\<lambda>child.
     bindP (now (required_uint node ''type_ref'' ''cast'')) (\<lambda>reference.
     bindP (now (payload (p_batch env) ''type'' reference)) (\<lambda>a.
     bindP (now (check (null_at a 0) ''cast type payload must contain NULL'')) (\<lambda>_.
     bindP (now (check (\<not> (contextual_type (type_of child) \<and> contextual_type (Some (a_type a))))
       ''context-dependent cast requires vgi.duckdb.session.v1'')) (\<lambda>_.
     bindP (now (check (exact_context_free_cast (type_of child) (Some (a_type a)))
       ''cast has no exact context-free standard-v1 evaluator'')) (\<lambda>_.
     returnP (Spec ((new_spec KCast)\<lparr>s_value := Some a, s_type := Some (a_type a)\<rparr>) [child]))))))))"

definition arithmetic_ops :: "string list" where
  "arithmetic_ops = [''add'', ''subtract'', ''multiply'', ''divide'', ''modulo'']"

definition parse_arithmetic :: "(json \<Rightarrow> spec parse) \<Rightarrow> json \<Rightarrow> spec parse" where
  "parse_arithmetic sub node =
     bindP (now (require_keys node [''node'', ''op'', ''left'', ''right''] [] ''arithmetic'')) (\<lambda>_.
     bindP (now (required_string node ''op'' ''arithmetic'')) (\<lambda>op.
     bindP (now (check (op \<in> set arithmetic_ops) ''unknown arithmetic operator'')) (\<lambda>_.
     bindP (now (check (op \<noteq> ''divide'' \<and> op \<noteq> ''modulo'') ''context-dependent arithmetic requires vgi.duckdb.session.v1'')) (\<lambda>_.
     bindP (sub_expression sub node ''left'') (\<lambda>left.
     bindP (sub_expression sub node ''right'') (\<lambda>right.
     bindP (now (check (numeric_type (type_of left) \<and> same_logical_type (type_of left) (type_of right))
       ''arithmetic operands require one exact numeric type'')) (\<lambda>_.
     returnP (Spec ((new_spec KArithmetic)\<lparr>s_op := op, s_type := type_of left\<rparr>) [left, right]))))))))"

definition parse_negate :: "(json \<Rightarrow> spec parse) \<Rightarrow> json \<Rightarrow> spec parse" where
  "parse_negate sub node =
     bindP (now (require_keys node [''node'', ''expression''] [] ''negate'')) (\<lambda>_.
     bindP (sub_expression sub node ''expression'') (\<lambda>child.
     bindP (now (check (numeric_type (type_of child)) ''negate operand must be numeric'')) (\<lambda>_.
     returnP (Spec ((new_spec KNegate)\<lparr>s_type := type_of child\<rparr>) [child]))))"

definition standard_functions :: "string list" where
  "standard_functions = [''starts_with'', ''ends_with'', ''contains'', ''list_contains'']"

fun json_empty :: "json \<Rightarrow> bool" where
  "json_empty JNull = True" | "json_empty (JArray xs) = (xs = [])" | "json_empty (JObject m) = (m = [])"
| "json_empty _ = False"

definition call_types :: "string \<Rightarrow> spec list \<Rightarrow> filter_error + unit" where
  "call_types f cs =
     (if f = ''list_contains''
      then (case cs of
          list # element # _ \<Rightarrow>
            (case type_of list of
               Some (AList item) \<Rightarrow>
                 check (same_logical_type (Some (af_type item)) (type_of element)) ''list_contains element type mismatch''
             | _ \<Rightarrow> invalid ''list_contains first argument must be LIST'')
        | _ \<Rightarrow> invalid ''list_contains first argument must be LIST'')
      else eachE (\<lambda>c. check (type_of c = Some AString) ''string function arguments must be UTF8'') cs)"

definition parse_standard_call :: "(json \<Rightarrow> spec parse) \<Rightarrow> json \<Rightarrow> string \<Rightarrow> spec parse" where
  "parse_standard_call sub node f =
     bindP (now (check (f \<in> set standard_functions) ''unknown standard filter function'')) (\<lambda>_.
     bindP (now (at_key node ''arguments'')) (\<lambda>arguments.
     bindP (now (check (is_array arguments \<and> length (items arguments) = 2)
       ''standard filter functions require exactly two arguments'')) (\<lambda>_.
     bindP (now (check (case member node ''options'' of None \<Rightarrow> True | Some j \<Rightarrow> json_empty j)
       ''standard filter functions do not accept options'')) (\<lambda>_.
     bindP (eachP sub (items arguments)) (\<lambda>cs.
     bindP (now (call_types f cs)) (\<lambda>_.
     returnP (Spec ((new_spec KCall)\<lparr>s_function := f, s_type := Some ABool\<rparr>) cs)))))))"

definition parse_call :: "(json \<Rightarrow> spec parse) \<Rightarrow> json \<Rightarrow> spec parse" where
  "parse_call sub node =
     bindP (now (require_keys node [''node'', ''function'', ''arguments''] [''options''] ''call'')) (\<lambda>_.
     bindP (now (at_key node ''function'')) (\<lambda>f.
     case f of
       JString name \<Rightarrow> parse_standard_call sub node name
     | _ \<Rightarrow> now (bindE (validate_identity f ''call.function'') (\<lambda>_.
         invalid ''extension filter functions were not advertised''))))"

definition parse_runtime_filter :: "parser_env \<Rightarrow> (json \<Rightarrow> spec parse) \<Rightarrow> bool \<Rightarrow> json \<Rightarrow> spec parse" where
  "parse_runtime_filter env sub is_root node =
     bindP (now (require_keys node [''node'', ''algorithm'', ''input'', ''artifact_ref'', ''null_handling''] [] ''runtime_filter'')) (\<lambda>_.
     bindP (now (check is_root ''runtime_filter may appear only at a predicate root'')) (\<lambda>_.
     bindP (now (at_key node ''algorithm'')) (\<lambda>algorithm.
     bindP (now (validate_identity algorithm ''runtime_filter.algorithm'')) (\<lambda>(ns, name, version).
     bindP (now (check (ns = ''duckdb.runtime_filter'' \<and> (name = ''bloom'' \<or> name = ''prefix_range'') \<and> version = 1)
       ''unknown runtime-filter algorithm'')) (\<lambda>_.
     bindP (now (required_string node ''null_handling'' ''runtime_filter'')) (\<lambda>null_handling.
     bindP (now (check (null_handling = ''pass'' \<or> null_handling = ''reject'')
       ''runtime_filter.null_handling must be pass or reject'')) (\<lambda>_.
     bindP (sub_expression sub node ''input'') (\<lambda>child.
     bindP (now (required_uint node ''artifact_ref'' ''runtime_filter'')) (\<lambda>reference.
     bindP (now (payload (p_batch env) ''artifact'' reference)) (\<lambda>_.
     returnP (Spec (new_spec KRuntimeFilter) [child])))))))))))"

definition parse_node :: "parser_env \<Rightarrow> (json \<Rightarrow> spec parse) \<Rightarrow> bool \<Rightarrow> string \<Rightarrow> json \<Rightarrow> spec parse" where
  "parse_node env sub is_root kind node =
     (if kind = ''column_ref'' then now (parse_column_ref env node)
      else if kind = ''field_ref'' then parse_field_ref sub node
      else if kind = ''literal'' then now (parse_literal env node)
      else if kind = ''comparison'' then parse_comparison sub node
      else if kind = ''and'' then parse_junction sub KAnd kind node
      else if kind = ''or'' then parse_junction sub KOr kind node
      else if kind = ''not'' then parse_not sub node
      else if kind = ''is_null'' then parse_is_null sub node
      else if kind = ''in'' then parse_in env sub node
      else if kind = ''cast'' then parse_cast env sub node
      else if kind = ''arithmetic'' then parse_arithmetic sub node
      else if kind = ''negate'' then parse_negate sub node
      else if kind = ''call'' then parse_call sub node
      else if kind = ''runtime_filter'' then parse_runtime_filter env sub is_root node
      else now (invalid (''unknown expression node '' @ quoted kind)))"

primrec expression :: "nat \<Rightarrow> parser_env \<Rightarrow> bool \<Rightarrow> json \<Rightarrow> spec parse" where
  "expression 0 env is_root node = now (invalid ''expression exceeds nesting-depth limit'')"
| "expression (Suc left) env is_root node = (\<lambda>nodes.
     if kMaxNodes < nodes + 1 then invalid ''document exceeds expression-node limit''
     else case member node ''node'' of
         Some (JString kind) \<Rightarrow> parse_node env (expression left env False) is_root kind node (nodes + 1)
       | _ \<Rightarrow> invalid ''expression must have a string node'')"

subsection \<open>Documents\<close>

datatype event = ObjectStart nat | Key nat string | OtherEvent

fun duplicate_keys :: "(nat \<Rightarrow> string set) \<Rightarrow> bool \<Rightarrow> event list \<Rightarrow> bool" where
  "duplicate_keys keys duplicate [] = duplicate"
| "duplicate_keys keys duplicate (ObjectStart depth # es) = duplicate_keys (keys(depth := {})) duplicate es"
| "duplicate_keys keys duplicate (Key depth key # es) =
     (if depth = 0 then duplicate_keys keys duplicate es
      else duplicate_keys (keys(depth - 1 := insert key (keys (depth - 1)))) (duplicate \<or> key \<in> keys (depth - 1)) es)"
| "duplicate_keys keys duplicate (OtherEvent # es) = duplicate_keys keys duplicate es"

definition document_for :: "(string \<Rightarrow> string + event list \<times> json) \<Rightarrow> string \<Rightarrow> filter_error + json" where
  "document_for parse_json text =
     (case parse_json text of
        Inl what \<Rightarrow> invalid (''invalid filter JSON: '' @ what)
      | Inr (events, document) \<Rightarrow>
          if duplicate_keys (\<lambda>_. {}) False events then invalid ''invalid filter JSON: duplicate object key''
          else Inr document)"

definition validate_header :: "json \<Rightarrow> string \<Rightarrow> string \<Rightarrow> filter_error + json list" where
  "validate_header document kind name =
     bindE (require_keys document [''encoding'', ''semantics'', ''kind'', name] [] ''filter document'') (\<lambda>_.
     bindE (at_key document ''encoding'') (\<lambda>encoding.
     bindE (check (encoding = JString ''vgi.filters.v2'') ''document encoding must be vgi.filters.v2'') (\<lambda>_.
     bindE (at_key document ''semantics'') (\<lambda>semantics.
     bindE (check (semantics = JString ''vgi.duckdb.standard.v1'') ''unsupported filter semantics'') (\<lambda>_.
     bindE (at_key document ''kind'') (\<lambda>k.
     bindE (check (k = JString kind) (''expected a '' @ kind @ '' filter document'')) (\<lambda>_.
     bindE (at_key document name) (\<lambda>list.
     bindE (check (is_array list) (name @ '' must be an array'')) (\<lambda>_.
     Inr (items list))))))))))"

definition predicate_sources :: "string list" where
  "predicate_sources = [''query'', ''join'', ''top_n'', ''split_refinement'', ''other'']"

definition parse_predicate :: "parser_env \<Rightarrow> bool \<Rightarrow> json \<Rightarrow> spec parse" where
  "parse_predicate env delta item =
     bindP (now (require_keys item [''id'', ''revision'', ''mode'', ''source'', ''expression'']
       (if delta then [''operation''] else []) ''predicate'')) (\<lambda>_.
     bindP (now (at_key item ''expression'')) (\<lambda>node.
     bindP (expression kMaxDepth env True node) (\<lambda>e.
     bindP (now (required_string item ''id'' ''predicate'')) (\<lambda>i.
     bindP (now (check (length i \<le> 128) ''predicate ID exceeds 128 bytes'')) (\<lambda>_.
     bindP (now (required_uint item ''revision'' ''predicate'')) (\<lambda>revision.
     bindP (now (required_string item ''mode'' ''predicate'')) (\<lambda>mode.
     bindP (now (check (mode = ''required'' \<or> mode = ''advisory'') ''unknown predicate mode'')) (\<lambda>_.
     bindP (now (check (\<not> (delta \<and> mode \<noteq> ''advisory'')) ''delta upserts must be advisory'')) (\<lambda>_.
     bindP (now (required_string item ''source'' ''predicate'')) (\<lambda>source.
     bindP (now (check (source \<in> set predicate_sources) ''unknown predicate source'')) (\<lambda>_.
     bindP (now (check (\<not> (s_kind (attrs e) = KRuntimeFilter \<and> mode \<noteq> ''advisory'')) ''runtime_filter predicates must be advisory'')) (\<lambda>_.
     bindP (now (check (\<not> (s_kind (attrs e) \<noteq> KRuntimeFilter \<and> \<not> boolean_type (type_of e))) ''predicate root must resolve to BOOLEAN'')) (\<lambda>_.
     returnP (Spec ((attrs e)\<lparr>s_id := i, s_revision := revision, s_advisory := (mode = ''advisory'')\<rparr>) (children e)))))))))))))))"

end
