(* ===== verification/Filter_Eval.thy ===== *)
theory Filter_Eval
  imports Filter_Parser
begin

section \<open>Evaluating filters\<close>

text \<open>
  The evaluator of \<^verbatim>\<open>src/src/pushdown.cpp\<close>: three-valued comparison with a total order on floats,
  equality of nested values, the expression evaluator, and \<^verbatim>\<open>PushdownFilters::apply\<close>. Arrow's kernels
  are called through \<open>compute\<close>; what a kernel does is not fixed here, only which kernel is called
  on what.
\<close>

subsection \<open>Operands\<close>

definition array_from_datum :: "datum \<Rightarrow> nat \<Rightarrow> filter_error + aarr" where
  "array_from_datum d n =
     (case d of
        DArray a \<Rightarrow> if length (a_vals a) \<noteq> n then throw_runtime ''filter expression length mismatch'' else Inr a
      | DScalar t v \<Rightarrow> Inr \<lparr>a_type = t, a_vals = replicate n v\<rparr>)"

fun decoded_dictionary :: "datum \<Rightarrow> datum" where
  "decoded_dictionary (DArray a) =
     (case a_type a of ADictionary i t \<Rightarrow> DArray (a\<lparr>a_type := t\<rparr>) | _ \<Rightarrow> DArray a)"
| "decoded_dictionary (DScalar t v) = DScalar t v"

definition call_kernel :: "compute \<Rightarrow> string \<Rightarrow> datum list \<Rightarrow> filter_error + datum" where
  "call_kernel cx name arguments =
     value_or_throw (call_function cx name (map decoded_dictionary arguments)) (''evaluate '' @ name)"

subsection \<open>Comparison\<close>

text \<open>\<^verbatim>\<open>std::isnan\<close>, then \<^verbatim>\<open><\<close> and \<^verbatim>\<open>>\<close> on doubles that are numbers.\<close>

fun double_less :: "float64 \<Rightarrow> float64 \<Rightarrow> bool" where
  "double_less NaN y = False" | "double_less x NaN = False"
| "double_less NegInf y = (y \<noteq> NegInf)" | "double_less x NegInf = False"
| "double_less PosInf y = False" | "double_less x PosInf = True"
| "double_less (Fin a) (Fin b) = (a < b)"

definition floating_ordering :: "float64 \<Rightarrow> float64 \<Rightarrow> int" where
  "floating_ordering left right =
     (if left = NaN then (if right = NaN then 0 else 1)
      else if right = NaN then - 1
      else if double_less left right then - 1
      else if double_less right left then 1
      else 0)"

definition floating_compare :: "float64 \<Rightarrow> float64 \<Rightarrow> string \<Rightarrow> filter_error + bool" where
  "floating_compare left right op =
     (let ordering = floating_ordering left right in
      if op = ''eq'' \<or> op = ''not_distinct_from'' then Inr (ordering = 0)
      else if op = ''ne'' \<or> op = ''distinct_from'' then Inr (ordering \<noteq> 0)
      else if op = ''lt'' then Inr (ordering < 0)
      else if op = ''le'' then Inr (ordering \<le> 0)
      else if op = ''gt'' then Inr (ordering > 0)
      else if op = ''ge'' then Inr (ordering \<ge> 0)
      else throw_runtime ''unsupported comparison operator'')"

fun float_of :: "aval \<Rightarrow> float64" where
  "float_of (AFloatV f) = f" | "float_of _ = Fin 0"

definition is_distinct_op :: "string \<Rightarrow> bool" where
  "is_distinct_op op \<longleftrightarrow> op = ''distinct_from'' \<or> op = ''not_distinct_from''"

definition distinct_value :: "string \<Rightarrow> bool \<Rightarrow> aval" where
  "distinct_value op differ = ABoolV (if op = ''distinct_from'' then differ else \<not> differ)"

text \<open>One row of the floating loop.\<close>

definition floating_row :: "string \<Rightarrow> aval \<times> aval \<Rightarrow> filter_error + aval" where
  "floating_row op lr =
     (case lr of (l, r) \<Rightarrow>
      if l = ANil \<or> r = ANil
      then Inr (if is_distinct_op op then distinct_value op ((l = ANil) \<noteq> (r = ANil)) else ANil)
      else bindE (floating_compare (float_of l) (float_of r) op) (\<lambda>b. Inr (ABoolV b)))"

fun distinct_row :: "string \<Rightarrow> (aval \<times> aval) \<times> aval \<Rightarrow> aval" where
  "distinct_row op ((l, r), equal) =
     distinct_value op (if l = ANil \<or> r = ANil then (l = ANil) \<noteq> (r = ANil) else equal \<noteq> ABoolV True)"

definition kernel_of :: "string \<Rightarrow> string option" where
  "kernel_of op = map_of [(''eq'', ''equal''), (''ne'', ''not_equal''), (''lt'', ''less''), (''le'', ''less_equal''),
     (''gt'', ''greater''), (''ge'', ''greater_equal'')] op"

definition bool_array :: "aval list \<Rightarrow> datum" where
  "bool_array vs = DArray \<lparr>a_type = ABool, a_vals = vs\<rparr>"

definition compare_arrays :: "compute \<Rightarrow> aarr \<Rightarrow> aarr \<Rightarrow> string \<Rightarrow> nat \<Rightarrow> filter_error + datum" where
  "compare_arrays cx left right op n =
     (if floating_type (a_type left) \<or> floating_type (a_type right)
      then
        bindE (value_or_throw (cast_to cx (DArray left) ADouble) ''cast floating comparison input'') (\<lambda>dl.
        bindE (array_from_datum dl n) (\<lambda>l.
        bindE (value_or_throw (cast_to cx (DArray right) ADouble) ''cast floating comparison input'') (\<lambda>dr.
        bindE (array_from_datum dr n) (\<lambda>r.
        bindE (mapE (floating_row op) (zip (a_vals l) (a_vals r))) (\<lambda>vs. Inr (bool_array vs))))))
      else if is_distinct_op op
      then
        bindE (call_kernel cx ''equal'' [DArray left, DArray right]) (\<lambda>d.
        bindE (array_from_datum d n) (\<lambda>equals.
        Inr (bool_array (map (distinct_row op) (zip (zip (a_vals left) (a_vals right)) (a_vals equals))))))
      else (case kernel_of op of
          None \<Rightarrow> throw_runtime ''unsupported comparison operator''
        | Some kn \<Rightarrow> call_kernel cx kn [DArray left, DArray right]))"

definition compare :: "compute \<Rightarrow> datum \<Rightarrow> datum \<Rightarrow> string \<Rightarrow> nat \<Rightarrow> filter_error + datum" where
  "compare cx left right op n =
     bindE (array_from_datum (decoded_dictionary left) n) (\<lambda>l.
     bindE (array_from_datum (decoded_dictionary right) n) (\<lambda>r.
     if \<not> type_equals (a_type l) (a_type r) \<or> \<not> comparison_type_supported (a_type l)
     then throw_runtime ''comparison type has no exact standard-v1 evaluator''
     else compare_arrays cx l r op n))"

subsection \<open>Equality of nested values\<close>

fun field_types :: "atype \<Rightarrow> atype list" where
  "field_types (AStruct fs) = map af_type fs"
| "field_types _ = []"

fun element_type :: "atype \<Rightarrow> atype option" where
  "element_type (AList f) = Some (af_type f)" | "element_type (ALargeList f) = Some (af_type f)"
| "element_type (AFixedSizeList f n) = Some (af_type f)" | "element_type (AListView f) = Some (af_type f)"
| "element_type (ALargeListView f) = Some (af_type f)" | "element_type (AMap k v) = Some (AStruct [k, v])"
| "element_type _ = None"

text \<open>
  Typed values; a dictionary value is read at its logical type. Lists and structs are compared
  element by element until one differs.
\<close>

fun nested_scalar_equal :: "compute \<Rightarrow> atype \<Rightarrow> aval \<Rightarrow> atype \<Rightarrow> aval \<Rightarrow> bool"
and nested_lists_equal :: "compute \<Rightarrow> atype list \<Rightarrow> aval list \<Rightarrow> atype list \<Rightarrow> aval list \<Rightarrow> bool" where
  "nested_scalar_equal cx tleft left tright right =
     (if left = ANil \<or> right = ANil then (left = ANil) = (right = ANil)
      else if \<not> same_logical_type (Some tleft) (Some tright) then False
      else let t = logical_type tleft in
        if floating_type t then floating_compare (float_of left) (float_of right) ''eq'' = Inr True
        else (case (left, right) of
            (AStructV ls, AStructV rs) \<Rightarrow>
              length ls = length rs \<and>
              nested_lists_equal cx (field_types t) ls (field_types (logical_type tright)) rs
          | (AListV ls, AListV rs) \<Rightarrow>
              length ls = length rs \<and>
              (case (element_type t, element_type (logical_type tright)) of
                 (Some el, Some er) \<Rightarrow>
                   nested_lists_equal cx (replicate (length ls) el) ls (replicate (length rs) er) rs
               | _ \<Rightarrow> scalar_equals cx t left right)
          | _ \<Rightarrow> scalar_equals cx t left right))"
| "nested_lists_equal cx (tleft # tlefts) (l # ls) (tright # trights) (r # rs) =
     (nested_scalar_equal cx tleft l tright r \<and> nested_lists_equal cx tlefts ls trights rs)"
| "nested_lists_equal cx _ _ _ _ = True"

subsection \<open>Expressions\<close>

fun text_at :: "aval \<Rightarrow> bytes" where
  "text_at (ATextV s) = s" | "text_at _ = ''''"

definition list_contains :: "compute \<Rightarrow> atype \<Rightarrow> aval list \<Rightarrow> atype \<Rightarrow> aval \<Rightarrow> bool" where
  "list_contains cx t vs tn needle \<longleftrightarrow> (\<exists>v \<in> set vs. v \<noteq> ANil \<and> nested_scalar_equal cx t v tn needle)"

definition call_row :: "compute \<Rightarrow> string \<Rightarrow> atype \<Rightarrow> atype \<Rightarrow> aval \<times> aval \<Rightarrow> filter_error + aval" where
  "call_row cx f tleft tright lr =
     (case lr of (l, r) \<Rightarrow>
      if l = ANil \<or> r = ANil then Inr ANil
      else if f = ''list_contains''
      then (case (tleft, l) of
          (AList e, AListV vs) \<Rightarrow> Inr (ABoolV (list_contains cx (af_type e) vs tright r))
        | (ALargeList e, AListV vs) \<Rightarrow> Inr (ABoolV (list_contains cx (af_type e) vs tright r))
        | _ \<Rightarrow> throw_runtime ''list_contains requires a list argument'')
      else if tleft \<notin> {AString, ALargeString} \<or> tright \<notin> {AString, ALargeString}
      then throw_runtime ''standard string filter requires UTF8 arguments''
      else let haystack = text_at l; needle = text_at r in
        Inr (ABoolV (if f = ''starts_with'' then prefix needle haystack
          else if f = ''ends_with'' then suffix needle haystack
          else if f = ''contains'' then sublist needle haystack
          else False)))"

definition standard_call :: "compute \<Rightarrow> string \<Rightarrow> datum \<Rightarrow> datum \<Rightarrow> nat \<Rightarrow> filter_error + datum" where
  "standard_call cx f dl dr n =
     bindE (array_from_datum dl n) (\<lambda>l.
     bindE (array_from_datum dr n) (\<lambda>r.
     bindE (mapE (call_row cx f (a_type l) (a_type r)) (zip (a_vals l) (a_vals r))) (\<lambda>vs. Inr (bool_array vs))))"

definition field_indices :: "fbatch \<Rightarrow> string \<Rightarrow> nat list" where
  "field_indices b name = filter (\<lambda>i. af_name (f_fields b ! i) = name) [0..<length (f_fields b)]"

definition column_position :: "attrs \<Rightarrow> fbatch \<Rightarrow> nat option" where
  "column_position a b =
     (if s_column_index a < length (f_fields b) \<and> af_name (f_fields b ! s_column_index a) = s_column_name a
      then Some (s_column_index a)
      else case field_indices b (s_column_name a) of [i] \<Rightarrow> Some i | _ \<Rightarrow> None)"

definition evaluate_column :: "attrs \<Rightarrow> fbatch \<Rightarrow> filter_error + datum" where
  "evaluate_column a b =
     (case column_position a b of
        None \<Rightarrow> throw_runtime (''filter column '' @ quoted (s_column_name a) @ '' is absent'')
      | Some i \<Rightarrow>
          if s_type a = None \<or> \<not> type_equals (af_type (f_fields b ! i)) (the (s_type a))
          then throw_runtime (''filter column '' @ quoted (s_column_name a) @ '' changed type'')
          else Inr (DArray (f_cols b ! i)))"

fun struct_child :: "nat \<Rightarrow> aval \<Rightarrow> aval" where
  "struct_child i (AStructV vs) = (if i < length vs then vs ! i else ANil)"
| "struct_child i _ = ANil"

definition evaluate_field :: "compute \<Rightarrow> attrs \<Rightarrow> datum \<Rightarrow> nat \<Rightarrow> filter_error + datum" where
  "evaluate_field cx a d n =
     bindE (array_from_datum d n) (\<lambda>parent.
     case a_type parent of
       AStruct fs \<Rightarrow>
         if length fs \<le> s_field_index a
         then throw_runtime ''filter field_ref input is not the authoritative struct''
         else let child = decoded_dictionary (DArray \<lparr>a_type = af_type (fs ! s_field_index a),
                    a_vals = map (struct_child (s_field_index a)) (a_vals parent)\<rparr>) in
           if ANil \<notin> set (a_vals parent) then Inr child
           else
             bindE (call_kernel cx ''is_valid'' [DArray parent]) (\<lambda>valid.
             call_kernel cx ''if_else'' [valid, child, DScalar (datum_type child) ANil])
     | _ \<Rightarrow> throw_runtime ''filter field_ref input is not the authoritative struct'')"

definition evaluate_literal :: "attrs \<Rightarrow> filter_error + datum" where
  "evaluate_literal a =
     (case s_value a of
        Some v \<Rightarrow> (case a_vals v of x # _ \<Rightarrow> Inr (DScalar (a_type v) x) | [] \<Rightarrow> throw_runtime ''read filter literal'')
      | None \<Rightarrow> throw_runtime ''read filter literal'')"

text \<open>The loop of an \<^verbatim>\<open>in\<close>: the disjunction of the comparisons with every candidate.\<close>

fun in_loop :: "compute \<Rightarrow> datum \<Rightarrow> atype \<Rightarrow> nat \<Rightarrow> datum \<Rightarrow> aval list \<Rightarrow> filter_error + datum" where
  "in_loop cx input t n result [] = Inr result"
| "in_loop cx input t n result (v # vs) =
     bindE (compare cx input (DScalar t v) ''eq'' n) (\<lambda>equal.
     bindE (call_kernel cx ''or_kleene'' [result, equal]) (\<lambda>result.
     in_loop cx input t n result vs))"

definition evaluate_in :: "compute \<Rightarrow> attrs \<Rightarrow> datum \<Rightarrow> nat \<Rightarrow> filter_error + datum" where
  "evaluate_in cx a d n =
     (case s_value a of
        None \<Rightarrow> throw_runtime ''IN without a set''
      | Some members \<Rightarrow>
          (case decoded_dictionary (DArray members) of
             DArray values \<Rightarrow>
               bindE (in_loop cx (decoded_dictionary d) (a_type values) n (bool_array (replicate n (ABoolV False))) (a_vals values)) (\<lambda>result.
               if s_negated a then call_kernel cx ''invert'' [result] else Inr result)
           | _ \<Rightarrow> throw_runtime ''IN without a set''))"

function (sequential) evaluate :: "compute \<Rightarrow> spec \<Rightarrow> fbatch \<Rightarrow> filter_error + datum"
and evaluate_rest :: "compute \<Rightarrow> string \<Rightarrow> spec list \<Rightarrow> fbatch \<Rightarrow> datum \<Rightarrow> filter_error + datum" where
  "evaluate cx (Spec a cs) b =
     (if s_kind a = KColumn then evaluate_column a b
      else if s_kind a = KLiteral then evaluate_literal a
      else if s_kind a = KRuntimeFilter then throw_runtime ''runtime filter has no negotiated evaluator''
      else
          (case cs of
             [] \<Rightarrow> throw_runtime ''expression without operands''
           | c # rest \<Rightarrow>
               if s_kind a = KField then bindE (evaluate cx c b) (\<lambda>d. evaluate_field cx a d (f_rows b))
               else if s_kind a = KAnd \<or> s_kind a = KOr
               then bindE (evaluate cx c b) (evaluate_rest cx (if s_kind a = KAnd then ''and_kleene'' else ''or_kleene'') rest b)
               else if s_kind a = KNot then bindE (evaluate cx c b) (\<lambda>d. call_kernel cx ''invert'' [d])
               else if s_kind a = KIsNull \<or> s_kind a = KIsNotNull
               then bindE (evaluate cx c b) (\<lambda>d. call_kernel cx (if s_kind a = KIsNull then ''is_null'' else ''is_valid'') [d])
               else if s_kind a = KIn then bindE (evaluate cx c b) (\<lambda>d. evaluate_in cx a d (f_rows b))
               else if s_kind a = KCast
               then (if \<not> exact_context_free_cast (type_of c) (s_type a)
                     then throw_runtime ''cast has no exact context-free standard-v1 evaluator''
                     else bindE (evaluate cx c b) (\<lambda>d. value_or_throw (cast_to cx d (the (s_type a))) ''evaluate cast''))
               else if s_kind a = KNegate then bindE (evaluate cx c b) (\<lambda>d. call_kernel cx ''negate_checked'' [d])
               else (case rest of
                   [] \<Rightarrow> throw_runtime ''expression without operands''
                 | c2 # _ \<Rightarrow>
                     bindE (evaluate cx c b) (\<lambda>l.
                     bindE (evaluate cx c2 b) (\<lambda>r.
                     if s_kind a = KConstant then compare cx l r (s_op a) (f_rows b)
                     else if s_kind a = KArithmetic then call_kernel cx (s_op a @ ''_checked'') [l, r]
                     else standard_call cx (s_function a) l r (f_rows b))))))"
| "evaluate_rest cx kn [] b result = Inr result"
| "evaluate_rest cx kn (c # cs) b result =
     bindE (evaluate cx c b) (\<lambda>d. bindE (call_kernel cx kn [result, d]) (evaluate_rest cx kn cs b))"
  by pat_completeness auto
termination by (relation "measure (\<lambda>x. case x of Inl (cx, s, b) \<Rightarrow> size s | Inr (cx, k, ss, b, d) \<Rightarrow> size_list size ss)") auto

subsection \<open>Applying the predicates\<close>

definition apply_one :: "compute \<Rightarrow> spec \<Rightarrow> fbatch \<Rightarrow> filter_error + fbatch" where
  "apply_one cx p b =
     bindE (evaluate cx p b) (\<lambda>d.
     bindE (array_from_datum d (f_rows b)) (\<lambda>mask.
     if a_type mask \<noteq> ABool then throw_runtime ''predicate did not evaluate to BOOLEAN''
     else case filter_rows cx b (a_vals mask) of
         Inl status \<Rightarrow> throw_runtime status
       | Inr filtered \<Rightarrow> Inr filtered))"

fun apply_filters :: "compute \<Rightarrow> spec list \<Rightarrow> fbatch \<Rightarrow> filter_error + fbatch" where
  "apply_filters cx [] b = Inr b"
| "apply_filters cx (p # ps) b =
     (if s_kind (attrs p) = KRuntimeFilter then apply_filters cx ps b
      else case apply_one cx p b of
          Inr filtered \<Rightarrow> apply_filters cx ps filtered
        | Inl e \<Rightarrow> if s_advisory (attrs p) then apply_filters cx ps b else Inl e)"

end
