(* ===== verification/Pushdown.thy ===== *)
theory Pushdown
  imports Filter_Eval
begin

section \<open>The predicates of a scan\<close>

text \<open>
  \<^verbatim>\<open>PushdownFilters\<close> of \<^verbatim>\<open>src/src/pushdown.cpp\<close>: parsing a snapshot, applying a delta, and what a worker
  asks of the predicates: the filters on a column, integer bounds, enumerated values, the text of a
  predicate. \<open>ipc\<close> is Arrow's stream reader and \<open>parse_json\<close> the JSON parser.
\<close>

subsection \<open>Flattening\<close>

datatype filter_kind = FConstant | FIn | FIsNull | FIsNotNull | FJoinKeys | FOther

record filter_view =
  v_kind :: filter_kind
  v_column :: string
  v_op :: string

fun kind_of :: "kind \<Rightarrow> filter_kind" where
  "kind_of KConstant = FConstant" | "kind_of KIn = FIn" | "kind_of KIsNull = FIsNull"
| "kind_of KIsNotNull = FIsNotNull" | "kind_of _ = FOther"

fun collect_columns :: "spec \<Rightarrow> string list" where
  "collect_columns (Spec a cs) =
     (if s_kind a = KColumn then [s_column_name a] else []) @ concat (map collect_columns cs)"

fun flatten :: "spec \<Rightarrow> filter_view list" where
  "flatten (Spec a cs) =
     (if s_kind a = KAnd \<or> s_kind a = KOr then concat (map flatten cs)
      else let columns = collect_columns (Spec a cs) in
        (if columns = [] then [\<lparr>v_kind = kind_of (s_kind a), v_column = s_column_name a, v_op = s_op a\<rparr>] else []) @
        map (\<lambda>c. \<lparr>v_kind = kind_of (s_kind a), v_column = c, v_op = s_op a\<rparr>) columns)"

definition mentions :: "spec \<Rightarrow> string \<Rightarrow> bool" where
  "mentions e column \<longleftrightarrow> column \<in> set (collect_columns e)"

subsection \<open>Boolean columns\<close>

definition boolean_column :: "spec \<Rightarrow> string option" where
  "boolean_column e =
     (if s_kind (attrs e) = KColumn \<and> boolean_type (type_of e) then Some (s_column_name (attrs e)) else None)"

fun boolean_column_leaf :: "spec \<Rightarrow> (string \<times> bool) option" where
  "boolean_column_leaf (Spec a cs) =
     (if s_kind a = KNot \<and> length cs = 1
      then map_option (\<lambda>name. (name, False)) (boolean_column (hd cs))
      else map_option (\<lambda>name. (name, True)) (boolean_column (Spec a cs)))"

subsection \<open>Enumerated values\<close>

fun discrete_values :: "compute \<Rightarrow> spec \<Rightarrow> string \<Rightarrow> aarr option"
and first_values :: "compute \<Rightarrow> spec list \<Rightarrow> string \<Rightarrow> aarr option"
and all_values :: "compute \<Rightarrow> spec list \<Rightarrow> string \<Rightarrow> aarr list option" where
  "discrete_values cx (Spec a cs) column =
     (if s_kind a = KConstant \<and> s_op a = ''eq'' \<and> length cs = 2 \<and> is_direct_column (cs ! 0) column \<and>
         s_kind (attrs (cs ! 1)) = KLiteral
      then s_value (attrs (cs ! 1))
      else case boolean_column_leaf (Spec a cs) of
          Some (name, flag) \<Rightarrow>
            if name = column then Some \<lparr>a_type = ABool, a_vals = [ABoolV flag]\<rparr>
            else None
        | None \<Rightarrow>
            if s_kind a = KIn \<and> \<not> s_negated a \<and> cs \<noteq> [] \<and> is_direct_column (hd cs) column then s_value a
            else if s_kind a = KAnd then first_values cx cs column
            else if s_kind a = KOr
            then (case all_values cx cs column of
                None \<Rightarrow> None
              | Some arrays \<Rightarrow>
                  if arrays = [] then None
                  else (case concat_arrays cx arrays of None \<Rightarrow> None | Some combined \<Rightarrow> unique_values cx combined))
            else None)"
| "first_values cx [] column = None"
| "first_values cx (c # cs) column =
     (case discrete_values cx c column of Some v \<Rightarrow> Some v | None \<Rightarrow> first_values cx cs column)"
| "all_values cx [] column = Some []"
| "all_values cx (c # cs) column =
     (case discrete_values cx c column of
        None \<Rightarrow> None
      | Some v \<Rightarrow> (case all_values cx cs column of None \<Rightarrow> None | Some vs \<Rightarrow> Some (v # vs)))"

subsection \<open>Bounds\<close>

record bounds =
  b_min :: "int option"
  b_max :: "int option"

definition int64_max :: int where
  "int64_max = 2 ^ 63 - 1"

definition int64_min :: int where
  "int64_min = - (2 ^ 63)"

text \<open>The values of an integer array, read as 64-bit; \<open>None\<close> when the type or the cast refuses.\<close>

definition int64_values :: "compute \<Rightarrow> aarr \<Rightarrow> aval list option" where
  "int64_values cx a =
     (if \<not> is_integer (logical_type (a_type a)) then None
      else case cast_to cx (DArray a) AInt64 of Inr (DArray c) \<Rightarrow> Some (a_vals c) | _ \<Rightarrow> None)"

definition scalar_int64 :: "compute \<Rightarrow> aarr option \<Rightarrow> int option" where
  "scalar_int64 cx v =
     (case v of
        None \<Rightarrow> None
      | Some a \<Rightarrow>
          if a_vals a = [] \<or> hd (a_vals a) = ANil then None
          else case int64_values cx (a\<lparr>a_vals := take 1 (a_vals a)\<rparr>) of
              Some (AIntV i # _) \<Rightarrow> Some i
            | _ \<Rightarrow> None)"

definition intersect :: "bounds \<Rightarrow> bounds \<Rightarrow> bounds" where
  "intersect left right =
     \<lparr>b_min = (case b_min right of None \<Rightarrow> b_min left
        | Some r \<Rightarrow> Some (case b_min left of None \<Rightarrow> r | Some l \<Rightarrow> max l r)),
      b_max = (case b_max right of None \<Rightarrow> b_max left
        | Some r \<Rightarrow> Some (case b_max left of None \<Rightarrow> r | Some l \<Rightarrow> min l r))\<rparr>"

definition unite :: "bounds \<Rightarrow> bounds \<Rightarrow> bounds" where
  "unite left right =
     \<lparr>b_min = (case (b_min left, b_min right) of (Some l, Some r) \<Rightarrow> Some (min l r) | _ \<Rightarrow> None),
      b_max = (case (b_max left, b_max right) of (Some l, Some r) \<Rightarrow> Some (max l r) | _ \<Rightarrow> None)\<rparr>"

definition mirrored :: "string \<Rightarrow> string" where
  "mirrored op =
     (if op = ''gt'' then ''lt'' else if op = ''ge'' then ''le''
      else if op = ''lt'' then ''gt'' else if op = ''le'' then ''ge'' else op)"

definition operator_bounds :: "string \<Rightarrow> int \<Rightarrow> bounds option" where
  "operator_bounds op v =
     (if op = ''eq'' then Some \<lparr>b_min = Some v, b_max = Some v\<rparr>
      else if op = ''gt'' then Some \<lparr>b_min = Some (if v = int64_max then v else v + 1), b_max = None\<rparr>
      else if op = ''ge'' then Some \<lparr>b_min = Some v, b_max = None\<rparr>
      else if op = ''lt'' then Some \<lparr>b_min = None, b_max = Some (if v = int64_min then v else v - 1)\<rparr>
      else if op = ''le'' then Some \<lparr>b_min = None, b_max = Some v\<rparr>
      else None)"

definition comparison_bounds :: "compute \<Rightarrow> string \<Rightarrow> spec \<Rightarrow> spec \<Rightarrow> string \<Rightarrow> bounds option" where
  "comparison_bounds cx op left right column =
     (let (op, literal) =
        (if is_direct_column left column \<and> s_kind (attrs right) = KLiteral then (op, Some right)
         else if is_direct_column right column \<and> s_kind (attrs left) = KLiteral then (mirrored op, Some left)
         else (op, None))
      in case literal of
          None \<Rightarrow> None
        | Some l \<Rightarrow> (case scalar_int64 cx (s_value (attrs l)) of None \<Rightarrow> None | Some v \<Rightarrow> operator_bounds op v))"

definition widen :: "bounds \<Rightarrow> aval \<Rightarrow> bounds" where
  "widen r v =
     (case v of
        AIntV i \<Rightarrow> \<lparr>b_min = Some (case b_min r of None \<Rightarrow> i | Some m \<Rightarrow> min m i),
                    b_max = Some (case b_max r of None \<Rightarrow> i | Some m \<Rightarrow> max m i)\<rparr>
      | _ \<Rightarrow> r)"

definition set_bounds :: "compute \<Rightarrow> aarr option \<Rightarrow> bounds option" where
  "set_bounds cx values =
     (case values of
        None \<Rightarrow> None
      | Some a \<Rightarrow> (case int64_values cx a of
          None \<Rightarrow> None
        | Some vs \<Rightarrow>
            let result = foldl widen \<lparr>b_min = None, b_max = None\<rparr> vs
            in if b_min result = None then None else Some result))"

text \<open>The loop over the operands of an \<^verbatim>\<open>and\<close> and of an \<^verbatim>\<open>or\<close>.\<close>

fun and_bounds :: "bounds option \<Rightarrow> bounds option list \<Rightarrow> bounds option" where
  "and_bounds result [] = result"
| "and_bounds result (None # cs) = and_bounds result cs"
| "and_bounds result (Some c # cs) =
     and_bounds (Some (case result of None \<Rightarrow> c | Some r \<Rightarrow> intersect r c)) cs"

fun or_bounds :: "bounds option \<Rightarrow> bounds option list \<Rightarrow> bounds option" where
  "or_bounds result [] = result"
| "or_bounds result (None # cs) = None"
| "or_bounds result (Some c # cs) =
     or_bounds (Some (case result of None \<Rightarrow> c | Some r \<Rightarrow> unite r c)) cs"

fun bounds_for :: "compute \<Rightarrow> spec \<Rightarrow> string \<Rightarrow> bounds option" where
  "bounds_for cx (Spec a cs) column =
     (if s_kind a = KConstant \<and> length cs = 2 then comparison_bounds cx (s_op a) (cs ! 0) (cs ! 1) column
      else if s_kind a = KIn \<and> \<not> s_negated a \<and> cs \<noteq> [] \<and> is_direct_column (hd cs) column
      then set_bounds cx (s_value a)
      else if s_kind a = KAnd then and_bounds None (map (\<lambda>c. bounds_for cx c column) cs)
      else if s_kind a = KOr then or_bounds None (map (\<lambda>c. bounds_for cx c column) cs)
      else None)"

subsection \<open>Text\<close>

definition format_scalar :: "compute \<Rightarrow> aarr option \<Rightarrow> nat \<Rightarrow> string" where
  "format_scalar cx arr index =
     (case arr of
        None \<Rightarrow> ''NULL''
      | Some a \<Rightarrow>
          if null_at a index then ''NULL''
          else if a_type a = AString \<or> a_type a = ALargeString then quoted (text_at (a_vals a ! index))
          else if a_type a = ABool then (if a_vals a ! index = ABoolV True then ''True'' else ''False'')
          else case value_text cx (a_type a) (a_vals a ! index) of None \<Rightarrow> '''' | Some t \<Rightarrow> t)"

definition op_symbol :: "string \<Rightarrow> string" where
  "op_symbol op =
     (if op = ''eq'' then ''='' else if op = ''ne'' then ''!='' else if op = ''lt'' then ''<''
      else if op = ''le'' then ''<='' else if op = ''gt'' then ''>'' else if op = ''ge'' then ''>=''
      else if op = ''distinct_from'' then ''IS DISTINCT FROM''
      else if op = ''not_distinct_from'' then ''IS NOT DISTINCT FROM'' else ''?'')"

fun join :: "string \<Rightarrow> string list \<Rightarrow> string" where
  "join sep [] = ''''"
| "join sep [x] = x"
| "join sep (x # y # xs) = x @ sep @ join sep (y # xs)"

definition in_values :: "compute \<Rightarrow> aarr option \<Rightarrow> string" where
  "in_values cx v =
     (case v of
        None \<Rightarrow> ''''
      | Some a \<Rightarrow>
          if 20 < length (a_vals a) then show_nat (length (a_vals a)) @ '' values''
          else join '', '' (map (format_scalar cx v) [0..<length (a_vals a)]))"

function (sequential) render :: "compute \<Rightarrow> spec \<Rightarrow> string"
and render_predicate :: "compute \<Rightarrow> spec \<Rightarrow> string" where
  "render cx (Spec a cs) =
     (case s_kind a of
        KColumn \<Rightarrow> s_column_name a
      | KLiteral \<Rightarrow> format_scalar cx (s_value a) 0
      | KAnd \<Rightarrow> ''('' @ join '' AND '' (map (render_predicate cx) cs) @ '')''
      | KOr \<Rightarrow> ''('' @ join '' OR '' (map (render_predicate cx) cs) @ '')''
      | k \<Rightarrow>
          (case cs of
             [] \<Rightarrow> ''(expression)''
           | c # rest \<Rightarrow>
               if k = KField then render cx c @ ''.'' @ s_field_name a
               else if k = KConstant
               then (case rest of
                   [] \<Rightarrow> ''(expression)''
                 | d # _ \<Rightarrow> render cx c @ '' '' @ op_symbol (s_op a) @ '' '' @ render cx d)
               else if k = KNot then ''NOT ('' @ render cx c @ '')''
               else if k = KIsNull then render cx c @ '' IS NULL''
               else if k = KIsNotNull then render cx c @ '' IS NOT NULL''
               else if k = KIn
               then render cx c @ (if s_negated a then '' NOT IN ('' else '' IN ('') @ in_values cx (s_value a) @ '')''
               else ''(expression)''))"
| "render_predicate cx e =
     (case boolean_column_leaf e of
        Some (name, flag) \<Rightarrow> name @ (if flag then '' = true'' else '' = false'')
      | None \<Rightarrow> render cx e)"
  by pat_completeness auto
termination by (relation "measure (\<lambda>x. case x of Inl (cx, s) \<Rightarrow> 2 * size s | Inr (cx, s) \<Rightarrow> 2 * size s + 1)")
    (auto simp: size_list_estimation' less_Suc_eq_le dest: size_list_estimation' [OF _ order_refl])

fun render_repr :: "compute \<Rightarrow> spec \<Rightarrow> string" where
  "render_repr cx (Spec a cs) =
     (if s_kind a = KConstant then ''ConstantFilter('' @ render cx (Spec a cs) @ '')''
      else if s_kind a = KAnd then ''AndFilter(['' @ join '', '' (map (render_repr cx) cs) @ ''])''
      else if s_kind a = KOr then ''OrFilter(['' @ join '', '' (map (render_repr cx) cs) @ ''])''
      else render cx (Spec a cs))"

subsection \<open>The state of a scan\<close>

record pushdown =
  filters :: "filter_view list"
  specs :: "spec list"
  revisions :: "(string \<times> nat) list"
  required_ids :: "string set"
  join_keys :: "fbatch list"
  output_schema :: "afield list option"
  evaluation_context :: string

definition spec_id :: "spec \<Rightarrow> string" where
  "spec_id e = s_id (attrs e)"

fun add_predicates :: "parser_env \<Rightarrow> json list \<Rightarrow> pushdown \<Rightarrow> nat \<Rightarrow> filter_error + pushdown \<times> nat" where
  "add_predicates env [] state nodes = Inr (state, nodes)"
| "add_predicates env (item # later) state nodes =
     bindE (parse_predicate env False item nodes) (\<lambda>(p, nodes).
     bindE (check (s_revision (attrs p) = 0) ''snapshot predicate revisions must be zero'') (\<lambda>_.
     bindE (check (map_of (revisions state) (spec_id p) = None) ''duplicate predicate ID'') (\<lambda>_.
     add_predicates env later
       (state\<lparr>revisions := AList.update (spec_id p) 0 (revisions state),
          required_ids := (if s_advisory (attrs p) then required_ids state else insert (spec_id p) (required_ids state)),
          specs := specs state @ [p]\<rparr>) nodes)))"

definition decode_join_keys :: "(bytes \<Rightarrow> string + fbatch option) \<Rightarrow> bytes list \<Rightarrow> filter_error + fbatch list" where
  "decode_join_keys ipc = mapE (\<lambda>bytes.
     case (if bytes = '''' then Inr None else ipc bytes) of
       Inl e \<Rightarrow> throw_runtime e
     | Inr None \<Rightarrow> invalid ''join-key IPC stream contains no batch''
     | Inr (Some b) \<Rightarrow> Inr b)"

definition read_filter ::
    "(bytes \<Rightarrow> string + fbatch option) \<Rightarrow> (string \<Rightarrow> string + event list \<times> json) \<Rightarrow> bytes \<Rightarrow>
     filter_error + fbatch \<times> string \<times> (filter_error + json)" where
  "read_filter ipc parse_json bytes =
     (if kMaxPayloadBytes < length bytes then invalid ''filter payload exceeds 16 MiB''
      else case ipc bytes of
          Inl e \<Rightarrow> throw_runtime e
        | Inr batch \<Rightarrow>
            bindE (validate_batch batch) (\<lambda>(context, text). Inr (the batch, context, document_for parse_json text)))"

definition parse ::
    "(bytes \<Rightarrow> string + fbatch option) \<Rightarrow> (string \<Rightarrow> string + event list \<times> json) \<Rightarrow> bytes \<Rightarrow> bytes list \<Rightarrow>
     afield list option \<Rightarrow> filter_error + pushdown" where
  "parse ipc parse_json bytes join_key_batches schema =
     bindE (decode_join_keys ipc join_key_batches) (\<lambda>keys.
     let state = \<lparr>filters = [], specs = [], revisions = [], required_ids = {}, join_keys = keys,
           output_schema = schema, evaluation_context = ''''\<rparr> in
     if bytes = '''' then Inr state
     else
       bindE (read_filter ipc parse_json bytes) (\<lambda>(batch, context, document).
       bindE document (\<lambda>document.
       bindE (validate_header document ''snapshot'' ''predicates'') (\<lambda>predicates.
       bindE (check (length predicates \<le> kMaxPredicates) ''snapshot exceeds predicate limit'') (\<lambda>_.
       bindE (check (predicates = [] \<or> schema \<noteq> None)
         ''non-empty snapshot requires the authoritative unprojected bind output schema'') (\<lambda>_.
       bindE (add_predicates \<lparr>p_batch = batch, p_join_keys = keys, p_schema = schema\<rparr> predicates
         (state\<lparr>evaluation_context := context\<rparr>) 0) (\<lambda>(state, nodes).
       Inr (state\<lparr>filters := concat (map flatten (specs state))\<rparr>))))))))"

text \<open>One update of a delta; the ids seen so far and the node counter go along.\<close>

definition parse_update :: "parser_env \<Rightarrow> string \<Rightarrow> json \<Rightarrow> spec option parse" where
  "parse_update env operation update =
     (if operation = ''remove''
      then bindP (now (require_keys update [''operation'', ''id'', ''revision''] [] ''remove update'')) (\<lambda>_. returnP None)
      else if operation = ''upsert''
      then bindP (now (require_keys update [''operation'', ''id'', ''revision'', ''mode'', ''source'', ''expression''] [] ''upsert update'')) (\<lambda>_.
           bindP (parse_predicate env True update) (\<lambda>p. returnP (Some p)))
      else now (invalid ''delta operation must be remove or upsert''))"

definition replace_predicate :: "string \<Rightarrow> nat \<Rightarrow> spec option \<Rightarrow> pushdown \<Rightarrow> pushdown" where
  "replace_predicate i revision parsed state =
     (case map_of (revisions state) i of
        Some old \<Rightarrow> if revision \<le> old then state else
          state\<lparr>specs := filter (\<lambda>e. spec_id e \<noteq> i) (specs state) @ (case parsed of None \<Rightarrow> [] | Some p \<Rightarrow> [p]),
             revisions := AList.update i revision (revisions state)\<rparr>
      | None \<Rightarrow>
          state\<lparr>specs := filter (\<lambda>e. spec_id e \<noteq> i) (specs state) @ (case parsed of None \<Rightarrow> [] | Some p \<Rightarrow> [p]),
             revisions := AList.update i revision (revisions state)\<rparr>)"

fun apply_updates ::
    "parser_env \<Rightarrow> string set \<Rightarrow> json list \<Rightarrow> string set \<Rightarrow> pushdown \<Rightarrow> nat \<Rightarrow> filter_error + pushdown \<times> nat" where
  "apply_updates env required [] seen state nodes = Inr (state, nodes)"
| "apply_updates env required (update # updates) seen state nodes =
     bindE (check (is_object update) ''delta update must be an object'') (\<lambda>_.
     bindE (check (member update ''operation'' \<noteq> None \<and> member update ''id'' \<noteq> None \<and> member update ''revision'' \<noteq> None)
       ''delta update is missing required properties'') (\<lambda>_.
     bindE (required_string update ''operation'' ''update'') (\<lambda>operation.
     bindE (required_string update ''id'' ''update'') (\<lambda>i.
     bindE (required_uint update ''revision'' ''update'') (\<lambda>revision.
     bindE (check (length i \<le> 128) ''predicate ID exceeds 128 bytes'') (\<lambda>_.
     bindE (check (i \<notin> seen) ''duplicate delta predicate ID'') (\<lambda>_.
     bindE (check (i \<notin> required) ''delta targets required predicate'') (\<lambda>_.
     bindE (parse_update env operation update nodes) (\<lambda>(parsed, nodes).
     apply_updates env required updates (insert i seen) (replace_predicate i revision parsed state) nodes)))))))))"

definition apply_delta ::
    "(bytes \<Rightarrow> string + fbatch option) \<Rightarrow> (string \<Rightarrow> string + event list \<times> json) \<Rightarrow> bytes \<Rightarrow> pushdown \<Rightarrow>
     filter_error + pushdown" where
  "apply_delta ipc parse_json bytes state =
     (if bytes = '''' then invalid ''dynamic filter delta is empty''
      else
        bindE (read_filter ipc parse_json bytes) (\<lambda>(batch, context, document).
        bindE (check (context = evaluation_context state) ''evaluation context changed within one scan'') (\<lambda>_.
        bindE document (\<lambda>document.
        bindE (validate_header document ''delta'' ''updates'') (\<lambda>updates.
        bindE (apply_updates \<lparr>p_batch = batch, p_join_keys = join_keys state, p_schema = output_schema state\<rparr>
          (required_ids state) updates {} state 0) (\<lambda>(next, nodes).
        bindE (check (length (revisions next) \<le> kMaxPredicateIds) ''delta exceeds predicate-ID limit'') (\<lambda>_.
        Inr (next\<lparr>filters := concat (map flatten (specs next))\<rparr>))))))))"

subsection \<open>What a worker asks\<close>

definition column_filters :: "pushdown \<Rightarrow> string \<Rightarrow> filter_view list" where
  "column_filters state column = filter (\<lambda>f. v_column f = column) (filters state)"

definition has_filter_for_column :: "pushdown \<Rightarrow> string \<Rightarrow> bool" where
  "has_filter_for_column state column \<longleftrightarrow> (\<exists>e \<in> set (specs state). mentions e column)"

definition filtered_columns :: "pushdown \<Rightarrow> string list" where
  "filtered_columns state = remdups_adj (sort_strings (concat (map collect_columns (specs state))))"

definition column_bounds :: "compute \<Rightarrow> pushdown \<Rightarrow> string \<Rightarrow> bounds" where
  "column_bounds cx state column =
     (case and_bounds None (map (\<lambda>e. bounds_for cx e column) (specs state)) of
        None \<Rightarrow> \<lparr>b_min = None, b_max = None\<rparr>
      | Some r \<Rightarrow> r)"

definition column_specs :: "pushdown \<Rightarrow> string \<Rightarrow> spec list" where
  "column_specs state column = filter (\<lambda>e. mentions e column) (specs state)"

definition column_values :: "compute \<Rightarrow> pushdown \<Rightarrow> string \<Rightarrow> aarr option" where
  "column_values cx state column = first_values cx (specs state) column"

definition format :: "compute \<Rightarrow> pushdown \<Rightarrow> string" where
  "format cx state = (if specs state = [] then ''(none)'' else foldl (\<lambda>r e. (if r = '''' then r else r @ '' AND '') @ render_predicate cx e) '''' (specs state))"

definition format_repr :: "compute \<Rightarrow> pushdown \<Rightarrow> string" where
  "format_repr cx state =
     (if specs state = [] then ''(none)''
      else ''PushdownFilters(['' @ join '', '' (map (render_repr cx) (specs state)) @ ''])'')"

definition apply_pushdown :: "compute \<Rightarrow> pushdown \<Rightarrow> fbatch option \<Rightarrow> filter_error + fbatch option" where
  "apply_pushdown cx state batch =
     (case batch of
        None \<Rightarrow> Inr None
      | Some b \<Rightarrow> bindE (apply_filters cx (specs state) b) (\<lambda>b. Inr (Some b)))"

end
