(* ===== verification/Filter_Semantics.thy ===== *)
theory Filter_Semantics
  imports Pushdown
begin

section \<open>What the kernels promise\<close>

text \<open>
  The documented behaviour of the Arrow functions the evaluator calls, as \<open>compute_laws\<close>: kernels
  work row by row, the Boolean ones in Kleene's three-valued logic, the comparisons with null for a
  null operand, a cast between integer or to the wider floating type keeps the values, a filter
  keeps the rows whose mask is true. \<open>arrow_compute\<close> is an instance. Then the lemmas every proof
  about the evaluator uses: the length of a result, and when a row of an \<^verbatim>\<open>and\<close>, an \<^verbatim>\<open>or\<close>, an \<^verbatim>\<open>in\<close> or a
  comparison is true.
\<close>

fun kleene_and :: "aval \<Rightarrow> aval \<Rightarrow> aval" where
  "kleene_and x y =
     (if x = ABoolV False \<or> y = ABoolV False then ABoolV False
      else if x = ABoolV True \<and> y = ABoolV True then ABoolV True else ANil)"

fun kleene_or :: "aval \<Rightarrow> aval \<Rightarrow> aval" where
  "kleene_or x y =
     (if x = ABoolV True \<or> y = ABoolV True then ABoolV True
      else if x = ABoolV False \<and> y = ABoolV False then ABoolV False else ANil)"

fun kleene_not :: "aval \<Rightarrow> aval" where
  "kleene_not (ABoolV b) = ABoolV (\<not> b)"
| "kleene_not _ = ANil"

fun int_compare :: "(int \<Rightarrow> int \<Rightarrow> bool) \<Rightarrow> aval \<Rightarrow> aval \<Rightarrow> aval" where
  "int_compare f (AIntV a) (AIntV b) = ABoolV (f a b)"
| "int_compare f _ _ = ANil"

definition equal_row :: "aval \<Rightarrow> aval \<Rightarrow> aval" where
  "equal_row x y = (if x = ANil \<or> y = ANil then ANil else ABoolV (x = y))"

definition fits :: "nat \<Rightarrow> datum \<Rightarrow> bool" where
  "fits n d \<longleftrightarrow> length (rows n d) = n"

text \<open>Integer arrays hold integers, floating arrays doubles; either may hold nulls.\<close>

definition typed :: "atype \<Rightarrow> aval list \<Rightarrow> bool" where
  "typed t vs \<longleftrightarrow>
     (is_integer (logical_type t) \<longrightarrow> set vs \<subseteq> insert ANil (range AIntV)) \<and>
     (floating_type (logical_type t) \<longrightarrow> set vs \<subseteq> insert ANil (range AFloatV))"

definition wf_fbatch :: "fbatch \<Rightarrow> bool" where
  "wf_fbatch b \<longleftrightarrow> length (f_cols b) = length (f_fields b) \<and>
     (\<forall>i < length (f_fields b). type_equals (a_type (f_cols b ! i)) (af_type (f_fields b ! i)) \<and>
        length (a_vals (f_cols b ! i)) = f_rows b \<and> typed (a_type (f_cols b ! i)) (a_vals (f_cols b ! i)))"

definition select :: "aval list \<Rightarrow> 'a list \<Rightarrow> 'a list" where
  "select msk xs = map snd (filter (\<lambda>(m, x). m = ABoolV True) (zip msk xs))"

definition binary_law :: "compute \<Rightarrow> string \<Rightarrow> (aval \<Rightarrow> aval \<Rightarrow> aval) \<Rightarrow> bool" where
  "binary_law cx name f \<longleftrightarrow> (\<forall>n l r d. fits n l \<longrightarrow> fits n r \<longrightarrow> call_function cx name [l, r] = Inr d \<longrightarrow>
     rows n d = map2 f (rows n l) (rows n r))"

definition integer_law :: "compute \<Rightarrow> string \<Rightarrow> (int \<Rightarrow> int \<Rightarrow> bool) \<Rightarrow> bool" where
  "integer_law cx name f \<longleftrightarrow> (\<forall>l r d. is_integer (logical_type (a_type l)) \<longrightarrow> is_integer (logical_type (a_type r)) \<longrightarrow>
     typed (a_type l) (a_vals l) \<longrightarrow> typed (a_type r) (a_vals r) \<longrightarrow> length (a_vals l) = length (a_vals r) \<longrightarrow>
     call_function cx name [DArray l, DArray r] = Inr d \<longrightarrow>
     rows (length (a_vals l)) d = map2 (int_compare f) (a_vals l) (a_vals r))"

definition rowwise_law :: "compute \<Rightarrow> bool" where
  "rowwise_law cx \<longleftrightarrow>
     (\<forall>name ds n d. list_all (fits n) ds \<longrightarrow> call_function cx name ds = Inr d \<longrightarrow> fits n d) \<and>
     (\<forall>d t n d'. fits n d \<longrightarrow> cast_to cx d t = Inr d' \<longrightarrow> fits n d')"

definition invert_law :: "compute \<Rightarrow> bool" where
  "invert_law cx \<longleftrightarrow> (\<forall>n x d. fits n x \<longrightarrow> call_function cx ''invert'' [x] = Inr d \<longrightarrow>
     rows n d = map kleene_not (rows n x))"

definition equal_law :: "compute \<Rightarrow> bool" where
  "equal_law cx \<longleftrightarrow> (\<forall>l r d. type_equals (a_type l) (a_type r) \<longrightarrow>
     length (a_vals l) = length (a_vals r) \<longrightarrow> call_function cx ''equal'' [DArray l, DArray r] = Inr d \<longrightarrow>
     (\<not> floating_type (a_type l) \<longrightarrow> rows (length (a_vals l)) d = map2 equal_row (a_vals l) (a_vals r)) \<and>
     (\<forall>i < length (a_vals l). rows (length (a_vals l)) d ! i = ABoolV True \<longrightarrow>
        a_vals l ! i = a_vals r ! i \<and> a_vals l ! i \<noteq> ANil))"

definition cast_law :: "compute \<Rightarrow> bool" where
  "cast_law cx \<longleftrightarrow>
     (\<forall>a d. is_integer (logical_type (a_type a)) \<longrightarrow> cast_to cx (DArray a) AInt64 = Inr d \<longrightarrow>
        d = DArray \<lparr>a_type = AInt64, a_vals = a_vals a\<rparr>) \<and>
     (\<forall>a d. floating_type (a_type a) \<longrightarrow> cast_to cx (DArray a) ADouble = Inr d \<longrightarrow>
        d = DArray \<lparr>a_type = ADouble, a_vals = a_vals a\<rparr>)"

definition filter_law :: "compute \<Rightarrow> bool" where
  "filter_law cx \<longleftrightarrow> (\<forall>b msk b'. length msk = f_rows b \<longrightarrow> filter_rows cx b msk = Inr b' \<longrightarrow>
     f_fields b' = f_fields b \<and> f_rows b' = length (filter (\<lambda>m. m = ABoolV True) msk) \<and>
     f_cols b' = map (\<lambda>a. a\<lparr>a_vals := select msk (a_vals a)\<rparr>) (f_cols b))"

definition set_law :: "compute \<Rightarrow> bool" where
  "set_law cx \<longleftrightarrow>
     (\<forall>as c. concat_arrays cx as = Some c \<longrightarrow> a_vals c = concat (map a_vals as)) \<and>
     (\<forall>a u. unique_values cx a = Some u \<longrightarrow> set (a_vals u) = set (a_vals a))"

definition compute_laws :: "compute \<Rightarrow> bool" where
  "compute_laws cx \<longleftrightarrow> rowwise_law cx \<and>
     binary_law cx ''and_kleene'' kleene_and \<and> binary_law cx ''or_kleene'' kleene_or \<and> invert_law cx \<and> equal_law cx \<and>
     integer_law cx ''less'' (<) \<and> integer_law cx ''less_equal'' (\<le>) \<and>
     integer_law cx ''greater'' (>) \<and> integer_law cx ''greater_equal'' (\<ge>) \<and>
     cast_law cx \<and> filter_law cx \<and> set_law cx"

subsection \<open>An instance\<close>

fun lift2 :: "(aval \<Rightarrow> aval \<Rightarrow> aval) \<Rightarrow> atype \<Rightarrow> datum \<Rightarrow> datum \<Rightarrow> string + datum" where
  "lift2 f t (DArray a) (DArray b) =
     (if length (a_vals a) = length (a_vals b)
      then Inr (DArray \<lparr>a_type = t, a_vals = map2 f (a_vals a) (a_vals b)\<rparr>) else Inl ''length'')"
| "lift2 f t (DArray a) (DScalar u y) = Inr (DArray \<lparr>a_type = t, a_vals = map (\<lambda>x. f x y) (a_vals a)\<rparr>)"
| "lift2 f t (DScalar u x) (DArray b) = Inr (DArray \<lparr>a_type = t, a_vals = map (f x) (a_vals b)\<rparr>)"
| "lift2 f t (DScalar u x) (DScalar w y) = Inr (DScalar t (f x y))"

fun lift1 :: "(aval \<Rightarrow> aval) \<Rightarrow> atype \<Rightarrow> datum \<Rightarrow> string + datum" where
  "lift1 f t (DArray a) = Inr (DArray \<lparr>a_type = t, a_vals = map f (a_vals a)\<rparr>)"
| "lift1 f t (DScalar u x) = Inr (DScalar t (f x))"

definition binary_kernels :: "(string \<times> (aval \<Rightarrow> aval \<Rightarrow> aval)) list" where
  "binary_kernels = [(''and_kleene'', kleene_and), (''or_kleene'', kleene_or), (''equal'', equal_row),
     (''less'', int_compare (<)), (''less_equal'', int_compare (\<le>)), (''greater'', int_compare (>)),
     (''greater_equal'', int_compare (\<ge>))]"

fun arrow_call :: "string \<Rightarrow> datum list \<Rightarrow> string + datum" where
  "arrow_call name [x, y] =
     (case map_of binary_kernels name of Some f \<Rightarrow> lift2 f ABool x y | None \<Rightarrow> Inl ''no such function'')"
| "arrow_call name [x] =
     (if name = ''invert'' then lift1 kleene_not ABool x
      else if name = ''is_null'' then lift1 (\<lambda>v. ABoolV (v = ANil)) ABool x
      else if name = ''is_valid'' then lift1 (\<lambda>v. ABoolV (v \<noteq> ANil)) ABool x
      else Inl ''no such function'')"
| "arrow_call name _ = Inl ''no such function''"

fun arrow_cast :: "datum \<Rightarrow> atype \<Rightarrow> string + datum" where
  "arrow_cast (DArray a) t = Inr (DArray \<lparr>a_type = t, a_vals = a_vals a\<rparr>)"
| "arrow_cast (DScalar u x) t = Inr (DScalar t x)"

definition arrow_compute :: compute where
  "arrow_compute = \<lparr>call_function = arrow_call, cast_to = arrow_cast,
     filter_rows = (\<lambda>b msk. Inr (b\<lparr>f_cols := map (\<lambda>a. a\<lparr>a_vals := select msk (a_vals a)\<rparr>) (f_cols b),
       f_rows := length (filter (\<lambda>m. m = ABoolV True) msk)\<rparr>)),
     concat_arrays = (\<lambda>as. case as of [] \<Rightarrow> None | a # _ \<Rightarrow> Some \<lparr>a_type = a_type a, a_vals = concat (map a_vals as)\<rparr>),
     unique_values = (\<lambda>a. Some (a\<lparr>a_vals := remdups (a_vals a)\<rparr>)),
     scalar_equals = (\<lambda>t x y. x = y), value_text = (\<lambda>t v. case v of AIntV i \<Rightarrow> Some (show_nat (nat i)) | _ \<Rightarrow> None)\<rparr>"

lemma map2_replicate_left: "length ys = n \<Longrightarrow> map2 f (replicate n x) ys = map (f x) ys"
  by (induction ys arbitrary: n) auto

lemma map2_replicate_right: "length xs = n \<Longrightarrow> map2 f xs (replicate n y) = map (\<lambda>x. f x y) xs"
  by (induction xs arbitrary: n) auto

lemma lift2_rows:
  assumes "fits n x" "fits n y" "lift2 f t x y = Inr d"
  shows "rows n d = map2 f (rows n x) (rows n y)"
proof (cases x)
  case (DArray a)
  then show ?thesis using assms
    by (cases y) (simp_all add: fits_def map2_replicate_right split: if_split_asm, fastforce+)
next
  case (DScalar u v)
  then show ?thesis using assms
    by (cases y) (simp_all add: fits_def map2_replicate_left split: if_split_asm, fastforce+)
qed

lemma lift1_rows: "lift1 f t x = Inr d \<Longrightarrow> rows n d = map f (rows n x)"
  by (cases x) auto

lemma lift2_fits: "fits n x \<Longrightarrow> fits n y \<Longrightarrow> lift2 f t x y = Inr d \<Longrightarrow> fits n d"
  unfolding fits_def by (subst lift2_rows) (auto simp: fits_def)

lemma lift1_fits: "fits n x \<Longrightarrow> lift1 f t x = Inr d \<Longrightarrow> fits n d"
  unfolding fits_def by (subst lift1_rows) auto

lemma arrow_call_fits: "list_all (fits n) ds \<Longrightarrow> arrow_call name ds = Inr d \<Longrightarrow> fits n d"
  by (cases "(name, ds)" rule: arrow_call.cases)
    (auto intro: lift2_fits lift1_fits split: option.splits if_splits)

lemma arrow_laws: "compute_laws arrow_compute"
proof -
  have b: "binary_law arrow_compute name f" if "map_of binary_kernels name = Some f" for name f
    unfolding binary_law_def using that by (auto simp: arrow_compute_def intro: lift2_rows)
  have i: "integer_law arrow_compute name f" if "map_of binary_kernels name = Some (int_compare f)" for name f
    unfolding integer_law_def using that by (auto simp: arrow_compute_def)
  have c: "fits n d \<Longrightarrow> arrow_cast d t = Inr d' \<Longrightarrow> fits n d'" for n d t d'
    by (cases d) (auto simp: fits_def)
  have "rowwise_law arrow_compute" "invert_law arrow_compute" "cast_law arrow_compute" "filter_law arrow_compute"
    "set_law arrow_compute"
    by (auto simp: rowwise_law_def invert_law_def cast_law_def filter_law_def set_law_def arrow_compute_def
        dest: lift1_rows intro: arrow_call_fits c split: list.splits)
  moreover have "equal_law arrow_compute"
    by (auto simp: equal_law_def arrow_compute_def binary_kernels_def equal_row_def split: if_splits)
  ultimately show ?thesis unfolding compute_laws_def by (intro conjI b i) (simp_all add: binary_kernels_def)
qed


subsection \<open>Lengths\<close>

lemma compute_laws_parts:
  assumes "compute_laws cx"
  shows "rowwise_law cx" and law_and: "binary_law cx ''and_kleene'' kleene_and"
    and law_or: "binary_law cx ''or_kleene'' kleene_or" and "invert_law cx" and "equal_law cx"
    and law_less: "integer_law cx ''less'' (<)" "integer_law cx ''less_equal'' (\<le>)"
      "integer_law cx ''greater'' (>)" "integer_law cx ''greater_equal'' (\<ge>)"
    and "cast_law cx" and "filter_law cx" and "set_law cx"
  using assms by (simp_all add: compute_laws_def)

lemma law_fits:
  "compute_laws cx \<Longrightarrow> list_all (fits n) ds \<Longrightarrow> call_function cx name ds = Inr d \<Longrightarrow> fits n d"
  using compute_laws_parts(1) [of cx] unfolding rowwise_law_def by blast

lemma law_cast_fits: "compute_laws cx \<Longrightarrow> fits n d \<Longrightarrow> cast_to cx d t = Inr d' \<Longrightarrow> fits n d'"
  using compute_laws_parts(1) [of cx] unfolding rowwise_law_def by blast

lemma law_invert:
  "compute_laws cx \<Longrightarrow> fits n x \<Longrightarrow> call_function cx ''invert'' [x] = Inr d \<Longrightarrow> rows n d = map kleene_not (rows n x)"
  using compute_laws_parts(4) [of cx] unfolding invert_law_def by blast

lemma law_equal:
  assumes "compute_laws cx" "type_equals (a_type l) (a_type r)"
    "length (a_vals l) = length (a_vals r)" "call_function cx ''equal'' [DArray l, DArray r] = Inr d"
  shows "\<not> floating_type (a_type l) \<Longrightarrow> rows (length (a_vals l)) d = map2 equal_row (a_vals l) (a_vals r)"
    and "i < length (a_vals l) \<Longrightarrow> rows (length (a_vals l)) d ! i = ABoolV True \<Longrightarrow>
      a_vals l ! i = a_vals r ! i \<and> a_vals l ! i \<noteq> ANil"
  using compute_laws_parts(5) [OF assms(1)] assms(2-) unfolding equal_law_def by blast+

lemma law_int64:
  "compute_laws cx \<Longrightarrow> is_integer (logical_type (a_type a)) \<Longrightarrow> cast_to cx (DArray a) AInt64 = Inr d \<Longrightarrow>
   d = DArray \<lparr>a_type = AInt64, a_vals = a_vals a\<rparr>"
  using compute_laws_parts(10) [of cx] unfolding cast_law_def by blast

lemma law_double:
  "compute_laws cx \<Longrightarrow> floating_type (a_type a) \<Longrightarrow> cast_to cx (DArray a) ADouble = Inr d \<Longrightarrow>
   d = DArray \<lparr>a_type = ADouble, a_vals = a_vals a\<rparr>"
  using compute_laws_parts(10) [of cx] unfolding cast_law_def by blast

lemma law_filter:
  assumes "compute_laws cx" "length msk = f_rows b" "filter_rows cx b msk = Inr b'"
  shows "f_fields b' = f_fields b" "f_rows b' = length (filter (\<lambda>m. m = ABoolV True) msk)"
    "f_cols b' = map (\<lambda>a. a\<lparr>a_vals := select msk (a_vals a)\<rparr>) (f_cols b)"
  using compute_laws_parts(11) [OF assms(1)] assms(2-) unfolding filter_law_def by blast+

lemma law_concat: "compute_laws cx \<Longrightarrow> concat_arrays cx as = Some c \<Longrightarrow> a_vals c = concat (map a_vals as)"
  using compute_laws_parts(12) [of cx] unfolding set_law_def by blast

lemma law_unique: "compute_laws cx \<Longrightarrow> unique_values cx a = Some u \<Longrightarrow> set (a_vals u) = set (a_vals a)"
  using compute_laws_parts(12) [of cx] unfolding set_law_def by blast

fun decoded_type :: "atype \<Rightarrow> atype" where
  "decoded_type (ADictionary i t) = t"
| "decoded_type t = t"

lemma decoded_DArray: "decoded_dictionary (DArray a) = DArray (a\<lparr>a_type := decoded_type (a_type a)\<rparr>)"
  by (cases "a_type a") simp_all

lemma logical_decoded [simp]: "logical_type (decoded_type t) = logical_type t"
  by (cases t) simp_all

declare decoded_dictionary.simps(1) [simp del]

lemma decoded_rows [simp]: "rows n (decoded_dictionary d) = rows n d"
  by (cases d) (simp_all add: decoded_DArray)

lemma decoded_fits [simp]: "fits n (decoded_dictionary d) = fits n d"
  by (simp add: fits_def)

lemma array_from_datum_Inr:
  "array_from_datum d n = Inr a \<longleftrightarrow> fits n d \<and> a = \<lparr>a_type = datum_type d, a_vals = rows n d\<rparr>"
  by (cases d) (auto simp: array_from_datum_def fits_def)

lemma call_kernel_Inr:
  "call_kernel cx name ds = Inr d \<longleftrightarrow> call_function cx name (map decoded_dictionary ds) = Inr d"
  by (simp add: call_kernel_def)

lemma call_kernel_fits:
  "compute_laws cx \<Longrightarrow> list_all (fits n) ds \<Longrightarrow> call_kernel cx name ds = Inr d \<Longrightarrow> fits n d"
  unfolding call_kernel_Inr by (rule law_fits) (auto simp: list_all_iff)

lemma bool_array_fits [simp]: "fits n (bool_array vs) \<longleftrightarrow> length vs = n" "rows n (bool_array vs) = vs"
  by (simp_all add: fits_def bool_array_def)

lemma DArray_fits [simp]: "fits n (DArray a) \<longleftrightarrow> length (a_vals a) = n"
  by (simp add: fits_def)

lemma DScalar_fits [simp]: "fits n (DScalar t v)"
  by (simp add: fits_def)

lemma fits_length: "fits n d \<Longrightarrow> length (rows n d) = n"
  by (simp add: fits_def)

lemma compare_fits:
  assumes "compute_laws cx" "compare cx l r op n = Inr d"
  shows "fits n d"
proof -
  have k: "call_kernel cx kn [DArray a, DArray b] = Inr d \<Longrightarrow> length (a_vals a) = n \<Longrightarrow> length (a_vals b) = n \<Longrightarrow> fits n d"
    for kn a b using call_kernel_fits [OF assms(1), of n "[DArray a, DArray b]"] by simp
  show ?thesis using assms(2)
    by (auto simp: compare_def compare_arrays_def array_from_datum_Inr fits_length mapE_eq_Inr
        dest!: list_all2_lengthD split: if_splits option.splits intro: k)
qed

lemma standard_call_fits: "standard_call cx f l r n = Inr d \<Longrightarrow> fits n d"
  by (auto simp: standard_call_def array_from_datum_Inr fits_length mapE_eq_Inr dest!: list_all2_lengthD)

lemma column_position_less:
  assumes "column_position a b = Some i"
  shows "i < length (f_fields b)"
proof (rule ccontr)
  assume no: "\<not> ?thesis"
  then have "field_indices b (s_column_name a) = [i]"
    using assms by (auto simp: column_position_def split: if_splits list.splits)
  then have "i \<in> set (field_indices b (s_column_name a))" by simp
  with no show False by (simp add: field_indices_def)
qed

lemma call_fits:
  assumes "compute_laws cx"
  shows "call_kernel cx kn [x] = Inr d \<Longrightarrow> fits n x \<Longrightarrow> fits n d"
    and "call_kernel cx kn [x, y] = Inr d \<Longrightarrow> fits n x \<Longrightarrow> fits n y \<Longrightarrow> fits n d"
    and "call_kernel cx kn [x, y, z] = Inr d \<Longrightarrow> fits n x \<Longrightarrow> fits n y \<Longrightarrow> fits n z \<Longrightarrow> fits n d"
  by (rule call_kernel_fits [OF assms]; simp)+

lemma evaluate_column_fits: "wf_fbatch b \<Longrightarrow> evaluate_column a b = Inr d \<Longrightarrow> fits (f_rows b) d"
  by (auto simp: evaluate_column_def wf_fbatch_def dest!: column_position_less split: option.splits if_splits)

lemma evaluate_field_fits:
  assumes "compute_laws cx" "evaluate_field cx a d n = Inr d'"
  shows "fits n d'"
proof -
  obtain fs where d: "fits n d" "datum_type d = AStruct fs"
    using assms(2) by (cases "datum_type d") (auto simp: evaluate_field_def array_from_datum_Inr)
  show ?thesis using assms(2)
    by (auto simp: evaluate_field_def array_from_datum_Inr d Let_def fits_length [OF d(1)] split: if_splits
        elim!: call_fits(3) [OF assms(1)] call_fits(1) [OF assms(1)])
qed

lemma in_loop_fits:
  "compute_laws cx \<Longrightarrow> fits n result \<Longrightarrow> in_loop cx input t n result vs = Inr d \<Longrightarrow> fits n d"
proof (induction vs arbitrary: result)
  case (Cons v vs)
  then obtain e r where e: "compare cx input (DScalar t v) ''eq'' n = Inr e" "call_kernel cx ''or_kleene'' [result, e] = Inr r"
    "in_loop cx input t n r vs = Inr d" by auto
  have "fits n r" using call_kernel_fits [OF Cons.prems(1) _ e(2), of n] compare_fits [OF Cons.prems(1) e(1)] Cons.prems(2) by simp
  then show ?case using Cons e by blast
qed simp

lemma evaluate_in_fits:
  assumes "compute_laws cx" "evaluate_in cx a d n = Inr d'"
  shows "fits n d'"
  using assms(2)
  by (auto simp: evaluate_in_def decoded_DArray split: option.splits if_splits
      dest!: in_loop_fits [OF assms(1), rotated] elim: call_fits(1) [OF assms(1)])

lemma evaluate_rest_fits:
  assumes "compute_laws cx" "\<And>c d. c \<in> set cs \<Longrightarrow> evaluate cx c b = Inr d \<Longrightarrow> fits n d"
    "fits n acc" "evaluate_rest cx kn cs b acc = Inr d"
  shows "fits n d"
  using assms(2-)
proof (induction cs arbitrary: acc)
  case (Cons c cs)
  then obtain x r where x: "evaluate cx c b = Inr x" "call_kernel cx kn [acc, x] = Inr r" "evaluate_rest cx kn cs b r = Inr d"
    by auto
  have "fits n r" using call_fits(2) [OF assms(1) x(2)] Cons.prems(1) [OF _ x(1)] Cons.prems(2) by simp
  then show ?case using Cons.IH [OF _ _ x(3)] Cons.prems(1) by auto
qed simp

lemma evaluate_fits:
  assumes "compute_laws cx" "wf_fbatch b"
  shows "evaluate cx e b = Inr d \<Longrightarrow> fits (f_rows b) d"
proof (induction e arbitrary: d)
  case (Spec a cs)
  note k = call_fits [OF assms(1)]
  show ?case
  proof (cases "s_kind a \<in> {KColumn, KLiteral, KRuntimeFilter} \<or> cs = []")
    case True
    then show ?thesis using Spec.prems evaluate_column_fits [OF assms(2)]
      by (cases "s_kind a") (auto simp: evaluate_literal_def split: option.splits list.splits)
  next
    case False
    then obtain c rest where cs: "cs = c # rest" by (cases cs) auto
    have ih: "evaluate cx c b = Inr x \<Longrightarrow> fits (f_rows b) x" for x using Spec.IH [of c x] cs by simp
    have ih2: "rest = c2 # more \<Longrightarrow> evaluate cx c2 b = Inr x \<Longrightarrow> fits (f_rows b) x" for c2 more x using Spec.IH [of c2 x] cs by simp
    have sub: "\<And>e x. e \<in> set rest \<Longrightarrow> evaluate cx e b = Inr x \<Longrightarrow> fits (f_rows b) x"
      using Spec.IH cs by (metis list.set_intros(2))
    have rest: "evaluate_rest cx kn rest b acc = Inr d \<Longrightarrow> fits (f_rows b) acc \<Longrightarrow> fits (f_rows b) d" for kn acc
      by (rule evaluate_rest_fits [OF assms(1), where cs = rest and b = b and kn = kn and acc = acc]) (auto intro: sub)
    show ?thesis using Spec.prems False
      by (cases "s_kind a") (auto simp: cs split: list.splits if_splits elim: k rest
          elim!: evaluate_field_fits [OF assms(1)] evaluate_in_fits [OF assms(1)] law_cast_fits [OF assms(1), rotated]
            compare_fits [OF assms(1)] standard_call_fits intro: ih ih2)
  qed
qed


subsection \<open>When a row is true\<close>

definition holds :: "compute \<Rightarrow> spec \<Rightarrow> fbatch \<Rightarrow> nat \<Rightarrow> bool" where
  "holds cx e b i \<longleftrightarrow> (\<exists>d. evaluate cx e b = Inr d \<and> rows (f_rows b) d ! i = ABoolV True)"

lemma kleene_True [simp]:
  "kleene_and x y = ABoolV True \<longleftrightarrow> x = ABoolV True \<and> y = ABoolV True"
  "kleene_or x y = ABoolV True \<longleftrightarrow> x = ABoolV True \<or> y = ABoolV True"
  "kleene_not x = ABoolV True \<longleftrightarrow> x = ABoolV False"
  by (auto, cases x, auto)

declare kleene_and.simps [simp del] kleene_or.simps [simp del]

lemma binary_row:
  assumes "binary_law cx kn f" "fits n x" "fits n y" "call_kernel cx kn [x, y] = Inr d" "i < n"
  shows "rows n d ! i = f (rows n x ! i) (rows n y ! i)"
proof -
  have "rows n d = map2 f (rows n (decoded_dictionary x)) (rows n (decoded_dictionary y))"
    using assms(1-4) unfolding binary_law_def call_kernel_Inr by (metis decoded_fits list.simps(8,9))
  then show ?thesis using assms(2,3,5) by (simp add: fits_def)
qed

lemma and_rest_true:
  assumes "compute_laws cx" "wf_fbatch b" "i < f_rows b" "fits (f_rows b) acc"
    and "evaluate_rest cx ''and_kleene'' cs b acc = Inr d" "rows (f_rows b) d ! i = ABoolV True"
  shows "rows (f_rows b) acc ! i = ABoolV True \<and> (\<forall>c \<in> set cs. holds cx c b i)"
  using assms(4-)
proof (induction cs arbitrary: acc)
  case (Cons c cs)
  then obtain x r where x: "evaluate cx c b = Inr x" "call_kernel cx ''and_kleene'' [acc, x] = Inr r"
    "evaluate_rest cx ''and_kleene'' cs b r = Inr d" by auto
  have f: "fits (f_rows b) x" using evaluate_fits [OF assms(1,2) x(1)] .
  then have "fits (f_rows b) r" using call_fits(2) [OF assms(1) x(2)] Cons.prems(1) by blast
  from Cons.IH [OF this x(3) Cons.prems(3)] binary_row [OF law_and [OF assms(1)] Cons.prems(1) f x(2) assms(3)] x(1)
  show ?case by (auto simp: holds_def)
qed simp

lemma or_rest_true:
  assumes "compute_laws cx" "wf_fbatch b" "i < f_rows b" "fits (f_rows b) acc"
    and "evaluate_rest cx ''or_kleene'' cs b acc = Inr d" "rows (f_rows b) d ! i = ABoolV True"
  shows "rows (f_rows b) acc ! i = ABoolV True \<or> (\<exists>c \<in> set cs. holds cx c b i)"
  using assms(4-)
proof (induction cs arbitrary: acc)
  case (Cons c cs)
  then obtain x r where x: "evaluate cx c b = Inr x" "call_kernel cx ''or_kleene'' [acc, x] = Inr r"
    "evaluate_rest cx ''or_kleene'' cs b r = Inr d" by auto
  have f: "fits (f_rows b) x" using evaluate_fits [OF assms(1,2) x(1)] .
  then have "fits (f_rows b) r" using call_fits(2) [OF assms(1) x(2)] Cons.prems(1) by blast
  from Cons.IH [OF this x(3) Cons.prems(3)] binary_row [OF law_or [OF assms(1)] Cons.prems(1) f x(2) assms(3)] x(1)
  show ?case by (auto simp: holds_def)
qed simp

lemma holds_and:
  assumes "compute_laws cx" "wf_fbatch b" "i < f_rows b" "holds cx (Spec a cs) b i" "s_kind a = KAnd"
  shows "\<forall>c \<in> set cs. holds cx c b i"
proof (cases cs)
  case (Cons c rest)
  then obtain x d where x: "evaluate cx c b = Inr x" "evaluate_rest cx ''and_kleene'' rest b x = Inr d"
    "rows (f_rows b) d ! i = ABoolV True" using assms(4,5) by (auto simp: holds_def)
  from and_rest_true [OF assms(1-3) evaluate_fits [OF assms(1,2) x(1)] x(2,3)] x(1) Cons show ?thesis
    by (auto simp: holds_def)
qed simp

lemma holds_or:
  assumes "compute_laws cx" "wf_fbatch b" "i < f_rows b" "holds cx (Spec a cs) b i" "s_kind a = KOr"
  shows "\<exists>c \<in> set cs. holds cx c b i"
proof (cases cs)
  case Nil
  then show ?thesis using assms(4,5) by (simp add: holds_def)
next
  case (Cons c rest)
  then obtain x d where x: "evaluate cx c b = Inr x" "evaluate_rest cx ''or_kleene'' rest b x = Inr d"
    "rows (f_rows b) d ! i = ABoolV True" using assms(4,5) by (auto simp: holds_def)
  from or_rest_true [OF assms(1-3) evaluate_fits [OF assms(1,2) x(1)] x(2,3)] x(1) Cons show ?thesis
    by (auto simp: holds_def)
qed


lemma holds_not:
  assumes "compute_laws cx" "wf_fbatch b" "i < f_rows b" "holds cx (Spec a [c]) b i" "s_kind a = KNot"
  shows "\<exists>x. evaluate cx c b = Inr x \<and> rows (f_rows b) x ! i = ABoolV False"
proof -
  obtain x d where x: "evaluate cx c b = Inr x" "call_kernel cx ''invert'' [x] = Inr d" "rows (f_rows b) d ! i = ABoolV True"
    using assms(4,5) by (auto simp: holds_def)
  have f: "fits (f_rows b) x" using evaluate_fits [OF assms(1,2) x(1)] .
  then have "rows (f_rows b) d = map kleene_not (rows (f_rows b) x)"
    using law_invert [OF assms(1), of "f_rows b" "decoded_dictionary x" d] x(2) by (simp add: call_kernel_Inr)
  then show ?thesis using x(1,3) assms(3) f by (auto simp: fits_def)
qed

subsection \<open>Comparisons\<close>

lemma floating_ordering_0: "floating_ordering x y = 0 \<longleftrightarrow> x = y"
  by (cases x; cases y) (auto simp: floating_ordering_def)

lemma floating_bare [simp]: "floating_type (bare t) = floating_type t" "is_integer (bare t) = is_integer t"
  by (cases t; simp)+

lemma logical_bare: "logical_type (bare t) = bare (logical_type t)"
  by (induction t rule: logical_type.induct) simp_all

lemma type_equals_logical: "type_equals s t \<Longrightarrow> type_equals (logical_type s) (logical_type t)"
  unfolding type_equals_def by (metis logical_bare)

lemma type_equals_decoded:
  assumes "type_equals s t"
  shows "type_equals (decoded_type s) (decoded_type t)"
proof -
  have "bare (decoded_type u) = decoded_type (bare u)" for u by (cases u) simp_all
  with assms show ?thesis by (simp add: type_equals_def)
qed

lemma type_equals_kinds:
  assumes "type_equals s t"
  shows "floating_type s = floating_type t" "is_integer (logical_type s) = is_integer (logical_type t)"
  using assms type_equals_logical [OF assms] unfolding type_equals_def by (metis floating_bare)+

lemma typed_decoded [simp]: "typed (decoded_type t) vs = typed t vs"
  by (simp add: typed_def)

lemma typed_datum_decoded: "typed (datum_type (decoded_dictionary d)) vs = typed (datum_type d) vs"
  by (cases d) (simp_all add: decoded_DArray)

lemma floating_logical: "floating_type t \<Longrightarrow> logical_type t = t"
  by (cases t) simp_all

lemma integer_not_floating: "is_integer (logical_type t) \<Longrightarrow> \<not> floating_type t"
  by (cases t) simp_all

lemma typed_nth: "typed t vs \<Longrightarrow> i < length vs \<Longrightarrow>
   (floating_type (logical_type t) \<longrightarrow> vs ! i = ANil \<or> (\<exists>f. vs ! i = AFloatV f)) \<and>
   (is_integer (logical_type t) \<longrightarrow> vs ! i = ANil \<or> (\<exists>k. vs ! i = AIntV k))"
  using nth_mem [of i vs] unfolding typed_def by blast

text \<open>A true row of an equality has equal operands, none of them null.\<close>

lemma compare_eq_true:
  assumes "compute_laws cx" "compare cx l r ''eq'' n = Inr d" "i < n" "rows n d ! i = ABoolV True"
    "typed (datum_type l) (rows n l)" "typed (datum_type r) (rows n r)"
  shows "rows n l ! i = rows n r ! i \<and> rows n l ! i \<noteq> ANil"
proof -
  let ?l = "\<lparr>a_type = datum_type (decoded_dictionary l), a_vals = rows n l\<rparr>"
  let ?r = "\<lparr>a_type = datum_type (decoded_dictionary r), a_vals = rows n r\<rparr>"
  have c: "fits n l" "fits n r" "type_equals (a_type ?l) (a_type ?r)" "compare_arrays cx ?l ?r ''eq'' n = Inr d"
    using assms(2) by (auto simp: compare_def array_from_datum_Inr split: if_splits)
  show ?thesis
  proof (cases "floating_type (a_type ?l)")
    case True
    then have r: "floating_type (a_type ?r)" using type_equals_kinds [OF c(3)] by simp
    obtain dl dr vs where v: "cast_to cx (DArray ?l) ADouble = Inr dl" "cast_to cx (DArray ?r) ADouble = Inr dr"
      "mapE (floating_row ''eq'') (zip (rows n dl) (rows n dr)) = Inr vs" "d = bool_array vs" "fits n dl" "fits n dr"
      using c(4) True by (auto simp: compare_arrays_def array_from_datum_Inr)
    have dl: "rows n dl = rows n l" "rows n dr = rows n r"
      using law_double [OF assms(1) True v(1)] law_double [OF assms(1) r v(2)] by simp_all
    have "floating_row ''eq'' (rows n l ! i, rows n r ! i) = Inr (vs ! i)"
      using v(3) dl assms(3) c(1,2) unfolding mapE_eq_Inr list_all2_conv_all_nth fits_def by auto
    moreover have "vs ! i = ABoolV True" using assms(4) v(4) by simp
    moreover have "rows n l ! i = ANil \<or> (\<exists>f. rows n l ! i = AFloatV f)" "rows n r ! i = ANil \<or> (\<exists>f. rows n r ! i = AFloatV f)"
      using typed_nth [of "a_type ?l" "rows n l" i] typed_nth [of "a_type ?r" "rows n r" i] True r assms(3,5,6) c(1,2)
      by (auto simp: typed_datum_decoded fits_def floating_logical)
    ultimately show ?thesis
      by (auto simp: floating_row_def is_distinct_op_def floating_compare_def floating_ordering_0 split: if_splits)
  next
    case False
    then have r: "\<not> floating_type (a_type ?r)" using type_equals_kinds [OF c(3)] by simp
    let ?L = "?l\<lparr>a_type := decoded_type (a_type ?l)\<rparr>" and ?R = "?r\<lparr>a_type := decoded_type (a_type ?r)\<rparr>"
    have e: "call_function cx ''equal'' [DArray ?L, DArray ?R] = Inr d"
      using c(4) False r by (simp add: compare_arrays_def is_distinct_op_def kernel_of_def call_kernel_Inr decoded_DArray)
    have "type_equals (a_type ?L) (a_type ?R)" using type_equals_decoded [OF c(3)] by simp
    from law_equal(2) [OF assms(1) this _ e, of i] show ?thesis using assms(3,4) c(1,2) by (auto simp: fits_def)
  qed
qed


text \<open>A true row of an integer comparison has integer operands in that order.\<close>

definition relation_of :: "string \<Rightarrow> (int \<Rightarrow> int \<Rightarrow> bool) option" where
  "relation_of op = map_of [(''eq'', (=)), (''lt'', (<)), (''le'', (\<le>)), (''gt'', (>)), (''ge'', (\<ge>))] op"

lemma relation_kernel:
  assumes "compute_laws cx" "relation_of op = Some f" "op \<noteq> ''eq''"
  shows "\<exists>kn. kernel_of op = Some kn \<and> integer_law cx kn f"
  using assms(2,3) law_less [OF assms(1)]
  by (auto simp: relation_of_def kernel_of_def split: if_splits)

lemma compare_int_true:
  assumes "compute_laws cx" "compare cx l r op n = Inr d" "i < n" "rows n d ! i = ABoolV True"
    "typed (datum_type l) (rows n l)" "typed (datum_type r) (rows n r)"
    "is_integer (logical_type (datum_type l)) \<or> is_integer (logical_type (datum_type r))" "relation_of op = Some f"
  shows "\<exists>x y. rows n l ! i = AIntV x \<and> rows n r ! i = AIntV y \<and> f x y"
proof -
  let ?l = "\<lparr>a_type = datum_type (decoded_dictionary l), a_vals = rows n l\<rparr>"
  let ?r = "\<lparr>a_type = datum_type (decoded_dictionary r), a_vals = rows n r\<rparr>"
  have dec: "logical_type (datum_type (decoded_dictionary x)) = logical_type (datum_type x)" for x
    by (cases x) (simp_all add: decoded_DArray)
  have c: "fits n l" "fits n r" "type_equals (a_type ?l) (a_type ?r)" "compare_arrays cx ?l ?r op n = Inr d"
    using assms(2) by (auto simp: compare_def array_from_datum_Inr split: if_splits)
  have int: "is_integer (logical_type (a_type ?l))" "is_integer (logical_type (a_type ?r))"
    using assms(7) type_equals_kinds(2) [OF c(3)] by (auto simp: dec)
  have ints: "rows n l ! i = ANil \<or> (\<exists>k. rows n l ! i = AIntV k)" "rows n r ! i = ANil \<or> (\<exists>k. rows n r ! i = AIntV k)"
    using typed_nth [of "datum_type l" "rows n l" i] typed_nth [of "datum_type r" "rows n r" i] int assms(3,5,6) c(1,2)
    by (auto simp: fits_def dec)
  show ?thesis
  proof (cases "op = ''eq''")
    case True
    then show ?thesis
      using compare_eq_true [OF assms(1) _ assms(3-6)] assms(2,8) ints by (auto simp: relation_of_def)
  next
    case False
    obtain kn where kn: "kernel_of op = Some kn" "integer_law cx kn f" using relation_kernel [OF assms(1,8) False] by blast
    have nf: "\<not> floating_type (a_type ?l)" "\<not> floating_type (a_type ?r)" "\<not> is_distinct_op op"
      using integer_not_floating int kn(1) by (auto simp: is_distinct_op_def kernel_of_def)
    let ?L = "?l\<lparr>a_type := decoded_type (a_type ?l)\<rparr>" and ?R = "?r\<lparr>a_type := decoded_type (a_type ?r)\<rparr>"
    have e: "call_function cx kn [DArray ?L, DArray ?R] = Inr d"
      using c(4) nf kn(1) by (simp add: compare_arrays_def call_kernel_Inr decoded_DArray)
    have "rows (length (a_vals ?L)) d = map2 (int_compare f) (a_vals ?L) (a_vals ?R)"
      using kn(2) [unfolded integer_law_def, rule_format, OF _ _ _ _ _ e] int assms(5,6) c(1,2)
      by (simp add: typed_datum_decoded fits_def)
    then have "rows n d ! i = int_compare f (rows n l ! i) (rows n r ! i)" using c(1,2) assms(3) by (simp add: fits_def)
    then show ?thesis using assms(4) ints by auto
  qed
qed

end
