(* ===== verification/Pushdown_Properties.thy ===== *)
theory Pushdown_Properties
  imports Filter_Semantics
begin

section \<open>Pruning is sound\<close>

text \<open>
  What a worker may conclude from the predicates of a scan: a row every predicate holds for has its
  column within \<^verbatim>\<open>column_bounds\<close> and among \<^verbatim>\<open>column_values\<close>, so a partition outside them holds no row of the
  answer. Then the state of a scan over its deltas, and what \<^verbatim>\<open>apply\<close> keeps.
\<close>

subsection \<open>Columns and literals\<close>

text \<open>The value a row has in the one column of that name.\<close>

definition cell_of :: "fbatch \<Rightarrow> nat \<Rightarrow> nat \<Rightarrow> aval" where
  "cell_of b j i = a_vals (f_cols b ! j) ! i"

lemma column_position_unique:
  assumes "field_indices b column = [j]" "s_column_name a = column"
  shows "column_position a b = Some j"
proof -
  have "k = j" if "k < length (f_fields b)" "af_name (f_fields b ! k) = column" for k
  proof -
    have "k \<in> set (field_indices b column)" using that by (simp add: field_indices_def)
    then show ?thesis using assms(1) by simp
  qed
  then show ?thesis using assms by (auto simp: column_position_def)
qed

lemma evaluate_direct_column:
  assumes "is_direct_column e column" "field_indices b column = [j]" "evaluate cx e b = Inr d"
  shows "d = DArray (f_cols b ! j)"
  using assms column_position_unique [OF assms(2), of "attrs e"]
  by (cases e) (auto simp: is_direct_column_def evaluate_column_def split: if_splits)

lemma unique_column_wf:
  assumes "wf_fbatch b" "field_indices b column = [j]"
  shows "length (a_vals (f_cols b ! j)) = f_rows b" "typed (a_type (f_cols b ! j)) (a_vals (f_cols b ! j))"
proof -
  have "j \<in> set (field_indices b column)" using assms(2) by simp
  then have "j < length (f_fields b)" by (simp add: field_indices_def)
  then show "length (a_vals (f_cols b ! j)) = f_rows b" "typed (a_type (f_cols b ! j)) (a_vals (f_cols b ! j))"
    using assms(1) by (simp_all add: wf_fbatch_def)
qed

text \<open>The payloads of a tree are arrays of their type.\<close>

fun typed_spec :: "spec \<Rightarrow> bool" where
  "typed_spec (Spec a cs) \<longleftrightarrow>
     (case s_value a of None \<Rightarrow> True | Some v \<Rightarrow> typed (a_type v) (a_vals v)) \<and> (\<forall>c \<in> set cs. typed_spec c)"

lemma evaluate_literal_Inr:
  assumes "s_kind (attrs e) = KLiteral" "evaluate cx e b = Inr d" "typed_spec e"
  shows "\<exists>v x xs. s_value (attrs e) = Some v \<and> a_vals v = x # xs \<and> d = DScalar (a_type v) x \<and> typed (a_type v) [x]"
  using assms by (cases e) (auto simp: evaluate_literal_def typed_def split: option.splits list.splits)

lemma typed_replicate: "typed t [x] \<Longrightarrow> typed t (replicate n x)"
  by (auto simp: typed_def)

lemma scalar_int64_Some:
  assumes "compute_laws cx" "scalar_int64 cx (Some v) = Some k"
  shows "is_integer (logical_type (a_type v)) \<and> (\<exists>xs. a_vals v = AIntV k # xs)"
proof -
  let ?w = "v\<lparr>a_vals := take 1 (a_vals v)\<rparr>"
  from assms(2) obtain c vs where i: "is_integer (logical_type (a_type v))" "cast_to cx (DArray ?w) AInt64 = Inr (DArray c)"
    "a_vals c = AIntV k # vs"
    by (auto simp: scalar_int64_def int64_values_def split: if_splits sum.splits datum.splits list.splits aval.splits)
  have "a_vals c = take 1 (a_vals v)" using law_int64 [OF assms(1) _ i(2)] i(1) by simp
  then show ?thesis using i(1,3) by (cases "a_vals v") auto
qed

subsection \<open>Bounds\<close>

definition in_bounds :: "bounds \<Rightarrow> int \<Rightarrow> bool" where
  "in_bounds r v \<longleftrightarrow> (\<forall>m. b_min r = Some m \<longrightarrow> m \<le> v) \<and> (\<forall>m. b_max r = Some m \<longrightarrow> v \<le> m)"

lemma in_bounds_intersect: "in_bounds (intersect l r) v \<longleftrightarrow> in_bounds l v \<and> in_bounds r v"
  by (auto simp: in_bounds_def intersect_def split: option.splits)

lemma in_bounds_unite: "in_bounds l v \<or> in_bounds r v \<Longrightarrow> in_bounds (unite l r) v"
  by (auto simp: in_bounds_def unite_def split: option.splits)

lemma operator_bounds_within:
  assumes "operator_bounds op k = Some r" "relation_of op = Some f" "f v k"
  shows "in_bounds r v"
  using assms by (auto simp: operator_bounds_def relation_of_def in_bounds_def split: if_splits)

lemma operator_bounds_relation: "operator_bounds op k = Some r \<Longrightarrow> \<exists>f. relation_of op = Some f"
  by (auto simp: operator_bounds_def relation_of_def split: if_splits)

lemma mirrored_relation:
  "relation_of (mirrored op) = Some f \<Longrightarrow> \<exists>g. relation_of op = Some g \<and> (\<forall>x y. g x y = f y x)"
  by (auto simp: mirrored_def relation_of_def split: if_splits)

lemma comparison_bounds_sound:
  assumes "compute_laws cx" "wf_fbatch b" "i < f_rows b" "field_indices b column = [j]"
    and "typed_spec l" "typed_spec r" "evaluate cx l b = Inr dl" "evaluate cx r b = Inr dr"
    and "compare cx dl dr op (f_rows b) = Inr d" "rows (f_rows b) d ! i = ABoolV True"
    and "comparison_bounds cx op l r column = Some bs"
  shows "\<exists>v. cell_of b j i = AIntV v \<and> in_bounds bs v"
proof -
  note col = unique_column_wf [OF assms(2,4)]
  consider
    (left) k where "is_direct_column l column" "s_kind (attrs r) = KLiteral" "scalar_int64 cx (s_value (attrs r)) = Some k"
      "operator_bounds op k = Some bs"
  | (right) k where "is_direct_column r column" "s_kind (attrs l) = KLiteral" "scalar_int64 cx (s_value (attrs l)) = Some k"
      "operator_bounds (mirrored op) k = Some bs"
    using assms(11) by (auto simp: comparison_bounds_def Let_def split: if_splits option.splits)
  then show ?thesis
  proof cases
    case left
    obtain v x xs where v: "s_value (attrs r) = Some v" "a_vals v = x # xs" "dr = DScalar (a_type v) x" "typed (a_type v) [x]"
      using evaluate_literal_Inr [OF left(2) assms(8,6)] by blast
    have k: "is_integer (logical_type (a_type v))" "x = AIntV k"
      using scalar_int64_Some [OF assms(1), of v k] left(3) v(1,2) by auto
    obtain f where f: "relation_of op = Some f" using operator_bounds_relation [OF left(4)] by blast
    have dl: "dl = DArray (f_cols b ! j)" using evaluate_direct_column [OF left(1) assms(4,7)] .
    obtain y where "cell_of b j i = AIntV y" "f y k"
      using compare_int_true [OF assms(1,9,3,10) _ _ _ f] col k v(3,4) assms(3) typed_replicate [OF v(4)]
      by (auto simp: dl cell_of_def)
    then show ?thesis using operator_bounds_within [OF left(4) f] by blast
  next
    case right
    obtain v x xs where v: "s_value (attrs l) = Some v" "a_vals v = x # xs" "dl = DScalar (a_type v) x" "typed (a_type v) [x]"
      using evaluate_literal_Inr [OF right(2) assms(7,5)] by blast
    have k: "is_integer (logical_type (a_type v))" "x = AIntV k"
      using scalar_int64_Some [OF assms(1), of v k] right(3) v(1,2) by auto
    obtain f where f: "relation_of (mirrored op) = Some f" using operator_bounds_relation [OF right(4)] by blast
    then obtain g where g: "relation_of op = Some g" "\<forall>x y. g x y = f y x" using mirrored_relation by blast
    have dr: "dr = DArray (f_cols b ! j)" using evaluate_direct_column [OF right(1) assms(4,8)] .
    obtain y where "cell_of b j i = AIntV y" "g k y"
      using compare_int_true [OF assms(1,9,3,10) _ _ _ g(1)] col k v(3,4) assms(3) typed_replicate [OF v(4)]
      by (auto simp: dr cell_of_def)
    then show ?thesis using operator_bounds_within [OF right(4) f] g(2) by blast
  qed
qed


text \<open>An \<^verbatim>\<open>in\<close> that holds for a row has the row's value in its set.\<close>

lemma in_loop_true:
  assumes "compute_laws cx" "i < n" "fits n result" "in_loop cx input t n result vs = Inr d" "rows n d ! i = ABoolV True"
    "typed (datum_type input) (rows n input)" "typed t vs"
  shows "rows n result ! i = ABoolV True \<or> (rows n input ! i \<in> set vs \<and> rows n input ! i \<noteq> ANil)"
  using assms(3-5,7)
proof (induction vs arbitrary: result)
  case (Cons v vs)
  then obtain e r where e: "compare cx input (DScalar t v) ''eq'' n = Inr e" "call_kernel cx ''or_kleene'' [result, e] = Inr r"
    "in_loop cx input t n r vs = Inr d" by auto
  have fe: "fits n e" using compare_fits [OF assms(1) e(1)] .
  have r: "rows n r ! i = kleene_or (rows n result ! i) (rows n e ! i)"
    using binary_row [OF law_or [OF assms(1)] Cons.prems(1) fe e(2) assms(2)] .
  have t: "typed t vs" "typed t (replicate n v)" using Cons.prems(4) by (auto simp: typed_def)
  have "rows n r ! i = ABoolV True \<or> (rows n input ! i \<in> set vs \<and> rows n input ! i \<noteq> ANil)"
    using Cons.IH [OF call_fits(2) [OF assms(1) e(2) Cons.prems(1) fe] e(3) Cons.prems(3) t(1)] .
  moreover have "rows n input ! i = v \<and> rows n input ! i \<noteq> ANil" if "rows n e ! i = ABoolV True"
    using compare_eq_true [OF assms(1) e(1) assms(2) that assms(6)] t(2) assms(2) by auto
  ultimately show ?case using r by auto
qed simp

lemma in_true:
  assumes "compute_laws cx" "wf_fbatch b" "i < f_rows b" "field_indices b column = [j]"
    and "holds cx (Spec a (c # cs)) b i" "s_kind a = KIn" "\<not> s_negated a" "is_direct_column c column" "typed_spec (Spec a (c # cs))"
  shows "\<exists>v. s_value a = Some v \<and> cell_of b j i \<in> set (a_vals v) \<and> cell_of b j i \<noteq> ANil"
proof -
  note col = unique_column_wf [OF assms(2,4)]
  obtain x d where x: "evaluate cx c b = Inr x" "evaluate_in cx a x (f_rows b) = Inr d" "rows (f_rows b) d ! i = ABoolV True"
    using assms(5,6) by (auto simp: holds_def)
  have "x = DArray (f_cols b ! j)" using evaluate_direct_column [OF assms(8,4) x(1)] .
  moreover obtain v where v: "s_value a = Some v" using x(2) by (auto simp: evaluate_in_def split: option.splits)
  ultimately have l: "in_loop cx (decoded_dictionary (DArray (f_cols b ! j))) (decoded_type (a_type v)) (f_rows b)
      (bool_array (replicate (f_rows b) (ABoolV False))) (a_vals v) = Inr d"
    using x(2) assms(7) by (simp add: evaluate_in_def decoded_DArray)
  from in_loop_true [OF assms(1,3) _ l x(3)] col v assms(3,9) show ?thesis
    by (auto simp: typed_datum_decoded cell_of_def)
qed

definition closed_around :: "bounds \<Rightarrow> int \<Rightarrow> bool" where
  "closed_around r k \<longleftrightarrow> (\<exists>l u. b_min r = Some l \<and> b_max r = Some u \<and> l \<le> k \<and> k \<le> u)"

lemma widen_keeps: "closed_around r k \<Longrightarrow> closed_around (foldl widen r vs) k"
  by (induction vs arbitrary: r) (auto simp: closed_around_def widen_def min_def max_def split: aval.splits)

lemma widen_covers:
  assumes "AIntV k \<in> set vs" "b_min r = None \<longleftrightarrow> b_max r = None"
  shows "closed_around (foldl widen r vs) k"
  using assms
proof (induction vs arbitrary: r)
  case (Cons v vs)
  show ?case
  proof (cases "v = AIntV k")
    case True
    then have "closed_around (widen r v) k" using Cons.prems(2)
      by (cases "b_min r"; cases "b_max r") (auto simp: closed_around_def widen_def)
    then show ?thesis using widen_keeps by simp
  next
    case False
    have "b_min (widen r v) = None \<longleftrightarrow> b_max (widen r v) = None" using Cons.prems(2) by (simp add: widen_def split: aval.split)
    then show ?thesis using Cons False by simp
  qed
qed simp

lemma set_bounds_within:
  assumes "compute_laws cx" "set_bounds cx (Some v) = Some r" "AIntV k \<in> set (a_vals v)"
  shows "in_bounds r k"
proof -
  obtain vs where vs: "int64_values cx v = Some vs" "r = foldl widen \<lparr>b_min = None, b_max = None\<rparr> vs"
    using assms(2) by (auto simp: set_bounds_def Let_def split: option.splits if_splits)
  have "vs = a_vals v"
    using vs(1) law_int64 [OF assms(1), of v]
    by (auto simp: int64_values_def split: if_splits sum.splits datum.splits)
  then show ?thesis using widen_covers [of k vs "\<lparr>b_min = None, b_max = None\<rparr>"] assms(3) vs(2)
    by (auto simp: closed_around_def in_bounds_def)
qed

lemma set_bounds_integer: "set_bounds cx (Some v) = Some r \<Longrightarrow> is_integer (logical_type (a_type v))"
  by (auto simp: set_bounds_def int64_values_def split: option.splits if_splits)

subsection \<open>Conjunctions and disjunctions\<close>

lemma and_bounds_sound:
  assumes "\<And>c. Some c \<in> set cs \<Longrightarrow> in_bounds c v" "\<And>r. acc = Some r \<Longrightarrow> in_bounds r v" "and_bounds acc cs = Some r"
  shows "in_bounds r v"
  using assms by (induction acc cs rule: and_bounds.induct) (auto simp: in_bounds_intersect split: option.splits)

lemma and_bounds_some: "and_bounds acc cs = Some r \<Longrightarrow> acc \<noteq> None \<or> (\<exists>c. Some c \<in> set cs)"
  by (induction acc cs rule: and_bounds.induct) auto

lemma or_bounds_all: "or_bounds acc cs = Some r \<Longrightarrow> None \<notin> set cs"
  by (induction acc cs rule: or_bounds.induct) auto

lemma or_bounds_sound:
  assumes "or_bounds acc cs = Some r" "(\<exists>c. Some c \<in> set cs \<and> in_bounds c v) \<or> (\<exists>c. acc = Some c \<and> in_bounds c v)"
  shows "in_bounds r v"
  using assms by (induction acc cs rule: or_bounds.induct) (auto intro: in_bounds_unite split: option.splits)

lemma bounds_for_sound:
  assumes "compute_laws cx" "wf_fbatch b" "i < f_rows b" "field_indices b column = [j]"
  shows "holds cx e b i \<Longrightarrow> typed_spec e \<Longrightarrow> bounds_for cx e column = Some r \<Longrightarrow>
    \<exists>v. cell_of b j i = AIntV v \<and> in_bounds r v"
proof (induction e arbitrary: r)
  case (Spec a cs)
  have typed: "\<And>c. c \<in> set cs \<Longrightarrow> typed_spec c" using Spec.prems(2) by simp
  consider (cmp) "s_kind a = KConstant" "length cs = 2" | (isin) "s_kind a = KIn" "\<not> s_negated a" "cs \<noteq> []" "is_direct_column (hd cs) column"
    | (all) "s_kind a = KAnd" | (any) "s_kind a = KOr"
    using Spec.prems(3) by (auto split: if_splits)
  then show ?case
  proof cases
    case cmp
    then obtain l r' where cs: "cs = [l, r']" by (auto simp: length_Suc_conv numeral_2_eq_2)
    from Spec.prems(1) cmp(1) obtain dl dr d where
      "evaluate cx l b = Inr dl" "evaluate cx r' b = Inr dr" "compare cx dl dr (s_op a) (f_rows b) = Inr d"
      "rows (f_rows b) d ! i = ABoolV True" by (auto simp: cs holds_def)
    from comparison_bounds_sound [OF assms _ _ this] typed Spec.prems(3) cmp(1) show ?thesis by (simp add: cs)
  next
    case isin
    then obtain c rest where cs: "cs = c # rest" by (cases cs) auto
    obtain v where v: "s_value a = Some v" "cell_of b j i \<in> set (a_vals v)" "cell_of b j i \<noteq> ANil"
      using in_true [OF assms, of a c rest] Spec.prems(1,2) isin cs by auto
    have s: "set_bounds cx (Some v) = Some r" using Spec.prems(3) isin v(1) by (simp split: if_splits)
    have "typed (a_type v) (a_vals v)" using Spec.prems(2) v(1) by simp
    then obtain k where "cell_of b j i = AIntV k" using set_bounds_integer [OF s] v(2,3) by (auto simp: typed_def)
    then show ?thesis using set_bounds_within [OF assms(1) s] v(2) by auto
  next
    case all
    have h: "\<And>c. c \<in> set cs \<Longrightarrow> holds cx c b i" using holds_and [OF assms(1-3) Spec.prems(1) all] by blast
    have ab: "and_bounds None (map (\<lambda>c. bounds_for cx c column) cs) = Some r" using Spec.prems(3) all by simp
    obtain c s where c: "c \<in> set cs" "bounds_for cx c column = Some s" using and_bounds_some [OF ab] by fastforce
    obtain v where v: "cell_of b j i = AIntV v" using Spec.IH [OF c(1) h typed c(2)] c(1) by blast
    have "in_bounds r v"
    proof (rule and_bounds_sound [OF _ _ ab])
      fix s assume "Some s \<in> set (map (\<lambda>c. bounds_for cx c column) cs)"
      then obtain c' where "c' \<in> set cs" "bounds_for cx c' column = Some s" by (auto dest: sym)
      then show "in_bounds s v" using Spec.IH h typed v by fastforce
    qed simp
    then show ?thesis using v by blast
  next
    case any
    obtain c where c: "c \<in> set cs" "holds cx c b i" using holds_or [OF assms(1-3) Spec.prems(1) any] by blast
    have ob: "or_bounds None (map (\<lambda>c. bounds_for cx c column) cs) = Some r" using Spec.prems(3) any by simp
    then obtain s where s: "bounds_for cx c column = Some s" using or_bounds_all [OF ob] c(1) by (cases "bounds_for cx c column") force+
    obtain v where v: "cell_of b j i = AIntV v" "in_bounds s v" using Spec.IH [OF c typed s] c(1) by blast
    have "Some s \<in> set (map (\<lambda>c. bounds_for cx c column) cs)" using c(1) s by (auto simp: image_iff intro!: bexI [of _ c])
    then show ?thesis using or_bounds_sound [OF ob] v by blast
  qed
qed

text \<open>
  C20: Pruning by bounds loses no row. A row for which every pushed predicate that constrains it holds
  has, in the one column of that name, an integer between the bounds \<^verbatim>\<open>column_bounds\<close> reports,
  whatever the nesting of comparisons, mirrored comparisons, sets, conjunctions and disjunctions;
  with no bound reported nothing is claimed, and at the ends of the 64-bit range nothing overflows.
\<close>

theorem column_bounds_sound:
  assumes "compute_laws cx" "wf_fbatch b" "i < f_rows b" "field_indices b column = [j]"
    and "\<forall>e \<in> set (specs state). typed_spec e \<and> (bounds_for cx e column \<noteq> None \<longrightarrow> holds cx e b i)"
    and "column_bounds cx state column = r" "b_min r \<noteq> None \<or> b_max r \<noteq> None"
  shows "\<exists>v. cell_of b j i = AIntV v \<and> in_bounds r v"
proof -
  have ab: "and_bounds None (map (\<lambda>e. bounds_for cx e column) (specs state)) = Some r"
    using assms(6,7) by (auto simp: column_bounds_def split: option.splits)
  have one: "\<exists>v. cell_of b j i = AIntV v \<and> in_bounds s v"
    if "e \<in> set (specs state)" "bounds_for cx e column = Some s" for e s
    using bounds_for_sound [OF assms(1-4), of e s] assms(5) that by auto
  obtain e s where "e \<in> set (specs state)" "bounds_for cx e column = Some s" using and_bounds_some [OF ab] by fastforce
  then obtain v where v: "cell_of b j i = AIntV v" using one by blast
  have "in_bounds r v"
  proof (rule and_bounds_sound [OF _ _ ab])
    fix s assume "Some s \<in> set (map (\<lambda>e. bounds_for cx e column) (specs state))"
    then obtain e where "e \<in> set (specs state)" "bounds_for cx e column = Some s" by (auto dest: sym)
    then show "in_bounds s v" using one v by fastforce
  qed simp
  then show ?thesis using v by blast
qed


definition int_column :: "string \<Rightarrow> spec" where
  "int_column name = Spec ((new_spec KColumn)\<lparr>s_column_name := name, s_type := Some AInt64\<rparr>) []"

definition int_literal :: "int \<Rightarrow> spec" where
  "int_literal k = Spec ((new_spec KLiteral)\<lparr>s_value := Some \<lparr>a_type = AInt64, a_vals = [AIntV k]\<rparr>, s_type := Some AInt64\<rparr>) []"

definition int_less :: "string \<Rightarrow> int \<Rightarrow> spec" where
  "int_less name k = Spec ((new_spec KConstant)\<lparr>s_op := ''lt'', s_type := Some ABool\<rparr>) [int_column name, int_literal k]"

definition int_batch :: "aval list \<Rightarrow> fbatch" where
  "int_batch vs = \<lparr>f_fields = [AField ''n'' AInt64 True None], f_cols = [\<lparr>a_type = AInt64, a_vals = vs\<rparr>],
     f_rows = length vs, f_metadata = None\<rparr>"

definition scan_of :: "spec list \<Rightarrow> pushdown" where
  "scan_of es = \<lparr>filters = concat (map flatten es), specs = es, revisions = [], required_ids = {}, join_keys = [],
     output_schema = None, evaluation_context = ''vgi.none.v1''\<rparr>"

lemma int_batch_wf: "set vs \<subseteq> insert ANil (range AIntV) \<Longrightarrow> wf_fbatch (int_batch vs)"
  by (simp add: wf_fbatch_def int_batch_def typed_def type_equals_def)

lemma int_batch_index: "field_indices (int_batch vs) ''n'' = [0]"
  by (simp add: field_indices_def int_batch_def)

lemma int_less_holds:
  "evaluate arrow_compute (int_less ''n'' 5) (int_batch [AIntV 3, AIntV 7]) =
     Inr (DArray \<lparr>a_type = ABool, a_vals = [ABoolV True, ABoolV False]\<rparr>)"
  by code_simp

theorem column_bounds_sound_witness:
  "column_bounds arrow_compute (scan_of [int_less ''n'' 5]) ''n'' = \<lparr>b_min = None, b_max = Some 4\<rparr> \<and>
   (\<exists>v. cell_of (int_batch [AIntV 3, AIntV 7]) 0 0 = AIntV v \<and> v \<le> 4)"
proof -
  have b: "column_bounds arrow_compute (scan_of [int_less ''n'' 5]) ''n'' = \<lparr>b_min = None, b_max = Some 4\<rparr>" by code_simp
  have "holds arrow_compute (int_less ''n'' 5) (int_batch [AIntV 3, AIntV 7]) 0"
    by (simp add: holds_def int_less_holds)
  moreover have "typed_spec (int_less ''n'' 5)" by (simp add: int_less_def int_column_def int_literal_def new_spec_def typed_def)
  ultimately have "\<exists>v. cell_of (int_batch [AIntV 3, AIntV 7]) 0 0 = AIntV v \<and> in_bounds \<lparr>b_min = None, b_max = Some 4\<rparr> v"
    by (intro column_bounds_sound [OF arrow_laws int_batch_wf _ int_batch_index _ b])
      (simp_all add: int_batch_def scan_of_def)
  then show ?thesis using b by (simp add: in_bounds_def)
qed

subsection \<open>Enumerated values\<close>

lemma first_values_Some:
  "first_values cx cs column = Some v \<Longrightarrow> \<exists>c \<in> set cs. discrete_values cx c column = Some v"
  by (induction cs) (auto split: option.splits)

lemma all_values_Some:
  "all_values cx cs column = Some vs \<Longrightarrow> c \<in> set cs \<Longrightarrow> \<exists>v \<in> set vs. discrete_values cx c column = Some v"
  by (induction cs arbitrary: vs) (auto split: option.splits)

lemma boolean_column_value:
  assumes "boolean_column e = Some column" "field_indices b column = [j]" "evaluate cx e b = Inr d"
  shows "rows n d ! i = cell_of b j i"
proof -
  have "is_direct_column e column"
    using assms(1) by (auto simp: boolean_column_def is_direct_column_def split: if_splits)
  from evaluate_direct_column [OF this assms(2,3)] show ?thesis by (simp add: cell_of_def)
qed

lemma boolean_leaf_true:
  assumes "compute_laws cx" "wf_fbatch b" "i < f_rows b" "field_indices b column = [j]"
    and "holds cx e b i" "boolean_column_leaf e = Some (column, flag)"
  shows "cell_of b j i = ABoolV flag"
proof (cases e)
  case (Spec a cs)
  show ?thesis
  proof (cases "s_kind a = KNot \<and> length cs = 1")
    case True
    then obtain c where cs: "cs = [c]" by (auto simp: length_Suc_conv)
    from holds_not [OF assms(1-3), of a c] assms(5) Spec cs True obtain x where
      "evaluate cx c b = Inr x" "rows (f_rows b) x ! i = ABoolV False" by auto
    with boolean_column_value [OF _ assms(4), of c cx x "f_rows b" i] assms(6) Spec cs True show ?thesis by auto
  next
    case False
    with assms(6) Spec have "boolean_column e = Some column" "flag = True" by auto
    with boolean_column_value [OF _ assms(4)] assms(5) show ?thesis by (fastforce simp: holds_def)
  qed
qed

lemma discrete_values_cases:
  assumes "discrete_values cx (Spec a cs) column = Some v"
  obtains (eq) "s_kind a = KConstant" "s_op a = ''eq''" "length cs = 2" "is_direct_column (cs ! 0) column"
      "s_kind (attrs (cs ! 1)) = KLiteral" "s_value (attrs (cs ! 1)) = Some v"
    | (leaf) flag where "boolean_column_leaf (Spec a cs) = Some (column, flag)" "v = \<lparr>a_type = ABool, a_vals = [ABoolV flag]\<rparr>"
    | (isin) "s_kind a = KIn" "\<not> s_negated a" "cs \<noteq> []" "is_direct_column (hd cs) column" "s_value a = Some v"
    | (all) "s_kind a = KAnd" "first_values cx cs column = Some v"
    | (any) vs w where "s_kind a = KOr" "all_values cx cs column = Some vs" "concat_arrays cx vs = Some w" "unique_values cx w = Some v"
proof (cases "s_kind a = KConstant \<and> s_op a = ''eq'' \<and> length cs = 2 \<and> is_direct_column (cs ! 0) column \<and>
    s_kind (attrs (cs ! 1)) = KLiteral")
  case True
  then have "s_value (attrs (cs ! 1)) = Some v" using assms unfolding discrete_values.simps by (simp only: if_True simp_thms)
  with True show thesis by (intro eq) simp_all
next
  case False
  note rest = assms [unfolded discrete_values.simps if_not_P [OF False]]
  show thesis
  proof (cases "boolean_column_leaf (Spec a cs)")
    case (Some p)
    with rest have "p = (column, snd p)" "v = \<lparr>a_type = ABool, a_vals = [ABoolV (snd p)]\<rparr>"
      by (cases p, simp split: if_split_asm)+
    with Some leaf show thesis by metis
  next
    case None
    note rest' = rest [unfolded None option.case]
    consider "s_kind a = KIn" | "s_kind a = KAnd" | "s_kind a = KOr" using rest' by (auto split: if_split_asm)
    then show thesis
    proof cases
      case 1 with rest' show thesis by (intro isin) (auto split: if_split_asm)
    next
      case 2 with rest' show thesis by (intro all) simp_all
    next
      case 3
      with rest' obtain vs where vs: "all_values cx cs column = Some vs" by (auto split: option.splits)
      with rest' 3 obtain w where "concat_arrays cx vs = Some w" "unique_values cx w = Some v"
        by (auto split: if_split_asm option.splits)
      with 3 vs show thesis by (intro any)
    qed
  qed
qed

lemma discrete_values_sound:
  assumes "compute_laws cx" "wf_fbatch b" "i < f_rows b" "field_indices b column = [j]"
  shows "holds cx e b i \<Longrightarrow> typed_spec e \<Longrightarrow> discrete_values cx e column = Some v \<Longrightarrow> cell_of b j i \<in> set (a_vals v)"
proof (induction e arbitrary: v)
  case (Spec a cs)
  have typed: "\<And>c. c \<in> set cs \<Longrightarrow> typed_spec c" using Spec.prems(2) by simp
  from Spec.prems(3) show ?case
  proof (cases rule: discrete_values_cases)
    case eq
    then obtain l r where cs: "cs = [l, r]" by (auto simp: length_Suc_conv numeral_2_eq_2)
    from Spec.prems(1) eq(1,2) obtain dl dr d where e: "evaluate cx l b = Inr dl" "evaluate cx r b = Inr dr"
      "compare cx dl dr ''eq'' (f_rows b) = Inr d" "rows (f_rows b) d ! i = ABoolV True" by (auto simp: cs holds_def)
    have dl: "dl = DArray (f_cols b ! j)" using evaluate_direct_column [OF _ assms(4) e(1)] eq(4) cs by simp
    obtain x xs where x: "a_vals v = x # xs" "dr = DScalar (a_type v) x" "typed (a_type v) [x]"
      using evaluate_literal_Inr [OF _ e(2)] eq(5,6) typed cs by auto
    from compare_eq_true [OF assms(1) e(3) assms(3) e(4)] unique_column_wf [OF assms(2,4)] typed_replicate [OF x(3)] x assms(3)
    show ?thesis by (auto simp: dl cell_of_def)
  next
    case (leaf flag)
    from boolean_leaf_true [OF assms Spec.prems(1) leaf(1)] leaf(2) show ?thesis by simp
  next
    case isin
    then obtain c rest where "cs = c # rest" by (cases cs) auto
    with in_true [OF assms, of a c rest] Spec.prems(1,2) isin show ?thesis by auto
  next
    case all
    obtain c where c: "c \<in> set cs" "discrete_values cx c column = Some v" using first_values_Some [OF all(2)] by blast
    have "holds cx c b i" using holds_and [OF assms(1-3) Spec.prems(1) all(1)] c(1) by blast
    from Spec.IH [OF c(1) this typed [OF c(1)] c(2)] show ?thesis .
  next
    case (any vs w)
    obtain c where c: "c \<in> set cs" "holds cx c b i" using holds_or [OF assms(1-3) Spec.prems(1) any(1)] by blast
    obtain u where u: "u \<in> set vs" "discrete_values cx c column = Some u" using all_values_Some [OF any(2) c(1)] by blast
    have "cell_of b j i \<in> set (a_vals u)" using Spec.IH [OF c typed [OF c(1)] u(2)] .
    then show ?thesis using law_unique [OF assms(1) any(4)] law_concat [OF assms(1) any(3)] u(1) by auto
  qed
qed


text \<open>
  C21: Pruning by values loses no row. When the predicates enumerate the values of a column, a row for
  which every predicate holds has one of them there: through equalities, sets, Boolean columns,
  one conjunct of an \<^verbatim>\<open>and\<close>, and an \<^verbatim>\<open>or\<close> only when every branch enumerates.
\<close>

theorem column_values_sound:
  assumes "compute_laws cx" "wf_fbatch b" "i < f_rows b" "field_indices b column = [j]"
    and "\<forall>e \<in> set (specs state). typed_spec e \<and> (discrete_values cx e column \<noteq> None \<longrightarrow> holds cx e b i)"
    and "column_values cx state column = Some v"
  shows "cell_of b j i \<in> set (a_vals v)"
proof -
  obtain e where "e \<in> set (specs state)" "discrete_values cx e column = Some v"
    using first_values_Some assms(6) unfolding column_values_def by blast
  then show ?thesis using discrete_values_sound [OF assms(1-4), of e v] assms(5) by auto
qed

definition int_in :: "string \<Rightarrow> int list \<Rightarrow> spec" where
  "int_in name ks = Spec ((new_spec KIn)\<lparr>s_value := Some \<lparr>a_type = AInt64, a_vals = map AIntV ks\<rparr>, s_type := Some ABool\<rparr>)
     [int_column name]"

definition int_eq :: "string \<Rightarrow> int \<Rightarrow> spec" where
  "int_eq name k = Spec ((new_spec KConstant)\<lparr>s_op := ''eq'', s_type := Some ABool\<rparr>) [int_column name, int_literal k]"

definition either :: "spec \<Rightarrow> spec \<Rightarrow> spec" where
  "either x y = Spec ((new_spec KOr)\<lparr>s_type := Some ABool\<rparr>) [x, y]"

lemma either_holds:
  "evaluate arrow_compute (either (int_in ''n'' [1, 3]) (int_eq ''n'' 9)) (int_batch [AIntV 3, AIntV 7]) =
     Inr (DArray \<lparr>a_type = ABool, a_vals = [ABoolV True, ABoolV False]\<rparr>)"
  by code_simp

theorem column_values_sound_witness:
  "column_values arrow_compute (scan_of [either (int_in ''n'' [1, 3]) (int_eq ''n'' 9)]) ''n'' =
     Some \<lparr>a_type = AInt64, a_vals = [AIntV 1, AIntV 3, AIntV 9]\<rparr> \<and>
   cell_of (int_batch [AIntV 3, AIntV 7]) 0 0 \<in> {AIntV 1, AIntV 3, AIntV 9}"
proof -
  let ?e = "either (int_in ''n'' [1, 3]) (int_eq ''n'' 9)"
  have v: "column_values arrow_compute (scan_of [?e]) ''n'' = Some \<lparr>a_type = AInt64, a_vals = [AIntV 1, AIntV 3, AIntV 9]\<rparr>"
    by code_simp
  have "holds arrow_compute ?e (int_batch [AIntV 3, AIntV 7]) 0" by (simp add: holds_def either_holds)
  moreover have "typed_spec ?e"
    by (simp add: either_def int_in_def int_eq_def int_column_def int_literal_def new_spec_def typed_def)
  ultimately have "cell_of (int_batch [AIntV 3, AIntV 7]) 0 0 \<in> set (a_vals \<lparr>a_type = AInt64, a_vals = [AIntV 1, AIntV 3, AIntV 9]\<rparr>)"
    by (intro column_values_sound [OF arrow_laws int_batch_wf _ int_batch_index _ v]) (simp_all add: int_batch_def scan_of_def)
  then show ?thesis using v by simp
qed

subsection \<open>Applying the predicates\<close>

definition row_of :: "fbatch \<Rightarrow> nat \<Rightarrow> aval list" where
  "row_of b i = map (\<lambda>a. a_vals a ! i) (f_cols b)"

definition all_rows :: "fbatch \<Rightarrow> aval list list" where
  "all_rows b = map (row_of b) [0..<f_rows b]"

lemma select_select_nth:
  assumes "length xs = length msk"
  shows "select msk xs = map (\<lambda>i. xs ! i) (filter (\<lambda>i. msk ! i = ABoolV True) [0..<length msk])"
  using assms
proof (induction msk arbitrary: xs rule: rev_induct)
  case (snoc m msk)
  then obtain ys y where xs: "xs = ys @ [y]" "length ys = length msk" by (cases xs rule: rev_cases) auto
  have "map (\<lambda>i. (ys @ [y]) ! i) (filter (\<lambda>i. (msk @ [m]) ! i = ABoolV True) [0..<length msk]) =
      map (\<lambda>i. ys ! i) (filter (\<lambda>i. msk ! i = ABoolV True) [0..<length msk])"
    by (rule map_cong) (auto simp: xs(2) nth_append intro!: filter_cong)
  then show ?case using snoc.IH [OF xs(2)] by (simp add: xs select_def nth_append)
qed (simp add: select_def)

lemma filter_length: "length (filter (\<lambda>m. m = x) msk) = length (filter (\<lambda>i. msk ! i = x) [0..<length msk])"
  by (simp add: length_filter_conv_card cong: conj_cong)

lemma typed_subset: "typed t vs \<Longrightarrow> set ws \<subseteq> set vs \<Longrightarrow> typed t ws"
  unfolding typed_def by blast

text \<open>What one predicate leaves: the rows it is true for, in order.\<close>

lemma apply_one_rows:
  assumes "compute_laws cx" "wf_fbatch b" "apply_one cx p b = Inr b'"
  shows "all_rows b' = map (row_of b) (filter (\<lambda>i. holds cx p b i) [0..<f_rows b]) \<and> wf_fbatch b'"
proof -
  obtain d where d: "evaluate cx p b = Inr d" "fits (f_rows b) d" "filter_rows cx b (rows (f_rows b) d) = Inr b'"
    using assms(3) by (auto simp: apply_one_def array_from_datum_Inr split: if_splits sum.splits)
  let ?m = "rows (f_rows b) d"
  have m: "length ?m = f_rows b" using d(2) by (simp add: fits_def)
  define ks where "ks = filter (\<lambda>i. ?m ! i = ABoolV True) [0..<f_rows b]"
  note f = law_filter [OF assms(1) m d(3)]
  have rows': "f_rows b' = length ks" using f(2) filter_length [of "ABoolV True" ?m] m by (simp add: ks_def)
  have sel: "select ?m (a_vals a) = map (\<lambda>i. a_vals a ! i) ks" if "a \<in> set (f_cols b)" for a
  proof -
    from that obtain k where "k < length (f_cols b)" "a = f_cols b ! k" by (auto simp: in_set_conv_nth)
    then have "length (a_vals a) = length ?m" using assms(2) m by (auto simp: wf_fbatch_def)
    then show ?thesis using select_select_nth [of "a_vals a" ?m] m by (simp add: ks_def)
  qed
  have "row_of b' k = row_of b (ks ! k)" if "k < length ks" for k
    using that by (simp add: row_of_def f(3) sel)
  then have "all_rows b' = map (row_of b) ks"
    by (intro nth_equalityI) (simp_all add: all_rows_def rows')
  moreover have "ks = filter (\<lambda>i. holds cx p b i) [0..<f_rows b]" by (simp add: ks_def holds_def d(1))
  moreover have "wf_fbatch b'" unfolding wf_fbatch_def f(1)
  proof (intro conjI allI impI)
    show "length (f_cols b') = length (f_fields b)" using assms(2) by (simp add: f(3) wf_fbatch_def)
    fix k assume k: "k < length (f_fields b)"
    let ?a = "f_cols b ! k"
    have wf: "k < length (f_cols b)" "type_equals (a_type ?a) (af_type (f_fields b ! k))" "length (a_vals ?a) = f_rows b"
      "typed (a_type ?a) (a_vals ?a)" using assms(2) k by (auto simp: wf_fbatch_def)
    then have a': "f_cols b' ! k = ?a\<lparr>a_vals := map (\<lambda>i. a_vals ?a ! i) ks\<rparr>" by (simp add: f(3) sel)
    then show "type_equals (a_type (f_cols b' ! k)) (af_type (f_fields b ! k))" "length (a_vals (f_cols b' ! k)) = f_rows b'"
      using wf rows' by simp_all
    show "typed (a_type (f_cols b' ! k)) (a_vals (f_cols b' ! k))"
      using a' wf(3) by (auto intro!: typed_subset [OF wf(4)] simp: ks_def)
  qed
  ultimately show ?thesis by simp
qed


lemma apply_one_subseq:
  assumes "compute_laws cx" "wf_fbatch b" "apply_one cx p b = Inr b'"
  shows "subseq (all_rows b') (all_rows b)" "wf_fbatch b'"
  using apply_one_rows [OF assms] by (auto simp: all_rows_def intro: subseq_map)

text \<open>
  C22: \<^verbatim>\<open>apply\<close> fails closed. When it returns, the surviving rows are a subsequence of the rows given, and
  every required predicate was evaluated on a batch that still contains the survivors and let them
  through, each by a true row of its mask; a required predicate that cannot be evaluated makes
  the whole call fail, an advisory or runtime one only removes rows or nothing.
\<close>

theorem apply_fails_closed:
  assumes "compute_laws cx" "wf_fbatch b" "apply_filters cx ps b = Inr b'"
  shows "subseq (all_rows b') (all_rows b) \<and>
    (\<forall>p \<in> set ps. \<not> s_advisory (attrs p) \<and> s_kind (attrs p) \<noteq> KRuntimeFilter \<longrightarrow>
       (\<exists>c c'. subseq (all_rows c) (all_rows b) \<and> apply_one cx p c = Inr c' \<and> subseq (all_rows b') (all_rows c') \<and>
          all_rows c' = map (row_of c) (filter (\<lambda>i. holds cx p c i) [0..<f_rows c])))"
  using assms(2,3)
proof (induction ps arbitrary: b)
  case (Cons p ps)
  show ?case
  proof (cases "s_kind (attrs p) \<noteq> KRuntimeFilter \<and> (\<exists>c. apply_one cx p b = Inr c)")
    case True
    then obtain c where c: "apply_one cx p b = Inr c" by blast
    note one = apply_one_subseq [OF assms(1) Cons.prems(1) c] apply_one_rows [OF assms(1) Cons.prems(1) c]
    have rest: "apply_filters cx ps c = Inr b'" using Cons.prems(2) True c by simp
    note ih = Cons.IH [OF one(2) rest]
    show ?thesis
    proof (intro conjI ballI impI)
      show "subseq (all_rows b') (all_rows b)" using ih one(1) subseq_order.trans by blast
      fix q assume q: "q \<in> set (p # ps)" "\<not> s_advisory (attrs q) \<and> s_kind (attrs q) \<noteq> KRuntimeFilter"
      show "\<exists>c c'. subseq (all_rows c) (all_rows b) \<and> apply_one cx q c = Inr c' \<and> subseq (all_rows b') (all_rows c') \<and>
          all_rows c' = map (row_of c) (filter (\<lambda>i. holds cx q c i) [0..<f_rows c])"
        using q ih one c subseq_order.trans [OF _ one(1)] by (cases "q = p") (auto, blast+)
    qed
  next
    case False
    then have "apply_filters cx ps b = Inr b'" "s_advisory (attrs p) \<or> s_kind (attrs p) = KRuntimeFilter"
      using Cons.prems(2) by (auto split: sum.splits if_splits)
    with Cons.IH [OF Cons.prems(1)] show ?thesis by auto
  qed
qed simp

lemma apply_demo:
  "apply_filters arrow_compute [int_less ''n'' 5] (int_batch [AIntV 3, AIntV 7]) = Inr (int_batch [AIntV 3])"
  by code_simp

theorem apply_fails_closed_witness:
  "subseq (all_rows (int_batch [AIntV 3])) (all_rows (int_batch [AIntV 3, AIntV 7])) \<and>
   \<not> s_advisory (attrs (int_less ''n'' 5))"
  using apply_fails_closed [OF arrow_laws int_batch_wf apply_demo] by (simp add: int_less_def new_spec_def)

end
