(* ===== verification/Filter_Typing.thy ===== *)
theory Filter_Typing
  imports Filter_Parser
begin

section \<open>What the parser accepts\<close>

text \<open>
  A parsed expression is well typed: each node has the operands its kind needs, of types its kind
  allows, so the evaluator indexes no missing operand. The parser counts exactly the nodes of the
  tree it returns, and the tree is no deeper than the nesting it was allowed.
\<close>

lemma bindP_Inr [simp]: "bindP p f n = Inr r \<longleftrightarrow> (\<exists>x k. p n = Inr (x, k) \<and> f x k = Inr r)"
  by (auto simp: bindP_def)

lemma now_Inr [simp]: "now q n = Inr (x, k) \<longleftrightarrow> q = Inr x \<and> k = n"
  by (auto simp: now_def)

lemma returnP_Inr [simp]: "returnP y n = Inr (x, k) \<longleftrightarrow> x = y \<and> k = n"
  by (auto simp: returnP_def)

lemma now_invalid [simp]: "now (invalid m) n \<noteq> Inr r"
  by (simp add: now_def invalid_def)

definition operands_typed :: "attrs \<Rightarrow> spec list \<Rightarrow> bool" where
  "operands_typed a cs =
     (case s_kind a of
        KColumn \<Rightarrow> cs = [] \<and> s_type a \<noteq> None
      | KField \<Rightarrow> (case cs of
            [c] \<Rightarrow> (case type_of c of
                Some (AStruct fs) \<Rightarrow> s_field_index a < length fs \<and> s_type a = Some (af_type (fs ! s_field_index a))
              | _ \<Rightarrow> False)
          | _ \<Rightarrow> False)
      | KLiteral \<Rightarrow> cs = [] \<and> s_value a \<noteq> None \<and> s_type a = map_option a_type (s_value a)
      | KConstant \<Rightarrow> (case cs of [l, r] \<Rightarrow> same_logical_type (type_of l) (type_of r) | _ \<Rightarrow> False) \<and>
          s_op a \<in> set comparison_ops \<and> s_type a = Some ABool
      | KAnd \<Rightarrow> 2 \<le> length cs \<and> list_all (\<lambda>c. boolean_type (type_of c)) cs \<and> s_type a = Some ABool
      | KOr \<Rightarrow> 2 \<le> length cs \<and> list_all (\<lambda>c. boolean_type (type_of c)) cs \<and> s_type a = Some ABool
      | KNot \<Rightarrow> (case cs of [c] \<Rightarrow> boolean_type (type_of c) | _ \<Rightarrow> False) \<and> s_type a = Some ABool
      | KIsNull \<Rightarrow> length cs = 1 \<and> s_type a = Some ABool
      | KIsNotNull \<Rightarrow> length cs = 1 \<and> s_type a = Some ABool
      | KIn \<Rightarrow> (case (cs, s_value a) of ([c], Some v) \<Rightarrow> same_logical_type (type_of c) (Some (a_type v)) | _ \<Rightarrow> False) \<and>
          s_type a = Some ABool
      | KCast \<Rightarrow> (case cs of [c] \<Rightarrow> exact_context_free_cast (type_of c) (s_type a) | _ \<Rightarrow> False)
      | KArithmetic \<Rightarrow> (case cs of
            [l, r] \<Rightarrow> numeric_type (type_of l) \<and> same_logical_type (type_of l) (type_of r) \<and> s_type a = type_of l
          | _ \<Rightarrow> False) \<and> s_op a \<in> {''add'', ''subtract'', ''multiply''}
      | KNegate \<Rightarrow> (case cs of [c] \<Rightarrow> numeric_type (type_of c) \<and> s_type a = type_of c | _ \<Rightarrow> False)
      | KCall \<Rightarrow> length cs = 2 \<and> s_function a \<in> set standard_functions \<and> call_types (s_function a) cs = Inr () \<and>
          s_type a = Some ABool
      | KRuntimeFilter \<Rightarrow> length cs = 1)"

fun well_typed :: "spec \<Rightarrow> bool" where
  "well_typed (Spec a cs) \<longleftrightarrow> operands_typed a cs \<and> (\<forall>c \<in> set cs. well_typed c)"

fun node_count :: "spec \<Rightarrow> nat" where
  "node_count (Spec a cs) = 1 + sum_list (map node_count cs)"

fun depth :: "spec \<Rightarrow> nat" where
  "depth (Spec a cs) = 1 + fold max (map depth cs) 0"

text \<open>What is shown of every parser of expressions: \<open>left\<close> is the nesting it may use.\<close>

definition parses :: "nat \<Rightarrow> spec \<Rightarrow> nat \<Rightarrow> nat \<Rightarrow> bool" where
  "parses left e n m \<longleftrightarrow> well_typed e \<and> m = n + node_count e \<and> depth e \<le> left \<and> m \<le> max n kMaxNodes"

definition sound :: "nat \<Rightarrow> (json \<Rightarrow> spec parse) \<Rightarrow> bool" where
  "sound left sub \<longleftrightarrow> (\<forall>j n e m. sub j n = Inr (e, m) \<longrightarrow> parses left e n m)"

text \<open>A node parser returns the node's own attributes over soundly parsed operands.\<close>

definition node_ok :: "nat \<Rightarrow> spec \<Rightarrow> nat \<Rightarrow> nat \<Rightarrow> bool" where
  "node_ok left e n m \<longleftrightarrow> operands_typed (attrs e) (children e) \<and> (\<forall>c \<in> set (children e). well_typed c \<and> depth c \<le> left) \<and>
     m = n + sum_list (map node_count (children e)) \<and> m \<le> max n kMaxNodes"

lemma sub_expression_sound:
  "sound left sub \<Longrightarrow> sub_expression sub node key n = Inr (e, m) \<Longrightarrow> parses left e n m"
  by (auto simp: sub_expression_def sound_def)

lemma eachP_sound:
  assumes "sound left sub" "eachP sub js n = Inr (es, m)"
  shows "length es = length js \<and> (\<forall>e \<in> set es. well_typed e \<and> depth e \<le> left) \<and>
    m = n + sum_list (map node_count es) \<and> m \<le> max n kMaxNodes"
  using assms(2)
proof (induction js arbitrary: n es m)
  case (Cons j js)
  then obtain e k es' where e: "sub j n = Inr (e, k)" "eachP sub js k = Inr (es', m)" "es = e # es'" by auto
  from e(1) assms(1) have "parses left e n k" by (simp add: sound_def)
  with Cons.IH [OF e(2)] e(3) show ?case by (auto simp: parses_def)
qed simp

lemmas node_simps = node_ok_def operands_typed_def type_of_def new_spec_def

lemma column_ref_ok: "parse_column_ref env node = Inr e \<Longrightarrow> node_ok left e n n"
  by (auto simp: parse_column_ref_def node_simps Let_def split: option.splits if_splits)

lemma literal_ok: "parse_literal env node = Inr e \<Longrightarrow> node_ok left e n n"
  by (auto simp: parse_literal_def node_simps)

lemma struct_case:
  "(case t of Some (AStruct fs) \<Rightarrow> f fs | _ \<Rightarrow> invalid msg) = Inr x \<longleftrightarrow> (\<exists>fs. t = Some (AStruct fs) \<and> f fs = Inr x)"
proof (cases t)
  case (Some u)
  then show ?thesis by (cases u) simp_all
qed simp

lemma field_ref_ok:
  assumes "sound left sub" "parse_field_ref sub node n = Inr (e, m)"
  shows "node_ok left e n m"
  using assms(2)
  by (auto simp: parse_field_ref_def struct_case parses_def node_ok_def operands_typed_def new_spec_def
      dest!: sub_expression_sound [OF assms(1)])

lemma comparison_ok:
  assumes "sound left sub" "parse_comparison sub node n = Inr (e, m)"
  shows "node_ok left e n m"
  using assms(2)
  by (auto simp: parse_comparison_def parses_def node_simps dest!: sub_expression_sound [OF assms(1)])

lemma junction_ok:
  assumes "sound left sub" "parse_junction sub k name node n = Inr (e, m)" "k = KAnd \<or> k = KOr"
  shows "node_ok left e n m"
  using assms(2,3)
  by (auto simp: parse_junction_def node_simps list_all_iff dest!: eachP_sound [OF assms(1)])

lemma not_ok:
  assumes "sound left sub" "parse_not sub node n = Inr (e, m)"
  shows "node_ok left e n m"
  using assms(2)
  by (auto simp: parse_not_def parses_def node_simps dest!: sub_expression_sound [OF assms(1)])

lemma is_null_ok:
  assumes "sound left sub" "parse_is_null sub node n = Inr (e, m)"
  shows "node_ok left e n m"
  using assms(2)
  by (auto simp: parse_is_null_def parses_def node_simps dest!: sub_expression_sound [OF assms(1)])

lemma in_ok:
  assumes "sound left sub" "parse_in env sub node n = Inr (e, m)"
  shows "node_ok left e n m"
  using assms(2)
  by (auto simp: parse_in_def parses_def node_simps dest!: sub_expression_sound [OF assms(1)])

lemma cast_ok:
  assumes "sound left sub" "parse_cast env sub node n = Inr (e, m)"
  shows "node_ok left e n m"
  using assms(2)
  by (auto simp: parse_cast_def parses_def node_simps dest!: sub_expression_sound [OF assms(1)])

lemma arithmetic_ops_allowed:
  "op \<in> set arithmetic_ops \<Longrightarrow> op \<noteq> ''divide'' \<and> op \<noteq> ''modulo'' \<Longrightarrow> op \<in> {''add'', ''subtract'', ''multiply''}"
  unfolding arithmetic_ops_def by simp

lemma arithmetic_ok:
  assumes "sound left sub" "parse_arithmetic sub node n = Inr (e, m)"
  shows "node_ok left e n m"
proof -
  obtain op l r k where op: "op \<in> set arithmetic_ops" "op \<noteq> ''divide'' \<and> op \<noteq> ''modulo''"
    "sub_expression sub node ''left'' n = Inr (l, k)" "sub_expression sub node ''right'' k = Inr (r, m)"
    "numeric_type (type_of l)" "same_logical_type (type_of l) (type_of r)"
    "e = Spec ((new_spec KArithmetic)\<lparr>s_op := op, s_type := type_of l\<rparr>) [l, r]"
    using assms(2) by (auto simp: parse_arithmetic_def)
  show ?thesis using arithmetic_ops_allowed [OF op(1,2)] op(5-7)
      sub_expression_sound [OF assms(1) op(3)] sub_expression_sound [OF assms(1) op(4)]
    by (simp add: parses_def node_ok_def operands_typed_def new_spec_def) linarith
qed

lemma negate_ok:
  assumes "sound left sub" "parse_negate sub node n = Inr (e, m)"
  shows "node_ok left e n m"
  using assms(2)
  by (auto simp: parse_negate_def parses_def node_simps dest!: sub_expression_sound [OF assms(1)])

lemma call_ok:
  assumes "sound left sub" "parse_call sub node n = Inr (e, m)"
  shows "node_ok left e n m"
proof -
  have ok: "parse_standard_call sub node f n = Inr (e, m) \<Longrightarrow> node_ok left e n m" for f
    by (auto simp: parse_standard_call_def node_simps dest!: eachP_sound [OF assms(1)])
  obtain f where "(case f of JString name \<Rightarrow> parse_standard_call sub node name
      | _ \<Rightarrow> now (bindE (validate_identity f ''call.function'') (\<lambda>_.
          invalid ''extension filter functions were not advertised''))) n = Inr (e, m)"
    using assms(2) by (auto simp: parse_call_def)
  then show ?thesis by (cases f) (auto intro: ok)
qed

lemma runtime_filter_ok:
  assumes "sound left sub" "parse_runtime_filter env sub is_root node n = Inr (e, m)"
  shows "node_ok left e n m"
  using assms(2)
  by (auto simp: parse_runtime_filter_def parses_def node_simps dest!: sub_expression_sound [OF assms(1)])

lemma node_parses:
  assumes "node_ok left e (n + 1) m" "n + 1 \<le> kMaxNodes"
  shows "parses (Suc left) e n m"
proof -
  have fold_max: "fold max xs k \<le> b \<longleftrightarrow> k \<le> b \<and> (\<forall>x \<in> set xs. x \<le> b)" for xs and k b :: nat
    by (induction xs arbitrary: k) auto
  show ?thesis using assms by (cases e) (auto simp: parses_def node_ok_def fold_max)
qed

lemma expression_sound: "sound left (expression left env is_root)"
proof (induction left arbitrary: is_root)
  case (Suc left)
  have "node_ok left e n m" if "parse_node env (expression left env False) is_root kind node n = Inr (e, m)" for kind node n e m
    using that Suc.IH [of False] unfolding parse_node_def
    by (auto split: if_split_asm intro: column_ref_ok literal_ok field_ref_ok comparison_ok junction_ok not_ok is_null_ok in_ok
        cast_ok arithmetic_ok negate_ok call_ok runtime_filter_ok)
  then show ?case by (auto simp: sound_def split: if_split_asm option.splits json.splits intro!: node_parses)
qed (auto simp: sound_def)

lemma parse_predicate_Inr:
  assumes "parse_predicate env delta item n = Inr (p, m)"
  shows "\<exists>node e mode i r. expression kMaxDepth env True node n = Inr (e, m) \<and>
    required_string item ''id'' ''predicate'' = Inr i \<and> required_uint item ''revision'' ''predicate'' = Inr r \<and>
    p = Spec ((attrs e)\<lparr>s_id := i, s_revision := r, s_advisory := (mode = ''advisory'')\<rparr>) (children e) \<and>
    \<not> (s_kind (attrs e) = KRuntimeFilter \<and> mode \<noteq> ''advisory'') \<and>
    \<not> (s_kind (attrs e) \<noteq> KRuntimeFilter \<and> \<not> boolean_type (type_of e)) \<and> \<not> (delta \<and> mode \<noteq> ''advisory'')"
  using assms unfolding parse_predicate_def bindP_Inr now_Inr returnP_Inr check_Inr by blast

lemma predicate_wt:
  assumes "parse_predicate env delta item n = Inr (p, m)" "n \<le> kMaxNodes"
  shows "well_typed p \<and> (boolean_type (type_of p) \<or> s_kind (attrs p) = KRuntimeFilter \<and> s_advisory (attrs p)) \<and>
    depth p \<le> 64 \<and> m = n + node_count p \<and> m \<le> 10000 \<and> (delta \<longrightarrow> s_advisory (attrs p))"
proof -
  obtain node e mode i r where e: "expression kMaxDepth env True node n = Inr (e, m)"
    and p: "p = Spec ((attrs e)\<lparr>s_id := i, s_revision := r, s_advisory := (mode = ''advisory'')\<rparr>) (children e)"
    and t: "\<not> (s_kind (attrs e) = KRuntimeFilter \<and> mode \<noteq> ''advisory'')"
      "\<not> (s_kind (attrs e) \<noteq> KRuntimeFilter \<and> \<not> boolean_type (type_of e))" "\<not> (delta \<and> mode \<noteq> ''advisory'')"
    using parse_predicate_Inr [OF assms(1)] by blast
  have "parses kMaxDepth e n m" using expression_sound e by (simp add: sound_def)
  moreover have "operands_typed (a\<lparr>s_id := i, s_revision := r, s_advisory := b\<rparr>) cs = operands_typed a cs" for a b cs
  proof -
    let ?a = "a\<lparr>s_id := i, s_revision := r, s_advisory := b\<rparr>"
    have same: "s_kind ?a = s_kind a" "s_type ?a = s_type a" "s_field_index ?a = s_field_index a" "s_value ?a = s_value a"
      "s_op ?a = s_op a" "s_function ?a = s_function a" by simp_all
    show ?thesis unfolding operands_typed_def same ..
  qed
  ultimately show ?thesis using p t assms(2)
    by (cases e) (auto simp: parses_def kMaxDepth_def kMaxNodes_def type_of_def)
qed


text \<open>
  C23: A parsed predicate is well typed. Whatever document is given, a predicate the parser returns
  has, at every node, the operands its kind needs, of the types its kind allows, and is a Boolean
  expression or an advisory runtime filter; it is at most 64 levels deep, the node counter advanced by exactly
  its number of nodes, and the counter never passed 10000.
\<close>

theorem predicate_well_typed:
  assumes "parse_predicate env delta item n = Inr (p, m)" "n \<le> kMaxNodes"
  shows "well_typed p \<and> (boolean_type (type_of p) \<or> s_kind (attrs p) = KRuntimeFilter \<and> s_advisory (attrs p)) \<and>
    depth p \<le> 64 \<and> m = n + node_count p \<and> m \<le> 10000 \<and> (delta \<longrightarrow> s_advisory (attrs p))"
  using assms by (rule predicate_wt)

definition demo_env :: parser_env where
  "demo_env = \<lparr>p_batch = \<lparr>f_fields = [AField ''filter_spec'' AString False None, AField ''value_0'' AInt64 True None],
       f_cols = [\<lparr>a_type = AString, a_vals = [ATextV '''']\<rparr>, \<lparr>a_type = AInt64, a_vals = [AIntV 5]\<rparr>], f_rows = 1, f_metadata = None\<rparr>,
     p_join_keys = [], p_schema = Some [AField ''n'' AInt64 True None]\<rparr>"

definition demo_item :: "string \<Rightarrow> nat \<Rightarrow> json" where
  "demo_item mode revision = JObject [(''id'', JString ''p''), (''revision'', JUInt revision), (''mode'', JString mode),
     (''source'', JString ''query''),
     (''expression'', JObject [(''node'', JString ''comparison''), (''op'', JString ''lt''),
        (''left'', JObject [(''node'', JString ''column_ref''), (''column_index'', JUInt 0), (''column_name'', JString ''n'')]),
        (''right'', JObject [(''node'', JString ''literal''), (''value_ref'', JUInt 0)])])]"

definition demo_column_ref :: spec where
  "demo_column_ref = Spec ((new_spec KColumn)\<lparr>s_column_name := ''n'', s_type := Some AInt64\<rparr>) []"

definition demo_literal :: spec where
  "demo_literal = Spec ((new_spec KLiteral)\<lparr>s_value := Some \<lparr>a_type = AInt64, a_vals = [AIntV 5]\<rparr>, s_type := Some AInt64\<rparr>) []"

definition demo_predicate :: "bool \<Rightarrow> nat \<Rightarrow> spec" where
  "demo_predicate adv revision = Spec ((new_spec KConstant)\<lparr>s_op := ''lt'', s_column_name := ''n'',
     s_value := Some \<lparr>a_type = AInt64, a_vals = [AIntV 5]\<rparr>, s_type := Some ABool, s_id := ''p'', s_revision := revision,
     s_advisory := adv\<rparr>) [demo_column_ref, demo_literal]"

lemma demo_parses: "parse_predicate demo_env False (demo_item ''required'' 0) 0 = Inr (demo_predicate False 0, 3)"
  by code_simp

theorem predicate_well_typed_witness:
  "parse_predicate demo_env False (demo_item ''required'' 0) 0 = Inr (demo_predicate False 0, 3) \<and>
   well_typed (demo_predicate False 0) \<and> depth (demo_predicate False 0) \<le> 64"
  using demo_parses predicate_well_typed [OF demo_parses] by simp

end
