(* ===== verification/Pushdown_State.thy ===== *)
theory Pushdown_State
  imports Pushdown Filter_Typing
begin

section \<open>The state of a scan\<close>

text \<open>
  The invariant of \<^verbatim>\<open>PushdownFilters\<close>: predicate ids are unique and known to the revision table, the
  required ids are those of the predicates that are not advisory, every predicate is well typed,
  the flattened view is that of the predicates. A snapshot establishes it and a delta keeps it; a
  delta never touches a required predicate and never lowers a revision.
\<close>

definition wf_scan :: "pushdown \<Rightarrow> bool" where
  "wf_scan state \<longleftrightarrow> distinct (map spec_id (specs state)) \<and> distinct (map fst (revisions state)) \<and>
     spec_id ` set (specs state) \<subseteq> fst ` set (revisions state) \<and>
     required_ids state = spec_id ` {e \<in> set (specs state). \<not> s_advisory (attrs e)} \<and>
     (\<forall>e \<in> set (specs state). well_typed e)"

definition flat_view :: "pushdown \<Rightarrow> bool" where
  "flat_view state \<longleftrightarrow> filters state = concat (map flatten (specs state))"

lemma map_of_None_iff: "map_of m k = None \<longleftrightarrow> k \<notin> fst ` set m"
  by (simp add: map_of_eq_None_iff)

lemma keys_update: "fst ` set (AList.update k v m) = insert k (fst ` set m)"
  by (simp add: AList.dom_update)

lemma length_update_new: "k \<notin> fst ` set m \<Longrightarrow> length (AList.update k v m) = Suc (length m)"
  by (induction m) auto

lemma required_string_Inr: "required_string object key loc = Inr s \<longleftrightarrow> member object key = Some (JString s) \<and> s \<noteq> ''''"
  by (auto simp: required_string_def at_key_def split: option.splits json.splits if_splits)

lemma predicate_fields:
  assumes "parse_predicate env delta item n = Inr (p, m)" "n \<le> kMaxNodes"
  shows "member item ''id'' = Some (JString (spec_id p))" "well_typed p" "delta \<Longrightarrow> s_advisory (attrs p)" "m \<le> kMaxNodes"
  using parse_predicate_Inr [OF assms(1)] predicate_wt [OF assms]
  by (auto simp: required_string_Inr spec_id_def kMaxNodes_def)

subsection \<open>Snapshots\<close>

lemma add_predicates_wf:
  assumes "add_predicates env js state n = Inr (state', m)" "wf_scan state" "n \<le> kMaxNodes"
  shows "wf_scan state' \<and> length (revisions state') = length (revisions state) + length js"
  using assms
proof (induction js arbitrary: state n)
  case (Cons item js)
  let ?next = "\<lambda>p. state\<lparr>revisions := AList.update (spec_id p) 0 (revisions state),
      required_ids := (if s_advisory (attrs p) then required_ids state else insert (spec_id p) (required_ids state)),
      specs := specs state @ [p]\<rparr>"
  obtain p k where p: "parse_predicate env False item n = Inr (p, k)" "map_of (revisions state) (spec_id p) = None"
    and rest: "add_predicates env js (?next p) k = Inr (state', m)"
    using Cons.prems(1) by auto
  note f = predicate_fields [OF p(1) Cons.prems(3)]
  have fresh: "spec_id p \<notin> fst ` set (revisions state)" using p(2) by (simp add: map_of_None_iff)
  then have "wf_scan (?next p)"
    using Cons.prems(2) f(2) unfolding wf_scan_def by (auto simp: keys_update AList.distinct_update)
  then show ?case using Cons.IH [OF rest _ f(4)] fresh by (simp add: length_update_new)
qed simp

lemma empty_scan_wf:
  "wf_scan \<lparr>filters = [], specs = [], revisions = [], required_ids = {}, join_keys = keys,
     output_schema = schema, evaluation_context = context\<rparr>"
  by (simp add: wf_scan_def)

lemma wf_scan_filters [simp]: "wf_scan (state\<lparr>filters := fs\<rparr>) = wf_scan state"
  by (simp add: wf_scan_def)

lemma wf_scan_context [simp]: "wf_scan (state\<lparr>evaluation_context := c\<rparr>) = wf_scan state"
  by (simp add: wf_scan_def)

lemma parse_wf:
  assumes "parse ipc parse_json bytes keys schema = Inr state"
  shows "wf_scan state \<and> flat_view state \<and> length (revisions state) \<le> kMaxPredicates"
proof (cases "bytes = ''''")
  case True
  then show ?thesis using assms by (auto simp: parse_def Let_def flat_view_def empty_scan_wf)
next
  case False
  then obtain env js s0 s1 n where a: "add_predicates env js s0 0 = Inr (s1, n)" "wf_scan s0" "length js \<le> kMaxPredicates" "revisions s0 = []"
    and state: "state = s1\<lparr>filters := concat (map flatten (specs s1))\<rparr>"
    using assms by (auto simp: parse_def Let_def empty_scan_wf simp del: add_predicates.simps)
  show ?thesis using a(3,4) add_predicates_wf [OF a(1,2)] by (simp add: state flat_view_def)
qed

subsection \<open>Deltas\<close>

definition required_specs :: "pushdown \<Rightarrow> spec list" where
  "required_specs state = filter (\<lambda>e. \<not> s_advisory (attrs e)) (specs state)"

definition newer :: "pushdown \<Rightarrow> pushdown \<Rightarrow> bool" where
  "newer s t \<longleftrightarrow> required_ids t = required_ids s \<and> required_specs t = required_specs s \<and>
     join_keys t = join_keys s \<and> output_schema t = output_schema s \<and> evaluation_context t = evaluation_context s \<and>
     (\<forall>i r. map_of (revisions s) i = Some r \<longrightarrow> (\<exists>q. map_of (revisions t) i = Some q \<and> r \<le> q))"

lemma newer_refl [simp]: "newer s s"
  by (simp add: newer_def)

lemma newer_trans: "newer s t \<Longrightarrow> newer t u \<Longrightarrow> newer s u"
  unfolding newer_def by (metis order.trans)

lemma replace_predicate_wf:
  assumes "wf_scan state" "i \<notin> required_ids state"
    and "\<And>p. parsed = Some p \<Longrightarrow> spec_id p = i \<and> s_advisory (attrs p) \<and> well_typed p"
  shows "wf_scan (replace_predicate i r parsed state) \<and> newer state (replace_predicate i r parsed state)"
proof (cases "\<exists>old. map_of (revisions state) i = Some old \<and> r \<le> old")
  case True
  then have "replace_predicate i r parsed state = state" by (auto simp: replace_predicate_def)
  then show ?thesis using assms(1) by simp
next
  case False
  let ?kept = "filter (\<lambda>e. spec_id e \<noteq> i) (specs state)"
  let ?t = "state\<lparr>specs := ?kept @ (case parsed of None \<Rightarrow> [] | Some p \<Rightarrow> [p]),
      revisions := AList.update i r (revisions state)\<rparr>"
  have t: "replace_predicate i r parsed state = ?t" using False by (auto simp: replace_predicate_def split: option.splits)
  have adv: "s_advisory (attrs e)" if "e \<in> set (specs state)" "spec_id e = i" for e
    using assms(1,2) that by (auto simp: wf_scan_def)
  have "wf_scan ?t"
    using assms(1,3) adv unfolding wf_scan_def
    by (auto simp: keys_update AList.distinct_update distinct_map_filter split: option.splits)
  moreover have "required_specs ?t = required_specs state"
    using assms(3) adv by (auto simp: required_specs_def split: option.splits intro!: filter_cong)
  moreover have "\<exists>q. map_of (AList.update i r (revisions state)) k = Some q \<and> old \<le> q"
    if "map_of (revisions state) k = Some old" for k old
    using False that by (auto simp: AList.update_conv')
  ultimately show ?thesis by (simp add: t newer_def)
qed

lemma update_parsed:
  assumes "parse_update env operation update n = Inr (parsed, m)" "n \<le> kMaxNodes"
    and "required_string update ''id'' loc = Inr i"
  shows "m \<le> kMaxNodes" "parsed = Some p \<Longrightarrow> spec_id p = i \<and> s_advisory (attrs p) \<and> well_typed p"
proof -
  consider "parsed = None" "m = n" | q where "parsed = Some q" "parse_predicate env True update n = Inr (q, m)"
    using assms(1) by (auto simp: parse_update_def split: if_split_asm)
  then show "m \<le> kMaxNodes" "parsed = Some p \<Longrightarrow> spec_id p = i \<and> s_advisory (attrs p) \<and> well_typed p"
    using assms(2,3) predicate_fields by (cases; fastforce simp: required_string_Inr)+
qed

lemma apply_updates_wf:
  assumes "apply_updates env required updates seen state n = Inr (state', m)"
    and "wf_scan state" "n \<le> kMaxNodes" "required = required_ids state"
  shows "wf_scan state' \<and> newer state state'"
  using assms
proof (induction updates arbitrary: seen state n)
  case (Cons update updates)
  obtain operation i r parsed k where i: "required_string update ''id'' ''update'' = Inr i" "i \<notin> required"
    and p: "parse_update env operation update n = Inr (parsed, k)"
    and rest: "apply_updates env required updates (insert i seen) (replace_predicate i r parsed state) k = Inr (state', m)"
    using Cons.prems(1) unfolding apply_updates.simps(2) bindE_eq_Inr check_Inr split_paired_Ex prod.case by blast
  note parsed = update_parsed [OF p Cons.prems(3) i(1)]
  have step: "wf_scan (replace_predicate i r parsed state)" "newer state (replace_predicate i r parsed state)"
    using replace_predicate_wf [of state i parsed r] i(2) Cons.prems(2,4) parsed(2) by blast+
  have "required = required_ids (replace_predicate i r parsed state)"
    using step(2) Cons.prems(4) by (simp add: newer_def)
  then show ?case using Cons.IH [OF rest step(1) parsed(1)] newer_trans [OF step(2)] by blast
qed simp

lemma newer_filters [simp]: "newer s (t\<lparr>filters := fs\<rparr>) = newer s t"
  by (simp add: newer_def required_specs_def)

lemma apply_delta_wf:
  assumes "apply_delta ipc parse_json bytes state = Inr state'" "wf_scan state"
  shows "wf_scan state' \<and> flat_view state' \<and> newer state state' \<and> length (revisions state') \<le> kMaxPredicateIds"
proof -
  obtain env updates t n where t: "apply_updates env (required_ids state) updates {} state 0 = Inr (t, n)"
    and state': "state' = t\<lparr>filters := concat (map flatten (specs t))\<rparr>" "length (revisions t) \<le> kMaxPredicateIds"
    using assms(1) unfolding apply_delta_def
    by (auto split: if_split_asm simp del: apply_updates.simps)
  show ?thesis using apply_updates_wf [OF t assms(2)] state' by (simp add: flat_view_def)
qed

text \<open>
  The states of one scan: a snapshot first, then any number of deltas, each accepted or refused.
\<close>

inductive scan_state ::
    "(bytes \<Rightarrow> string + fbatch option) \<Rightarrow> (string \<Rightarrow> string + event list \<times> json) \<Rightarrow> pushdown \<Rightarrow> bool"
  for ipc parse_json where
  snapshot: "parse ipc parse_json bytes keys schema = Inr state \<Longrightarrow> scan_state ipc parse_json state"
| delta: "scan_state ipc parse_json state \<Longrightarrow> apply_delta ipc parse_json bytes state = Inr state' \<Longrightarrow>
    scan_state ipc parse_json state'"

lemma scan_state_wf:
  assumes "scan_state ipc parse_json state"
  shows "wf_scan state \<and> flat_view state \<and> length (revisions state) \<le> kMaxPredicateIds"
  using assms
proof induction
  case (snapshot bytes keys schema state)
  then show ?case using parse_wf [OF snapshot] by (simp add: kMaxPredicates_def kMaxPredicateIds_def)
next
  case (delta state bytes state')
  then show ?case using apply_delta_wf by blast
qed

text \<open>
  C24: In every state of a scan, reached from any snapshot by any sequence of deltas, predicate ids
  are unique and known to the revision table, the required ids are exactly those of the predicates that are not advisory,
  every predicate is well typed, the flattened view is that of the predicates, and at most 4096 ids are remembered.
\<close>

theorem scan_invariant:
  assumes "scan_state ipc parse_json state"
  shows "wf_scan state \<and> flat_view state \<and> length (revisions state) \<le> 4096"
  using scan_state_wf [OF assms] by (simp add: kMaxPredicateIds_def)

text \<open>
  C25: A delta only refines a scan. Whatever updates it carries, the required predicates, the required
  ids, the join keys, the schema and the evaluation context stay as they are, no remembered id is forgotten and no
  revision goes down.
\<close>

theorem delta_refines:
  assumes "scan_state ipc parse_json state" "apply_delta ipc parse_json bytes state = Inr state'"
  shows "newer state state'"
  using apply_delta_wf [OF assms(2)] scan_state_wf [OF assms(1)] by blast

definition demo_document :: "string \<Rightarrow> string \<Rightarrow> json \<Rightarrow> json" where
  "demo_document kind name item = JObject [(''encoding'', JString ''vgi.filters.v2''),
     (''semantics'', JString ''vgi.duckdb.standard.v1''), (''kind'', JString kind), (name, JArray [item])]"

definition demo_removal :: json where
  "demo_removal = JObject [(''operation'', JString ''remove''), (''id'', JString ''p''), (''revision'', JUInt 4)]"

definition demo_ipc :: "bytes \<Rightarrow> string + fbatch option" where
  "demo_ipc bytes = Inr (Some ((p_batch demo_env)\<lparr>f_cols := [\<lparr>a_type = AString, a_vals = [ATextV bytes]\<rparr>,
     \<lparr>a_type = AInt64, a_vals = [AIntV 5]\<rparr>], f_metadata := Some [(''vgi_filter_encoding'', ''vgi.filters.v2''),
     (''vgi_filter_version'', ''2''), (''vgi_evaluation_context'', ''vgi.none.v1'')]\<rparr>))"

definition demo_json :: "string \<Rightarrow> string + event list \<times> json" where
  "demo_json text = Inr ([], if text = ''s'' then demo_document ''snapshot'' ''predicates'' (demo_item ''advisory'' 0)
     else demo_document ''delta'' ''updates'' demo_removal)"

definition demo_scan :: pushdown where
  "demo_scan = \<lparr>filters = flatten (demo_predicate True 0), specs = [demo_predicate True 0], revisions = [(''p'', 0)], required_ids = {},
     join_keys = [], output_schema = p_schema demo_env, evaluation_context = ''vgi.none.v1''\<rparr>"

definition removed_scan :: pushdown where
  "removed_scan = demo_scan\<lparr>filters := [], specs := [], revisions := [(''p'', 4)]\<rparr>"

definition demo_batch :: "bytes \<Rightarrow> fbatch" where
  "demo_batch bytes = the (projr (demo_ipc bytes))"

lemma demo_suffix: "canonical_suffix ''0''"
  by code_simp

lemma demo_read:
  assumes "length bytes < 3"
  shows "read_filter demo_ipc demo_json bytes = Inr (demo_batch bytes, ''vgi.none.v1'', Inr (snd (projr (demo_json bytes))))"
  using assms
  by (simp add: read_filter_def kMaxPayloadBytes_def demo_ipc_def demo_json_def demo_env_def validate_batch_def
      validate_filter_spec_def kMaxJsonBytes_def metadata_value_def session_keys_def canonical_payload_name_def
      document_for_def starts_with_def demo_batch_def demo_suffix)

lemma demo_header:
  "validate_header (demo_document ''snapshot'' ''predicates'' item) ''snapshot'' ''predicates'' = Inr [item]"
  "validate_header (demo_document ''delta'' ''updates'' item) ''delta'' ''updates'' = Inr [item]"
  by (simp_all add: validate_header_def demo_document_def require_keys_def at_key_def)

lemma demo_advisory_parses:
  "parse_predicate \<lparr>p_batch = demo_batch ''s'', p_join_keys = [], p_schema = p_schema demo_env\<rparr> False (demo_item ''advisory'' 0) 0 =
     Inr (demo_predicate True 0, 3)"
  by code_simp

lemma demo_id: "spec_id (demo_predicate adv r) = ''p''" "s_advisory (attrs (demo_predicate adv r)) = adv"
  "s_revision (attrs (demo_predicate adv r)) = r"
  by (simp_all add: demo_predicate_def spec_id_def)

lemma demo_snapshot: "parse demo_ipc demo_json ''s'' [] (p_schema demo_env) = Inr demo_scan"
  by (simp add: parse_def decode_join_keys_def demo_read demo_json_def demo_header demo_advisory_parses demo_id
      kMaxPredicates_def demo_scan_def) (simp add: demo_env_def)

lemma demo_delta: "apply_delta demo_ipc demo_json ''d'' demo_scan = Inr removed_scan"
  by (simp add: apply_delta_def demo_read demo_json_def demo_header demo_scan_def removed_scan_def demo_removal_def
      required_string_def required_uint_def at_key_def parse_update_def require_keys_def replace_predicate_def demo_id kMaxPredicateIds_def)

theorem scan_invariant_witness: "scan_state demo_ipc demo_json demo_scan \<and> wf_scan demo_scan \<and> specs demo_scan \<noteq> []"
  using scan_invariant [OF scan_state.snapshot [OF demo_snapshot]] scan_state.snapshot [OF demo_snapshot]
  by (simp add: demo_scan_def)

theorem delta_refines_witness:
  "apply_delta demo_ipc demo_json ''d'' demo_scan = Inr removed_scan \<and> newer demo_scan removed_scan \<and> specs removed_scan = []"
  using delta_refines [OF scan_state.snapshot [OF demo_snapshot] demo_delta] demo_delta by (simp add: removed_scan_def)

end
