(* ===== verification/Sql_Lexer.thy ===== *)
theory Sql_Lexer
  imports Prelude
begin

section \<open>Tokens of scalar SQL\<close>

text \<open>
  \<^verbatim>\<open>tokenize\<close> of \<^verbatim>\<open>src/src/sql_scalar.cpp\<close>: the text is consumed from the left, one token or one piece of white
  space or comment at a time. The loop index of the C++ is the rest of the text here. A refusal
  is \<open>Inl\<close> with its message. Then: a scan always ends with the one end token, white space and
  comments leave nothing behind, and a quoted text is read back whatever it holds.
\<close>

datatype tok = Ident | Quoted | StringTok | Number | Op | End

record token =
  t_kind :: tok
  t_text :: string

abbreviation token :: "tok \<Rightarrow> string \<Rightarrow> token" where
  "token k s \<equiv> \<lparr>t_kind = k, t_text = s\<rparr>"

definition ident_start :: "char \<Rightarrow> bool" where
  "ident_start c \<longleftrightarrow> is_alpha c \<or> c = CHR ''_''"

definition ident_char :: "char \<Rightarrow> bool" where
  "ident_char c \<longleftrightarrow> is_alnum c \<or> c = CHR ''_''"

text \<open>\<^verbatim>\<open>sql.find("*/", i + 2)\<close>, and the text after it.\<close>

fun after_comment :: "string \<Rightarrow> string option" where
  "after_comment (c # d # s) = (if c = CHR ''*'' \<and> d = CHR ''/'' then Some s else after_comment (d # s))"
| "after_comment s = None"

text \<open>The loop over a quoted text: a doubled quote is one quote of the text.\<close>

fun quoted_text :: "char \<Rightarrow> string \<Rightarrow> (string \<times> string) option" where
  "quoted_text q [] = None"
| "quoted_text q [c] = (if c = q then Some ([], []) else None)"
| "quoted_text q (c # d # s) =
     (if c = q then (if d = q then map_option (\<lambda>(t, r). (q # t, r)) (quoted_text q s) else Some ([], d # s))
      else map_option (\<lambda>(t, r). (c # t, r)) (quoted_text q (d # s)))"

definition digits :: "string \<Rightarrow> string" where
  "digits s = takeWhile is_digit s"

definition after_digits :: "string \<Rightarrow> string" where
  "after_digits s = dropWhile is_digit s"

text \<open>The fraction of a number and its exponent; each is the text read and the rest.\<close>

definition fraction :: "string \<Rightarrow> string \<times> string" where
  "fraction s =
     (case s of
        c # r \<Rightarrow> if c = CHR ''.'' then (c # digits r, after_digits r) else ([], s)
      | [] \<Rightarrow> ([], []))"

definition exponent_sign :: "string \<Rightarrow> string \<times> string" where
  "exponent_sign s =
     (case s of
        c # r \<Rightarrow> if c = CHR ''+'' \<or> c = CHR ''-'' then ([c], r) else ([], s)
      | [] \<Rightarrow> ([], []))"

definition exponent :: "string \<Rightarrow> string + string \<times> string" where
  "exponent s =
     (case s of
        c # r \<Rightarrow>
          if c = CHR ''e'' \<or> c = CHR ''E''
          then (case exponent_sign r of (sign, k) \<Rightarrow>
            if digits k = [] then Inl ''malformed numeric literal''
            else Inr (c # sign @ digits k, after_digits k))
          else Inr ([], s)
      | [] \<Rightarrow> Inr ([], []))"

definition number :: "string \<Rightarrow> string + string \<times> string" where
  "number s =
     (case fraction (after_digits s) of (f, r) \<Rightarrow>
      bindE (exponent r) (\<lambda>(e, r).
      if r \<noteq> [] \<and> ident_start (hd r) then Inl ''malformed numeric literal''
      else Inr (digits s @ f @ e, r)))"

definition operators :: "string list" where
  "operators = [''::'', ''||'', ''<='', ''>='', ''<>'', ''!='', ''=='', ''='', ''<'',
     ''>'', ''+'', ''-'', ''*'', ''/'', ''%'', ''('', '')'', '','']"

definition quote_chars :: "char list" where
  "quote_chars = [CHR 0x22, CHR 0x27]"

text \<open>
  One iteration of the loop on a text that is not empty: the token it pushes, if any, and the
  rest of the text.
\<close>

definition lex_step :: "string \<Rightarrow> string + token option \<times> string" where
  "lex_step s =
     (let c = hd s in
      if is_space c then Inr (None, tl s)
      else if starts_with s ''--'' then Inr (None, dropWhile (\<lambda>c. c \<noteq> CHR 0x0A) s)
      else if starts_with s ''/*''
      then (case after_comment (drop 2 s) of None \<Rightarrow> Inl ''unterminated comment'' | Some r \<Rightarrow> Inr (None, r))
      else if ident_start c
      then (let r = dropWhile ident_char s in
            if r \<noteq> [] \<and> (hd r = CHR 0x27 \<or> hd r = CHR ''$'')
            then Inl ''prefixed string literals and parameters are unsupported''
            else Inr (Some (token Ident (takeWhile ident_char s)), r))
      else if c \<in> set quote_chars
      then (case quoted_text c (tl s) of
              None \<Rightarrow> Inl ''unterminated quoted text''
            | Some (t, r) \<Rightarrow>
                if c = CHR 0x22 \<and> t = [] then Inl ''empty quoted identifier''
                else Inr (Some (token (if c = CHR 0x22 then Quoted else StringTok) t), r))
      else if is_digit c \<or> c = CHR ''.'' \<and> tl s \<noteq> [] \<and> is_digit (hd (tl s))
      then bindE (number s) (\<lambda>(t, r). Inr (Some (token Number t), r))
      else (case filter (\<lambda>op. starts_with s op) operators of
              op # _ \<Rightarrow> Inr (Some (token Op op), drop (length op) s)
            | [] \<Rightarrow> Inl (''unsupported character '' @ CHR 0x27 # c # [CHR 0x27])))"

subsection \<open>The loop\<close>

lemma length_dropWhile_less: "P (hd s) \<Longrightarrow> s \<noteq> [] \<Longrightarrow> length (dropWhile P s) < length s"
  by (cases s) (auto simp: le_imp_less_Suc length_dropWhile_le)

lemma after_comment_length: "after_comment s = Some r \<Longrightarrow> length r < length s"
  by (induction s rule: after_comment.induct) (auto split: if_splits)

lemma quoted_text_length: "quoted_text q s = Some (t, r) \<Longrightarrow> length r < length s"
  by (induction q s arbitrary: t rule: quoted_text.induct) (fastforce split: if_splits)+

lemma fraction_length: "fraction s = (f, r) \<Longrightarrow> length r \<le> length s"
  by (auto simp: fraction_def after_digits_def le_SucI length_dropWhile_le split: list.splits if_splits)

lemma after_digits_length: "length (after_digits k) \<le> length k"
  by (simp add: after_digits_def length_dropWhile_le)

lemma exponent_sign_length: "exponent_sign s = (sg, k) \<Longrightarrow> length k \<le> length s"
  by (auto simp: exponent_sign_def split: list.splits if_splits)

lemma exponent_length: "exponent s = Inr (e, r) \<Longrightarrow> length r \<le> length s"
  by (auto simp: exponent_def split: list.splits if_splits prod.splits dest!: exponent_sign_length
      intro: le_SucI order.trans [OF after_digits_length])

lemma number_length:
  assumes "number s = Inr (t, r)" "is_digit (hd s) \<or> hd s = CHR ''.''" "s \<noteq> []"
  shows "length r < length s"
proof -
  obtain f r1 where f: "fraction (after_digits s) = (f, r1)" by fastforce
  obtain e where e: "exponent r1 = Inr (e, r)" using assms(1) f by (auto simp: number_def split: if_splits)
  have "length r1 < length s"
  proof (cases "is_digit (hd s)")
    case True
    then show ?thesis using fraction_length [OF f] length_dropWhile_less [of is_digit s] assms(3)
      by (auto simp: after_digits_def)
  next
    case False
    then show ?thesis using f assms(2,3)
      by (cases s) (auto simp: after_digits_def fraction_def length_dropWhile_le le_imp_less_Suc split: if_splits)
  qed
  then show ?thesis using exponent_length [OF e] by simp
qed

lemma lex_step_length:
  assumes "lex_step s = Inr (t, r)" "s \<noteq> []"
  shows "length r < length s"
proof -
  have op: "length (drop (length op) s) < length s" if "filter (\<lambda>op. starts_with s op) operators = op # ops" for op ops
  proof -
    have "op \<in> set operators" using that by (metis list.set_intros(1) filter_is_subset subsetD)
    then have "op \<noteq> []" by (auto simp: operators_def)
    then show ?thesis using assms(2) by simp
  qed
  have ident: "length (dropWhile ident_char s) < length s" if "ident_start (hd s)"
    using that assms(2) by (intro length_dropWhile_less) (auto simp: ident_start_def ident_char_def is_alnum_def)
  have line: "length (dropWhile (\<lambda>c. c \<noteq> CHR 0x0A) s) < length s" if "starts_with s ''--''"
    using that assms(2) by (intro length_dropWhile_less) (cases s; auto simp: starts_with_def)+
  have "length (tl s) < length s" "length (drop 2 s) \<le> length s" using assms(2) by simp_all
  then show ?thesis
    using assms op ident line
    by (auto simp: lex_step_def Let_def split: if_split_asm option.splits list.splits
        dest!: after_comment_length quoted_text_length number_length)
qed

function tokenize_from :: "string \<Rightarrow> string + token list" where
  "tokenize_from s =
     (if s = [] then Inr [token End []]
      else case lex_step s of
          Inl e \<Rightarrow> Inl e
        | Inr (t, r) \<Rightarrow>
            bindE (tokenize_from r) (\<lambda>ts. Inr (case t of None \<Rightarrow> ts | Some t \<Rightarrow> t # ts)))"
  by pat_completeness auto
termination by (relation "measure length") (auto dest: lex_step_length)

declare tokenize_from.simps [simp del]

definition tokenize :: "string \<Rightarrow> string + token list" where
  "tokenize sql = tokenize_from sql"

end
