(* ===== verification/Sql_Parser.thy ===== *)
theory Sql_Parser
  imports Sql_Lexer
begin

section \<open>The parser of scalar SQL\<close>

text \<open>
  The \<^verbatim>\<open>Parser\<close> class of \<^verbatim>\<open>src/src/sql_scalar.cpp\<close>. The position is the list of tokens left, which always
  ends with the end token; \<open>peek\<close> past it answers the end token, as the C++ does. The nesting
  counter of \<^verbatim>\<open>Depth\<close> is the first argument: the levels that are left of 256. A loop over a
  left-associative operator takes the parser of its operand and, as fuel, the number of tokens
  left; \<open>OutOfFuel\<close> is what it answers without fuel, and that answer is never given.
\<close>

datatype sql_error = Refused string | OutOfFuel

type_synonym 'a sql_parse = "token list \<Rightarrow> sql_error + 'a \<times> token list"

definition refuse :: "string \<Rightarrow> sql_error + 'a" where
  "refuse message = Inl (Refused message)"

subsection \<open>Nodes\<close>

datatype node_kind = Constant | Column | Cast | Comparison | Conjunction | Not | IsNull | Coalesce | Function

datatype literal = LInteger | LBigint | LHugeint | LDecimal | LDouble | LVarchar | LBoolean | LNull

text \<open>A node made without a literal keeps the default, \<^verbatim>\<open>Literal::Null\<close>.\<close>

datatype node = Node (n_kind: node_kind) (n_literal: literal) (n_text: string) (n_children: "node list")

definition make :: "node_kind \<Rightarrow> string \<Rightarrow> node list \<Rightarrow> node" where
  "make k s cs = Node k LNull s cs"

text \<open>Comparison of digit texts as \<^verbatim>\<open>std::string\<close> orders them.\<close>

definition strip_zeros :: "string \<Rightarrow> string" where
  "strip_zeros ds = drop (min (length (takeWhile (\<lambda>c. c = CHR ''0'') ds)) (length ds - 1)) ds"

definition fits :: "string \<Rightarrow> string \<Rightarrow> bool" where
  "fits ds limit \<longleftrightarrow> length ds < length limit \<or> length ds = length limit \<and> string_le ds limit"

definition classify_number :: "string \<Rightarrow> literal" where
  "classify_number s =
     (if CHR ''e'' \<in> set s \<or> CHR ''E'' \<in> set s then LDouble
      else if CHR ''.'' \<in> set s then LDecimal
      else
        let negative = (s \<noteq> [] \<and> hd s = CHR ''-'');
            ds = strip_zeros (if negative then tl s else s) in
        if fits ds (if negative then ''2147483648'' else ''2147483647'') then LInteger
        else if fits ds (if negative then ''9223372036854775808'' else ''9223372036854775807'') then LBigint
        else LHugeint)"

definition numeric :: "node \<Rightarrow> bool" where
  "numeric n \<longleftrightarrow> n_kind n = Constant \<and> n_literal n \<in> {LInteger, LBigint, LHugeint, LDecimal, LDouble}"

subsection \<open>Looking at the tokens\<close>

definition peek :: "token list \<Rightarrow> token" where
  "peek ts = (case ts of [] \<Rightarrow> token End [] | t # _ \<Rightarrow> t)"

definition is_op :: "string \<Rightarrow> token list \<Rightarrow> bool" where
  "is_op s ts \<longleftrightarrow> t_kind (peek ts) = Op \<and> t_text (peek ts) = s"

definition keyword :: "string \<Rightarrow> token list \<Rightarrow> bool" where
  "keyword w ts \<longleftrightarrow> t_kind (peek ts) = Ident \<and> lower (t_text (peek ts)) = w"

definition expect :: "string \<Rightarrow> unit sql_parse" where
  "expect s ts =
     (if is_op s ts then Inr ((), tl ts) else refuse (''expected '' @ CHR 0x27 # s @ [CHR 0x27]))"

subsection \<open>Operator chains\<close>

text \<open>
  \<^verbatim>\<open>while (...) { name = next().text; left = make(kind, name, {left, operand()}); }\<close>. The test gives
  the text of the node to make, or nothing when the loop ends.
\<close>

fun chain_loop ::
    "nat \<Rightarrow> node_kind \<Rightarrow> (token list \<Rightarrow> string option) \<Rightarrow> node sql_parse \<Rightarrow> node \<Rightarrow> node sql_parse" where
  "chain_loop n k test operand left ts =
     (case test ts of
        None \<Rightarrow> Inr (left, ts)
      | Some s \<Rightarrow>
          (case n of
             0 \<Rightarrow> Inl OutOfFuel
           | Suc m \<Rightarrow> bindE (operand (tl ts)) (\<lambda>(right, ts). chain_loop m k test operand (make k s [left, right]) ts)))"

definition chain :: "node_kind \<Rightarrow> (token list \<Rightarrow> string option) \<Rightarrow> node sql_parse \<Rightarrow> node sql_parse" where
  "chain k test operand ts =
     bindE (operand ts) (\<lambda>(left, ts). chain_loop (length ts) k test operand left ts)"

definition on_keyword :: "string \<Rightarrow> token list \<Rightarrow> string option" where
  "on_keyword w ts = (if keyword w ts then Some w else None)"

definition on_ops :: "string list \<Rightarrow> token list \<Rightarrow> string option" where
  "on_ops ops ts = (if \<exists>s \<in> set ops. is_op s ts then Some (t_text (peek ts)) else None)"

definition multiplicative :: "node sql_parse \<Rightarrow> node sql_parse" where
  "multiplicative unary = chain Function (on_ops [''*'', ''/'', ''%'']) unary"

definition additive :: "node sql_parse \<Rightarrow> node sql_parse" where
  "additive unary = chain Function (on_ops [''+'', ''-'']) (multiplicative unary)"

definition concatenation :: "node sql_parse \<Rightarrow> node sql_parse" where
  "concatenation unary = chain Function (on_ops [''||'']) (additive unary)"

definition comparison_ops :: "string list" where
  "comparison_ops = [''='', ''=='', ''<>'', ''!='', ''<'', ''>'', ''<='', ''>='']"

definition normalized :: "string \<Rightarrow> string" where
  "normalized s = (if s = ''=='' then ''='' else if s = ''!='' then ''<>'' else s)"

definition comparison :: "node sql_parse \<Rightarrow> node sql_parse" where
  "comparison unary ts =
     bindE (concatenation unary ts) (\<lambda>(left, ts).
     case on_ops comparison_ops ts of
       None \<Rightarrow> Inr (left, ts)
     | Some s \<Rightarrow>
         bindE (concatenation unary (tl ts)) (\<lambda>(right, ts).
         if on_ops comparison_ops ts \<noteq> None then refuse ''comparisons do not chain''
         else Inr (make Comparison (normalized s) [left, right], ts)))"

text \<open>The suffixes \<^verbatim>\<open>ISNULL\<close>, \<^verbatim>\<open>NOTNULL\<close> and \<^verbatim>\<open>IS [NOT] NULL\<close>, any number of them.\<close>

fun null_loop :: "nat \<Rightarrow> node \<Rightarrow> node sql_parse" where
  "null_loop n node ts =
     (if keyword ''isnull'' ts \<or> keyword ''notnull'' ts \<or> keyword ''is'' ts
      then (case n of
              0 \<Rightarrow> Inl OutOfFuel
            | Suc m \<Rightarrow>
                if keyword ''isnull'' ts \<or> keyword ''notnull'' ts
                then null_loop m (make IsNull (if keyword ''notnull'' ts then ''is not null'' else ''is null'') [node]) (tl ts)
                else
                  let is_not = keyword ''not'' (tl ts); rest = (if is_not then tl (tl ts) else tl ts) in
                  if \<not> keyword ''null'' rest then refuse ''only IS [NOT] NULL is supported''
                  else null_loop m (make IsNull (if is_not then ''is not null'' else ''is null'') [node]) (tl rest))
      else Inr (node, ts))"

definition null_test :: "node sql_parse \<Rightarrow> node sql_parse" where
  "null_test unary ts =
     bindE (comparison unary ts) (\<lambda>(node, ts). null_loop (length ts) node ts)"

declare chain_loop.simps [simp del] null_loop.simps [simp del]

subsection \<open>Types and arguments\<close>

definition type_names :: "(string \<times> string) list" where
  "type_names =
     [(''boolean'', ''BOOLEAN''), (''bool'', ''BOOLEAN''), (''logical'', ''BOOLEAN''),
      (''tinyint'', ''TINYINT''), (''int1'', ''TINYINT''), (''smallint'', ''SMALLINT''),
      (''int2'', ''SMALLINT''), (''short'', ''SMALLINT''), (''integer'', ''INTEGER''),
      (''int'', ''INTEGER''), (''int4'', ''INTEGER''), (''signed'', ''INTEGER''),
      (''bigint'', ''BIGINT''), (''int8'', ''BIGINT''), (''long'', ''BIGINT''),
      (''varchar'', ''VARCHAR''), (''text'', ''VARCHAR''), (''string'', ''VARCHAR''),
      (''char'', ''VARCHAR''), (''bpchar'', ''VARCHAR''), (''character'', ''VARCHAR''),
      (''float'', ''FLOAT''), (''float4'', ''FLOAT''), (''real'', ''FLOAT''),
      (''double'', ''DOUBLE''), (''float8'', ''DOUBLE''), (''decimal'', ''DECIMAL''),
      (''numeric'', ''DECIMAL'')]"

fun modifiers :: "nat \<Rightarrow> unit sql_parse" where
  "modifiers n ts =
     (if t_kind (peek ts) \<noteq> Number then refuse ''expected a type modifier''
      else
        let ts = tl ts in
        if is_op '')'' ts then Inr ((), tl ts)
        else bindE (expect '','' ts) (\<lambda>(_, ts).
          case n of 0 \<Rightarrow> Inl OutOfFuel | Suc m \<Rightarrow> modifiers m ts))"

definition type_name :: "string sql_parse" where
  "type_name ts =
     (if t_kind (peek ts) \<noteq> Ident then refuse ''expected a type name''
      else
        let name = lower (t_text (peek ts)); ts = tl ts;
            ts = (if name = ''double'' \<and> keyword ''precision'' ts then tl ts else ts);
            varying = (name = ''character'' \<and> keyword ''varying'' ts);
            ts = (if varying then tl ts else ts);
            name = (if varying then ''varchar'' else name) in
        bindE (if is_op ''('' ts then modifiers (length ts) (tl ts) else Inr ((), ts)) (\<lambda>(_, ts).
        Inr (case map_of type_names name of None \<Rightarrow> name | Some t \<Rightarrow> t, ts)))"

fun argument_loop :: "nat \<Rightarrow> node sql_parse \<Rightarrow> node list \<Rightarrow> node list sql_parse" where
  "argument_loop n expression args ts =
     bindE (expression ts) (\<lambda>(a, ts).
     if is_op '')'' ts then Inr (args @ [a], tl ts)
     else bindE (expect '','' ts) (\<lambda>(_, ts).
       case n of 0 \<Rightarrow> Inl OutOfFuel | Suc m \<Rightarrow> argument_loop m expression (args @ [a]) ts))"

definition arguments :: "node sql_parse \<Rightarrow> node list sql_parse" where
  "arguments expression ts =
     bindE (expect ''('' ts) (\<lambda>(_, ts).
     if is_op '')'' ts then Inr ([], tl ts)
     else if keyword ''distinct'' ts \<or> keyword ''all'' ts \<or> is_op ''*'' ts
     then refuse ''DISTINCT, ALL and * arguments are unsupported''
     else argument_loop (length ts) expression [] ts)"

declare modifiers.simps [simp del] argument_loop.simps [simp del]

subsection \<open>Primary expressions\<close>

definition reserved :: "string list" where
  "reserved =
     [''and'', ''or'', ''not'', ''is'', ''isnull'', ''notnull'', ''as'', ''case'',
      ''when'', ''then'', ''else'', ''end'', ''in'', ''between'', ''like'', ''ilike'',
      ''select'', ''from'', ''where'', ''exists'', ''distinct'', ''all'', ''any'', ''some'']"

definition primary_word :: "node sql_parse \<Rightarrow> node sql_parse" where
  "primary_word expression ts =
     (let name = t_text (peek ts); word = lower name in
      if word = ''true'' \<or> word = ''false'' \<or> word = ''null''
      then Inr (Node Constant (if word = ''null'' then LNull else LBoolean) word [], tl ts)
      else if word = ''try_cast'' then refuse ''TRY_CAST is unsupported''
      else if word = ''cast''
      then bindE (expect ''('' (tl ts)) (\<lambda>(_, ts).
           bindE (expression ts) (\<lambda>(child, ts).
           if \<not> keyword ''as'' ts then refuse ''expected AS in CAST''
           else bindE (type_name (tl ts)) (\<lambda>(type, ts).
             bindE (expect '')'' ts) (\<lambda>(_, ts). Inr (make Cast type [child], ts)))))
      else if word \<in> set reserved then refuse (''unexpected keyword '' @ name)
      else if is_op ''('' (tl ts)
      then bindE (arguments expression (tl ts)) (\<lambda>(args, ts).
           Inr (if word = ''coalesce'' then make Coalesce ''coalesce'' args else make Function name args, ts))
      else Inr (make Column name [], tl ts))"

definition primary :: "node sql_parse \<Rightarrow> node sql_parse" where
  "primary expression ts =
     (let text = t_text (peek ts) in
      if is_op ''('' ts
      then bindE (expression (tl ts)) (\<lambda>(inner, ts). bindE (expect '')'' ts) (\<lambda>(_, ts). Inr (inner, ts)))
      else case t_kind (peek ts) of
          Number \<Rightarrow> Inr (Node Constant (classify_number text) text [], tl ts)
        | StringTok \<Rightarrow> Inr (Node Constant LVarchar text [], tl ts)
        | Quoted \<Rightarrow>
            if is_op ''('' (tl ts)
            then bindE (arguments expression (tl ts)) (\<lambda>(args, ts). Inr (make Function text args, ts))
            else Inr (make Column text [], tl ts)
        | Ident \<Rightarrow> primary_word expression ts
        | _ \<Rightarrow> refuse (''unexpected '' @ CHR 0x27 # text @ [CHR 0x27]))"

fun cast_loop :: "nat \<Rightarrow> node \<Rightarrow> node sql_parse" where
  "cast_loop n node ts =
     (if is_op ''::'' ts
      then (case n of
              0 \<Rightarrow> Inl OutOfFuel
            | Suc m \<Rightarrow> bindE (type_name (tl ts)) (\<lambda>(type, ts). cast_loop m (make Cast type [node]) ts))
      else Inr (node, ts))"

declare cast_loop.simps [simp del]

definition postfix :: "node sql_parse \<Rightarrow> node sql_parse" where
  "postfix expression ts = bindE (primary expression ts) (\<lambda>(node, ts). cast_loop (length ts) node ts)"

subsection \<open>Expressions\<close>

text \<open>DuckDB folds the sign of a literal into it.\<close>

definition negate :: "node \<Rightarrow> node" where
  "negate child =
     (if numeric child
      then let text = (if n_text child \<noteq> [] \<and> hd (n_text child) = CHR ''-'' then tl (n_text child) else CHR ''-'' # n_text child)
           in Node (n_kind child) (classify_number text) text (n_children child)
      else make Function ''-'' [child])"

definition too_deep :: "sql_error + 'a" where
  "too_deep = refuse ''expression is too deeply nested''"

fun expression :: "nat \<Rightarrow> node sql_parse"
and negation :: "nat \<Rightarrow> node sql_parse"
and unary :: "nat \<Rightarrow> node sql_parse" where
  "expression 0 ts = too_deep"
| "expression (Suc left) ts =
     chain Conjunction (on_keyword ''or'') (chain Conjunction (on_keyword ''and'') (negation left)) ts"
| "negation 0 ts = too_deep"
| "negation (Suc left) ts =
     (if keyword ''not'' ts then bindE (negation left (tl ts)) (\<lambda>(n, ts). Inr (make Not ''not'' [n], ts))
      else null_test (unary left) ts)"
| "unary 0 ts = too_deep"
| "unary (Suc left) ts =
     (if is_op ''-'' ts then bindE (unary left (tl ts)) (\<lambda>(n, ts). Inr (negate n, ts))
      else if is_op ''+'' ts then bindE (unary left (tl ts)) (\<lambda>(n, ts). Inr (make Function ''+'' [n], ts))
      else postfix (expression left) ts)"

definition kMaxSqlDepth :: nat where
  "kMaxSqlDepth = 256"

definition parse_tokens :: "token list \<Rightarrow> sql_error + node" where
  "parse_tokens ts =
     bindE (expression kMaxSqlDepth ts) (\<lambda>(node, ts).
     if t_kind (peek ts) \<noteq> End
     then refuse (''unexpected '' @ CHR 0x27 # t_text (peek ts) @ CHR 0x27 # '' after the expression'')
     else Inr node)"

definition parse_sql :: "string \<Rightarrow> sql_error + node" where
  "parse_sql sql =
     (if sql = [] \<or> 1024 * 1024 < length sql \<or> NUL \<in> set sql then refuse ''invalid SQL size or text''
      else case tokenize sql of
          Inl message \<Rightarrow> refuse message
        | Inr ts \<Rightarrow> parse_tokens ts)"

end
