(* ===== verification/Sql_Check.thy ===== *)
theory Sql_Check
  imports Sql_Parser
begin

section \<open>Checks on the SQL of a catalog\<close>

text \<open>
  \<^verbatim>\<open>validate_numeric_check\<close> and \<^verbatim>\<open>validate_generated_columns\<close> of \<^verbatim>\<open>src/src/sql_scalar.cpp\<close>. A column carries
  what these checks read of an Arrow field: its name, type, nullability and metadata. The text
  Arrow prints for a type only occurs in messages and is an argument. The depth-first search for
  cycles is bounded by the number of columns; it never runs out.
\<close>

datatype ctype =
    CBool | CInt8 | CInt16 | CInt32 | CInt64 | CUInt8 | CUInt16 | CUInt32 | CUInt64
  | CFloat | CDouble | CString | CLargeString | CStringView
  | CStruct "cfield list" | CNested "cfield list" | CDictionary ctype | CExtension ctype | COther string
and cfield = CField (c_name: string) (c_type: ctype) (c_nullable: bool) (c_metadata: "(string \<times> string) list option")

fun is_extension :: "ctype \<Rightarrow> bool" where
  "is_extension (CExtension t) = True" | "is_extension _ = False"

definition has_key :: "cfield \<Rightarrow> string \<Rightarrow> bool" where
  "has_key f key \<longleftrightarrow> (case c_metadata f of None \<Rightarrow> False | Some m \<Rightarrow> key \<in> fst ` set m)"

definition has_extension_name :: "cfield \<Rightarrow> bool" where
  "has_extension_name f \<longleftrightarrow> is_extension (c_type f) \<or> has_key f ''ARROW:extension:name''"

definition is_row_id :: "cfield \<Rightarrow> bool" where
  "is_row_id f \<longleftrightarrow> has_key f ''is_row_id''"

definition between_quotes :: "string \<Rightarrow> string" where
  "between_quotes s = CHR 0x27 # s @ [CHR 0x27]"

text \<open>The loop keeps the index of the match so far.\<close>

fun resolve_loop :: "string \<Rightarrow> string \<Rightarrow> cfield list \<Rightarrow> nat \<Rightarrow> nat option \<Rightarrow> sql_error + nat option" where
  "resolve_loop name what [] i index = Inr index"
| "resolve_loop name what (f # fs) i index =
     (if lower (c_name f) \<noteq> lower name then resolve_loop name what fs (i + 1) index
      else if index \<noteq> None then refuse (what @ '' column reference '' @ between_quotes name @ '' is ambiguous'')
      else resolve_loop name what fs (i + 1) (Some i))"

definition resolve :: "cfield list \<Rightarrow> string \<Rightarrow> string \<Rightarrow> sql_error + nat" where
  "resolve columns name what =
     bindE (resolve_loop name what columns 0 None) (\<lambda>index.
     case index of
       Some i \<Rightarrow>
         if is_row_id (columns ! i) then refuse (what @ '' references a missing or synthetic column '' @ between_quotes name)
         else Inr i
     | None \<Rightarrow> refuse (what @ '' references a missing or synthetic column '' @ between_quotes name))"

subsection \<open>Checks\<close>

definition check_types :: "ctype list" where
  "check_types = [CInt8, CInt16, CInt32, CInt64, CFloat, CDouble]"

definition check_operand :: "(ctype \<Rightarrow> string) \<Rightarrow> cfield list \<Rightarrow> node \<Rightarrow> sql_error + unit" where
  "check_operand show_type columns operand =
     (if n_kind operand = Constant
      then (if numeric operand then Inr () else refuse ''CHECK requires numeric operands'')
      else if n_kind operand \<noteq> Column then refuse ''CHECK supports only numeric column/constant comparisons''
      else bindE (resolve columns (n_text operand) ''CHECK'') (\<lambda>i.
        let f = columns ! i in
        if has_extension_name f then refuse ''CHECK extension-typed operands are unsupported''
        else if c_type f \<in> set check_types then Inr ()
        else refuse (''CHECK requires primitive signed numeric columns; '' @ between_quotes (c_name f) @ '' is '' @
          show_type (c_type f))))"

definition validate_numeric_check :: "(ctype \<Rightarrow> string) \<Rightarrow> string \<Rightarrow> cfield list \<Rightarrow> sql_error + unit" where
  "validate_numeric_check show_type sql columns =
     bindE (parse_sql sql) (\<lambda>n.
     if n_kind n \<noteq> Comparison
     then refuse ''CHECK supports only a Boolean comparison of numeric columns and constants''
     else eachE (check_operand show_type columns) (n_children n))"

subsection \<open>Generated columns\<close>

definition primitive_casts :: "string list" where
  "primitive_casts = [''BOOLEAN'', ''TINYINT'', ''SMALLINT'', ''INTEGER'', ''BIGINT'', ''VARCHAR'']"

definition allowed_functions :: "string list" where
  "allowed_functions = [''+'', ''-'', ''*'', ''%'', ''abs'', ''lower'', ''upper'', ''||'']"

text \<open>What one node may be, and the reference it adds.\<close>

definition generated_here :: "node \<Rightarrow> sql_error + string list" where
  "generated_here n =
     (case n_kind n of
        Constant \<Rightarrow>
          if n_literal n \<in> {LHugeint, LDecimal, LDouble}
          then refuse (''unsupported scalar literal type in '' @ between_quotes (n_text n) @
            '' (generated columns take Boolean, signed integer or string literals)'')
          else Inr []
      | Column \<Rightarrow> if 4096 < length (n_text n) then refuse ''invalid column name'' else Inr [lower (n_text n)]
      | Cast \<Rightarrow>
          if n_text n \<in> set primitive_casts then Inr []
          else refuse (''unsupported scalar cast to '' @ n_text n @
            '' (generated columns cast only to BOOLEAN, signed integer or VARCHAR)'')
      | Function \<Rightarrow>
          if (if n_text n = ''||'' then n_text n else lower (n_text n)) \<in> set allowed_functions then Inr []
          else refuse (''unsupported scalar function '' @ between_quotes (n_text n) @
            '' (generated columns allow + - * % || abs lower upper)'')
      | _ \<Rightarrow> Inr [])"

text \<open>The node counter and the references collected so far go along.\<close>

fun generated_node :: "node \<Rightarrow> nat \<Rightarrow> nat \<times> string list \<Rightarrow> sql_error + nat \<times> string list"
and generated_children :: "node list \<Rightarrow> nat \<Rightarrow> nat \<times> string list \<Rightarrow> sql_error + nat \<times> string list" where
  "generated_node (Node k l s cs) depth (nodes, refs) =
     (if 64 < depth \<or> 4096 < nodes + 1 then refuse ''scalar expression is too complex''
      else bindE (generated_here (Node k l s cs)) (\<lambda>here.
        generated_children cs (depth + 1) (nodes + 1, refs @ here)))"
| "generated_children [] depth state = Inr state"
| "generated_children (c # cs) depth state =
     bindE (generated_node c depth state) (generated_children cs depth)"

definition generated_types :: "ctype list" where
  "generated_types = [CBool, CInt8, CInt16, CInt32, CInt64, CString]"

definition generated_operand_type :: "cfield \<Rightarrow> bool" where
  "generated_operand_type f \<longleftrightarrow> \<not> has_extension_name f \<and>
     c_type f \<in> {CBool, CInt8, CInt16, CInt32, CInt64, CString, CLargeString, CStringView}"

definition dependency :: "(ctype \<Rightarrow> string) \<Rightarrow> cfield list \<Rightarrow> string \<Rightarrow> sql_error + nat" where
  "dependency show_type columns name =
     bindE (resolve columns name ''generated expression'') (\<lambda>i.
     if generated_operand_type (columns ! i) then Inr i
     else refuse (''unsupported generated operand type: column '' @ between_quotes (c_name (columns ! i)) @ '' is '' @
       show_type (c_type (columns ! i))))"

text \<open>The references are a \<^verbatim>\<open>std::set\<close>: sorted, each once.\<close>

definition generated_dependencies :: "(ctype \<Rightarrow> string) \<Rightarrow> cfield list \<Rightarrow> cfield \<Rightarrow> string \<Rightarrow> sql_error + nat list" where
  "generated_dependencies show_type columns f sql =
     (if \<not> c_nullable f
      then refuse ''generated columns must be nullable (a NOT_NULL or PRIMARY_KEY record names it)''
      else if has_extension_name f then refuse ''generated columns cannot have an extension type''
      else if c_type f \<notin> set generated_types
      then refuse (''generated columns require a signed integer, Boolean or utf8 type, not '' @ show_type (c_type f))
      else bindE (parse_sql sql) (\<lambda>n.
        bindE (generated_node n 0 (0, [])) (\<lambda>(_, refs).
        bindE (mapE (dependency show_type columns) (remdups_adj (sort_strings refs))) (\<lambda>indices.
        Inr (remdups_adj (sort indices))))))"

definition prefixed :: "string \<Rightarrow> sql_error + 'a \<Rightarrow> sql_error + 'a" where
  "prefixed prefix_text r = (case r of Inl (Refused message) \<Rightarrow> refuse (prefix_text @ message) | _ \<Rightarrow> r)"

text \<open>The dependencies of every column; a physical column has none.\<close>

definition column_sql :: "string list \<Rightarrow> nat \<Rightarrow> string" where
  "column_sql generated_sql i = (if i < length generated_sql then generated_sql ! i else [])"

definition dependencies :: "(ctype \<Rightarrow> string) \<Rightarrow> cfield list \<Rightarrow> string list \<Rightarrow> sql_error + nat list list" where
  "dependencies show_type columns generated_sql =
     mapE (\<lambda>i. if column_sql generated_sql i = [] then Inr []
               else prefixed (''generated column '' @ between_quotes (c_name (columns ! i)) @ '': '')
                 (generated_dependencies show_type columns (columns ! i) (column_sql generated_sql i)))
       [0..<length columns]"

subsection \<open>Cycles\<close>

text \<open>
  The depth-first search: mark 1 while a column is being visited, 2 when it is done. The C++ walks
  the columns that have dependencies in order; the entries its search adds on the way are done
  already when their turn comes.
\<close>

fun visit :: "nat \<Rightarrow> cfield list \<Rightarrow> nat list list \<Rightarrow> nat \<Rightarrow> (nat \<Rightarrow> nat) \<Rightarrow> sql_error + (nat \<Rightarrow> nat)"
and visit_each :: "nat \<Rightarrow> cfield list \<Rightarrow> nat list list \<Rightarrow> nat list \<Rightarrow> (nat \<Rightarrow> nat) \<Rightarrow> sql_error + (nat \<Rightarrow> nat)" where
  "visit 0 columns deps column marks = Inl OutOfFuel"
| "visit (Suc n) columns deps column marks =
     (if marks column = 2 then Inr marks
      else if marks column = 1
      then refuse (''generated column '' @ between_quotes (c_name (columns ! column)) @ '' depends on itself'')
      else bindE (visit_each n columns deps (deps ! column) (marks(column := 1))) (\<lambda>marks.
        Inr (marks(column := 2))))"
| "visit_each n columns deps [] marks = Inr marks"
| "visit_each n columns deps (c # cs) marks =
     bindE (visit n columns deps c marks) (visit_each n columns deps cs)"

definition find_cycle :: "cfield list \<Rightarrow> nat list list \<Rightarrow> sql_error + (nat \<Rightarrow> nat)" where
  "find_cycle columns deps =
     visit_each (length columns + 1) columns deps (filter (\<lambda>i. deps ! i \<noteq> []) [0..<length columns]) (\<lambda>_. 0)"

definition validate_generated_columns :: "(ctype \<Rightarrow> string) \<Rightarrow> cfield list \<Rightarrow> string list \<Rightarrow> sql_error + unit" where
  "validate_generated_columns show_type columns generated_sql =
     bindE (dependencies show_type columns generated_sql) (\<lambda>deps.
     if list_all (\<lambda>sql. sql = []) generated_sql then Inr ()
     else if \<not> list_ex (\<lambda>i. column_sql generated_sql i = [] \<and> \<not> is_row_id (columns ! i)) [0..<length columns]
     then refuse ''a table with generated columns requires a physical column''
     else bindE (find_cycle columns deps) (\<lambda>_. Inr ()))"

end
