(* ===== verification/Sql_Total.thy ===== *)
theory Sql_Total
  imports Sql_Check
begin

section \<open>The parser always answers\<close>

text \<open>
  Every parser consumes a token when it succeeds, so the fuel of each loop, the number of tokens
  left, is enough: the answer \<open>OutOfFuel\<close> is never given.
\<close>

definition progress :: "'a sql_parse \<Rightarrow> bool" where
  "progress p \<longleftrightarrow> (\<forall>ts. p ts \<noteq> Inl OutOfFuel \<and> (\<forall>x r. p ts = Inr (x, r) \<longrightarrow> length r < length ts))"

lemma progressI:
  "(\<And>ts. p ts \<noteq> Inl OutOfFuel) \<Longrightarrow> (\<And>ts x r. p ts = Inr (x, r) \<Longrightarrow> length r < length ts) \<Longrightarrow> progress p"
  by (simp add: progress_def)

lemma progressD:
  assumes "progress p"
  shows "p ts \<noteq> Inl OutOfFuel" "p ts = Inr (x, r) \<Longrightarrow> length r < length ts"
  using assms by (auto simp: progress_def)

lemma refuse_neq [simp]: "refuse m \<noteq> Inl OutOfFuel" "refuse m \<noteq> Inr x" "too_deep \<noteq> Inl OutOfFuel" "too_deep \<noteq> Inr x"
  by (simp_all add: refuse_def too_deep_def)

lemma peek_Nil [simp]: "peek [] = token End []"
  by (simp add: peek_def)

lemma is_op_Nil [simp]: "\<not> is_op s []"
  by (simp add: is_op_def)

lemma keyword_Nil [simp]: "\<not> keyword w []"
  by (simp add: keyword_def)

lemma op_nonempty [dest]: "is_op s ts \<Longrightarrow> ts \<noteq> []"
  by auto

lemma keyword_nonempty [dest]: "keyword w ts \<Longrightarrow> ts \<noteq> []"
  by auto

lemma kind_nonempty: "t_kind (peek ts) \<noteq> End \<Longrightarrow> ts \<noteq> []"
  by auto

lemma pred_less: "ts \<noteq> [] \<Longrightarrow> length (tl ts) < length ts"
  by (cases ts) auto

lemma expect_progress: "progress (expect s)"
  by (rule progressI) (auto simp: expect_def split: if_splits dest!: pred_less)

lemmas expect_D = progressD [OF expect_progress]

text \<open>The loops: with a token of fuel per token left they end, and never give tokens back.\<close>

definition settles :: "token list \<Rightarrow> sql_error + 'a \<times> token list \<Rightarrow> bool" where
  "settles ts r \<longleftrightarrow> r \<noteq> Inl OutOfFuel \<and> (\<forall>x rest. r = Inr (x, rest) \<longrightarrow> length rest \<le> length ts)"

lemma settles_refuse [simp]: "settles ts (refuse m)" "settles ts too_deep"
  by (simp_all add: settles_def)

lemma settles_Inr [simp]: "settles ts (Inr (x, rest)) \<longleftrightarrow> length rest \<le> length ts"
  by (simp add: settles_def)

lemma settles_bind:
  assumes "progress p" "length us \<le> length ts" "\<And>x r. length r < length us \<Longrightarrow> settles ts (f (x, r))"
  shows "settles ts (bindE (p us) f)"
proof (cases "p us")
  case (Inl e)
  then show ?thesis using progressD(1) [OF assms(1), of us] by (simp add: settles_def)
next
  case (Inr y)
  then show ?thesis using assms(3) progressD(2) [OF assms(1), of us] by (cases y) auto
qed

lemma settles_mono: "settles us r \<Longrightarrow> length us \<le> length ts \<Longrightarrow> settles ts r"
  by (auto simp: settles_def)

lemma progress_bind:
  assumes "progress p" "\<And>x r. settles r (f (x, r))"
  shows "progress (\<lambda>ts. bindE (p ts) f)"
proof (rule progressI)
  fix ts
  show "bindE (p ts) f \<noteq> Inl OutOfFuel"
    using assms progressD(1) [OF assms(1)] by (cases "p ts") (auto simp: settles_def)
  fix x r assume "bindE (p ts) f = Inr (x, r)"
  then obtain y s where "p ts = Inr (y, s)" "f (y, s) = Inr (x, r)" by auto
  then show "length r < length ts" using assms(2) [of s y] progressD(2) [OF assms(1)] by (fastforce simp: settles_def)
qed

lemma progress_tl:
  assumes "\<And>ts. (\<exists>m. p ts = refuse m) \<or> ts \<noteq> [] \<and> settles (tl ts) (p ts)"
  shows "progress p"
proof (rule progressI)
  fix ts
  show "p ts \<noteq> Inl OutOfFuel" using assms [of ts] by (auto simp: settles_def)
  fix x r assume "p ts = Inr (x, r)"
  then have "ts \<noteq> []" "length r \<le> length (tl ts)" using assms [of ts] by (auto simp: settles_def refuse_def)
  then show "length r < length ts" using pred_less [of ts] by linarith
qed

lemma chain_loop_settles:
  assumes "progress operand" "\<And>ts. test ts \<noteq> None \<Longrightarrow> ts \<noteq> []" "length ts \<le> n"
  shows "settles ts (chain_loop n k test operand left ts)"
  using assms(3)
proof (induction n arbitrary: left ts)
  case 0
  then show ?case using assms(2) [of ts] by (subst chain_loop.simps) (auto split: option.splits)
next
  case (Suc n)
  show ?case
  proof (cases "test ts")
    case None
    then show ?thesis by (subst chain_loop.simps) simp
  next
    case (Some s)
    then have t: "length (tl ts) < length ts" using assms(2) [of ts] by (simp add: pred_less)
    have step: "chain_loop (Suc n) k test operand left ts =
        bindE (operand (tl ts)) (\<lambda>(right, ts). chain_loop n k test operand (make k s [left, right]) ts)"
      using Some by (subst chain_loop.simps) simp
    have "settles ts (chain_loop n k test operand (make k s [left, right]) r)" if "length r < length (tl ts)" for right r
      using Suc.prems t that by (intro settles_mono [OF Suc.IH]) linarith+
    then show ?thesis unfolding step using t by (intro settles_bind [OF assms(1)]) auto
  qed
qed

lemma chain_progress:
  assumes "progress operand" "\<And>ts. test ts \<noteq> None \<Longrightarrow> ts \<noteq> []"
  shows "progress (chain k test operand)"
  unfolding chain_def [abs_def] using assms by (auto intro!: progress_bind chain_loop_settles)

lemma on_Nil [simp]: "on_ops ops [] = None" "on_keyword w [] = None"
  by (simp_all add: on_ops_def on_keyword_def)

lemma on_ops_nonempty: "on_ops ops ts \<noteq> None \<Longrightarrow> ts \<noteq> []"
  by (auto simp: on_ops_def split: if_splits)

lemma on_keyword_nonempty: "on_keyword w ts \<noteq> None \<Longrightarrow> ts \<noteq> []"
  by (auto simp: on_keyword_def split: if_splits)

lemma concatenation_progress: "progress u \<Longrightarrow> progress (concatenation u)"
  unfolding concatenation_def additive_def multiplicative_def
  by (intro chain_progress on_ops_nonempty) auto

lemma comparison_progress:
  assumes "progress u"
  shows "progress (comparison u)"
proof -
  note c = concatenation_progress [OF assms]
  have "settles ts (case on_ops comparison_ops ts of None \<Rightarrow> Inr (left, ts)
     | Some s \<Rightarrow> bindE (concatenation u (tl ts)) (\<lambda>(right, ts).
         if on_ops comparison_ops ts \<noteq> None then refuse ''comparisons do not chain''
         else Inr (make Comparison (normalized s) [left, right], ts)))" for left ts
    by (auto split: option.splits intro!: settles_bind [OF c])
  then show ?thesis unfolding comparison_def [abs_def] by (auto intro!: progress_bind [OF c])
qed

lemma null_loop_settles: "length ts \<le> n \<Longrightarrow> settles ts (null_loop n node ts)"
proof (induction n arbitrary: node ts)
  case 0
  then show ?case by (subst null_loop.simps) auto
next
  case (Suc n)
  have "settles ts (null_loop n m r)" if "length r < length ts" for m r
    using Suc.prems that by (intro settles_mono [OF Suc.IH]) linarith+
  then have next_one: "settles ts (null_loop n m (tl ts))" "settles ts (null_loop n m (tl (tl ts)))"
    "settles ts (null_loop n m (tl (tl (tl ts))))" if "ts \<noteq> []" for m
    using that by simp_all
  show ?case
  proof (cases "ts = []")
    case False
    then show ?thesis by (subst null_loop.simps) (simp add: Let_def next_one)
  qed (subst null_loop.simps, simp)
qed

lemma null_test_progress: "progress u \<Longrightarrow> progress (null_test u)"
  unfolding null_test_def [abs_def] by (auto intro!: progress_bind comparison_progress null_loop_settles)

lemma modifiers_settles: "length ts \<le> n \<Longrightarrow> settles ts (modifiers n ts)"
proof (induction n arbitrary: ts)
  case 0
  then show ?case by (subst modifiers.simps) auto
next
  case (Suc n)
  have rest: "settles ts (modifiers n r)" if "length r < length (tl ts)" for r
    using Suc.prems that by (intro settles_mono [OF Suc.IH]) auto
  have "settles ts (bindE (expect '','' (tl ts)) (\<lambda>(_, r). modifiers n r))"
    using rest by (intro settles_bind [OF expect_progress]) auto
  then show ?case by (subst modifiers.simps) (simp add: Let_def)
qed

lemma type_name_progress: "progress type_name"
proof -
  have mods: "settles r (if is_op ''('' r then modifiers (length r) (tl r) else Inr ((), r))" for r
    using settles_mono [OF modifiers_settles [of "tl r" "length r"], of r] by auto
  have named: "settles ts (bindE (if is_op ''('' r then modifiers (length r) (tl r) else Inr ((), r)) (\<lambda>(_, q). Inr (f, q)))"
    if "length r \<le> length ts" for r ts f
    using mods [of r] that
    by (cases "if is_op ''('' r then modifiers (length r) (tl r) else Inr ((), r)") (auto simp: settles_def simp del: if_split_asm)
  have "settles (tl ts) (type_name ts)" if "t_kind (peek ts) = Ident" for ts
    using that unfolding type_name_def Let_def by (simp only: simp_thms if_False) (rule named, auto)
  then have "(\<exists>m. type_name ts = refuse m) \<or> ts \<noteq> [] \<and> settles (tl ts) (type_name ts)" for ts
    by (cases "t_kind (peek ts) = Ident") (auto simp: type_name_def)
  then show ?thesis by (rule progress_tl)
qed

lemma argument_loop_settles:
  assumes "progress e"
  shows "length ts \<le> n \<Longrightarrow> settles ts (argument_loop n e args ts)"
proof (induction n arbitrary: args ts)
  case 0
  then show ?case using progressD [OF assms, of "[]"]
    by (cases "e []") (subst argument_loop.simps, auto simp: settles_def)+
next
  case (Suc n)
  have rest: "settles ts (argument_loop n e b r)" if "length r < length ts" for b r
    using Suc.prems that by (intro settles_mono [OF Suc.IH]) auto
  then have next_one: "settles ts (bindE (expect '','' r) (\<lambda>(_, r). argument_loop n e (args @ [a]) r))"
    if "length r < length ts" for a r
    using that by (intro settles_bind [OF expect_progress]) auto
  have last: "length (tl r) \<le> length ts" if "length r < length ts" for r :: "token list" using that by simp
  show ?case using next_one last
    by (subst argument_loop.simps) (intro settles_bind [OF assms], simp_all del: length_tl split: if_split)
qed

lemma arguments_progress:
  assumes "progress e"
  shows "progress (arguments e)"
  unfolding arguments_def [abs_def]
  by (rule progress_bind [OF expect_progress]) (auto intro: argument_loop_settles [OF assms])

lemma settles_call:
  assumes "progress p" "length us \<le> length ts"
  shows "settles ts (bindE (p us) (\<lambda>(x, r). Inr (f x, r)))"
  using assms(2) by (intro settles_bind [OF assms]) auto

lemma primary_word_progress:
  assumes "progress e"
  shows "settles (tl ts) (primary_word e ts)"
proof -
  note args = settles_call [OF arguments_progress [OF assms]]
  have cast: "settles (tl ts) (bindE (expect ''('' (tl ts)) (\<lambda>(_, ts).
           bindE (e ts) (\<lambda>(child, ts).
           if \<not> keyword ''as'' ts then refuse ''expected AS in CAST''
           else bindE (type_name (tl ts)) (\<lambda>(type, ts).
             bindE (expect '')'' ts) (\<lambda>(_, ts). Inr (make Cast type [child], ts))))))"
    by (intro settles_bind [OF expect_progress])
      (auto intro!: settles_bind [OF assms] settles_bind [OF type_name_progress] settles_bind [OF expect_progress])
  show ?thesis unfolding primary_word_def Let_def using cast by (auto intro: args)
qed

lemma primary_progress:
  assumes "progress e"
  shows "progress (primary e)"
proof (rule progress_tl)
  fix ts
  note args = settles_call [OF arguments_progress [OF assms]]
  have paren: "settles (tl ts) (bindE (e (tl ts)) (\<lambda>(inner, ts). bindE (expect '')'' ts) (\<lambda>(_, ts). Inr (inner, ts))))"
    by (intro settles_bind [OF assms]) (auto intro!: settles_bind [OF expect_progress])
  show "(\<exists>m. primary e ts = refuse m) \<or> ts \<noteq> [] \<and> settles (tl ts) (primary e ts)"
  proof (cases "t_kind (peek ts) = End")
    case True
    then show ?thesis by (auto simp: primary_def is_op_def)
  next
    case False
    then have "ts \<noteq> []" by (rule kind_nonempty)
    moreover have "settles (tl ts) (primary e ts)"
      using paren args primary_word_progress [OF assms] by (auto simp: primary_def Let_def split: tok.splits)
    ultimately show ?thesis by blast
  qed
qed

lemma cast_loop_settles: "length ts \<le> n \<Longrightarrow> settles ts (cast_loop n node ts)"
proof (induction n arbitrary: node ts)
  case 0
  then show ?case by (subst cast_loop.simps) auto
next
  case (Suc n)
  have "settles ts (cast_loop n m r)" if "length r < length (tl ts)" for m r
    using Suc.prems that by (intro settles_mono [OF Suc.IH]) auto
  then have "settles ts (bindE (type_name (tl ts)) (\<lambda>(type, ts). cast_loop n (make Cast type [node]) ts))"
    by (intro settles_bind [OF type_name_progress]) auto
  then show ?case by (subst cast_loop.simps) simp
qed

lemma postfix_progress: "progress e \<Longrightarrow> progress (postfix e)"
  unfolding postfix_def [abs_def] by (rule progress_bind [OF primary_progress]) (auto intro: cast_loop_settles)

lemma progress_deep: "progress (\<lambda>ts. too_deep)"
  by (simp add: progress_def)

lemma progress_if:
  assumes "progress p" "\<And>ts. c ts \<Longrightarrow> ts \<noteq> [] \<and> settles (tl ts) (q ts)"
  shows "progress (\<lambda>ts. if c ts then q ts else p ts)"
proof (rule progressI)
  fix ts
  show "(if c ts then q ts else p ts) \<noteq> Inl OutOfFuel"
    using assms progressD(1) [OF assms(1)] by (auto simp: settles_def)
  fix x r assume "(if c ts then q ts else p ts) = Inr (x, r)"
  then show "length r < length ts"
    using assms(2) [of ts] progressD(2) [OF assms(1), of ts x r] pred_less [of ts]
    by (cases "c ts") (auto simp: settles_def simp del: length_tl)
qed

lemma expression_progress: "progress (expression n)" "progress (negation n)" "progress (unary n)"
proof (induction n)
  case 0
  show "progress (expression 0)" "progress (negation 0)" "progress (unary 0)" by (simp_all add: progress_def)
next
  case (Suc n)
  note step = settles_call [OF _ order.refl]
  have "expression (Suc n) = chain Conjunction (on_keyword ''or'') (chain Conjunction (on_keyword ''and'') (negation n))"
    by (rule ext) simp
  then show "progress (expression (Suc n))" using Suc by (auto intro!: chain_progress dest: on_keyword_nonempty)
  have "negation (Suc n) = (\<lambda>ts. if keyword ''not'' ts
      then bindE (negation n (tl ts)) (\<lambda>(m, ts). Inr (make Not ''not'' [m], ts)) else null_test (unary n) ts)"
    by (rule ext) simp
  then show "progress (negation (Suc n))" using Suc by (auto intro!: progress_if null_test_progress step)
  have "unary (Suc n) = (\<lambda>ts. if is_op ''-'' ts then bindE (unary n (tl ts)) (\<lambda>(m, ts). Inr (negate m, ts))
      else if is_op ''+'' ts then bindE (unary n (tl ts)) (\<lambda>(m, ts). Inr (make Function ''+'' [m], ts))
      else postfix (expression n) ts)"
    by (rule ext) simp
  then show "progress (unary (Suc n))" using Suc by (auto intro!: progress_if postfix_progress step)
qed

lemma parse_tokens_total: "parse_tokens ts \<noteq> Inl OutOfFuel"
  using progressD(1) [OF expression_progress(1), of kMaxSqlDepth ts]
  by (cases "expression kMaxSqlDepth ts") (auto simp: parse_tokens_def split: if_split_asm)

lemma parse_sql_total: "parse_sql sql \<noteq> Inl OutOfFuel"
  by (simp add: parse_sql_def parse_tokens_total split: sum.splits)

end
