(* ===== verification/Sql_Cycles.thy ===== *)
theory Sql_Cycles
  imports Sql_Check
begin

section \<open>Generated columns and cycles\<close>

text \<open>
  The depth-first search of \<^verbatim>\<open>validate_generated_columns\<close> accepts exactly the acyclic dependency
  graphs, and the bound on its recursion is never reached.
\<close>

definition edges :: "nat list list \<Rightarrow> (nat \<times> nat) set" where
  "edges deps = {(i, j). i < length deps \<and> j \<in> set (deps ! i)}"

definition cyclic :: "nat list list \<Rightarrow> bool" where
  "cyclic deps \<longleftrightarrow> (\<exists>i. (i, i) \<in> (edges deps)\<^sup>+)"

definition in_range :: "nat list list \<Rightarrow> bool" where
  "in_range deps \<longleftrightarrow> (\<forall>cs \<in> set deps. \<forall>c \<in> set cs. c < length deps)"

definition white :: "nat list list \<Rightarrow> (nat \<Rightarrow> nat) \<Rightarrow> nat set" where
  "white deps marks = {i. i < length deps \<and> marks i \<noteq> 1 \<and> marks i \<noteq> 2}"

text \<open>What is done is closed under dependencies and on no cycle.\<close>

definition done_ok :: "nat list list \<Rightarrow> (nat \<Rightarrow> nat) \<Rightarrow> bool" where
  "done_ok deps marks \<longleftrightarrow>
     (\<forall>i j. marks i = 2 \<longrightarrow> (i, j) \<in> edges deps \<longrightarrow> marks j = 2) \<and> (\<forall>i. marks i = 2 \<longrightarrow> (i, i) \<notin> (edges deps)\<^sup>+)"

definition advanced :: "nat list list \<Rightarrow> (nat \<Rightarrow> nat) \<Rightarrow> (nat \<Rightarrow> nat) \<Rightarrow> bool" where
  "advanced deps marks marks' \<longleftrightarrow>
     done_ok deps marks' \<and> (\<forall>i. marks i = 2 \<longrightarrow> marks' i = 2) \<and> (\<forall>i. marks' i = 1 \<longleftrightarrow> marks i = 1)"

fun outcome :: "nat list list \<Rightarrow> (nat \<Rightarrow> nat) \<Rightarrow> nat set \<Rightarrow> sql_error + (nat \<Rightarrow> nat) \<Rightarrow> bool" where
  "outcome deps marks goals (Inl OutOfFuel) \<longleftrightarrow> False"
| "outcome deps marks goals (Inl (Refused m)) \<longleftrightarrow> cyclic deps"
| "outcome deps marks goals (Inr marks') \<longleftrightarrow> advanced deps marks marks' \<and> (\<forall>c \<in> goals. marks' c = 2)"

definition reaches :: "nat list list \<Rightarrow> (nat \<Rightarrow> nat) \<Rightarrow> nat \<Rightarrow> bool" where
  "reaches deps marks c \<longleftrightarrow> c < length deps \<and> (\<forall>g. marks g = 1 \<longrightarrow> (g, c) \<in> (edges deps)\<^sup>+)"

lemma advanced_refl: "done_ok deps marks \<Longrightarrow> advanced deps marks marks"
  by (simp add: advanced_def)

lemma advanced_trans: "advanced deps a b \<Longrightarrow> advanced deps b c \<Longrightarrow> advanced deps a c"
  by (simp add: advanced_def)

lemma advanced_white: "advanced deps marks marks' \<Longrightarrow> white deps marks' \<subseteq> white deps marks"
  by (auto simp: advanced_def white_def)

lemma finite_white [simp]: "finite (white deps marks)"
  by (simp add: white_def)

lemma white_mark:
  assumes "c < length deps" "marks c \<noteq> 1" "marks c \<noteq> 2"
  shows "card (white deps (marks(c := 1))) < card (white deps marks)"
proof -
  have "white deps (marks(c := 1)) = white deps marks - {c}" "c \<in> white deps marks"
    using assms by (auto simp: white_def)
  then show ?thesis by (metis card_Diff1_less finite_white)
qed

lemma done_path:
  assumes "done_ok deps marks" "(i, j) \<in> (edges deps)\<^sup>+" "marks i = 2"
  shows "marks j = 2"
  using assms(2,1,3) by (induction rule: trancl_induct) (auto simp: done_ok_def)

text \<open>A column whose dependencies are done while it is being visited is done itself.\<close>

lemma column_done:
  assumes m: "advanced deps (marks(c := 1)) m" and succ: "\<forall>d \<in> set (deps ! c). m d = 2"
    and c: "marks c \<noteq> 1" "marks c \<noteq> 2"
  shows "advanced deps marks (m(c := 2))"
proof -
  have ok: "done_ok deps m" and grey: "m c = 1" using m by (auto simp: advanced_def)
  have next_done: "m j = 2" if "(c, j) \<in> edges deps" for j using that succ by (auto simp: edges_def)
  have "(c, c) \<notin> (edges deps)\<^sup>+"
  proof
    assume "(c, c) \<in> (edges deps)\<^sup>+"
    then obtain j where "(c, j) \<in> edges deps" "j = c \<or> (j, c) \<in> (edges deps)\<^sup>+" by (metis tranclD rtranclD)
    then have "m c = 2" using next_done done_path [OF ok] by auto
    then show False using grey by simp
  qed
  then have "done_ok deps (m(c := 2))" using ok next_done by (auto simp: done_ok_def)
  then show ?thesis using m c by (auto simp: advanced_def)
qed

lemma result_cases:
  obtains "r = Inl OutOfFuel" | m where "r = Inl (Refused m)" | x where "r = Inr x"
  by (cases r; cases "projl r") auto

lemma visit_outcome:
  "in_range deps \<Longrightarrow> done_ok deps marks \<Longrightarrow> card (white deps marks) < n \<Longrightarrow> reaches deps marks column \<Longrightarrow>
     outcome deps marks {column} (visit n columns deps column marks)"
  "in_range deps \<Longrightarrow> done_ok deps marks \<Longrightarrow> card (white deps marks) < n \<Longrightarrow> \<forall>c \<in> set cs. reaches deps marks c \<Longrightarrow>
     outcome deps marks (set cs) (visit_each n columns deps cs marks)"
proof (induction n columns deps column marks and n columns deps cs marks rule: visit_visit_each.induct)
  case (2 n columns deps column marks)
  show ?case
  proof (cases "marks column = 2 \<or> marks column = 1")
    case True
    then show ?thesis using "2.prems" by (auto simp: advanced_refl refuse_def reaches_def cyclic_def)
  next
    case False
    let ?m = "marks(column := 1)"
    have col: "column < length deps" using "2.prems" by (simp add: reaches_def)
    have "card (white deps ?m) < n" using "2.prems"(3) white_mark [OF col, of marks] False by linarith
    moreover have "done_ok deps ?m" using "2.prems"(2) False by (auto simp: done_ok_def)
    moreover have "reaches deps ?m c" if "c \<in> set (deps ! column)" for c
    proof -
      have "(column, c) \<in> edges deps" "c < length deps" using that col "2.prems"(1) by (auto simp: edges_def in_range_def)
      then show ?thesis using "2.prems"(4) by (auto simp: reaches_def intro: trancl_into_trancl)
    qed
    ultimately have "outcome deps ?m (set (deps ! column)) (visit_each n columns deps (deps ! column) ?m)"
      using "2.IH" "2.prems"(1) False by blast
    then show ?thesis using False column_done [of deps marks column]
      by (cases "visit_each n columns deps (deps ! column) ?m" rule: result_cases) auto
  qed
next
  case (4 n columns deps c cs marks)
  have head: "outcome deps marks {c} (visit n columns deps c marks)" using "4.IH"(1) "4.prems" by simp
  show ?case
  proof (cases "visit n columns deps c marks" rule: result_cases)
    case (3 m)
    then have m: "advanced deps marks m" "m c = 2" using head by auto
    then have "card (white deps m) < n"
      using card_mono [OF finite_white advanced_white [OF m(1)]] "4.prems"(3) by linarith
    moreover have "\<forall>d \<in> set cs. reaches deps m d" "done_ok deps m"
      using "4.prems"(4) m(1) by (auto simp: reaches_def advanced_def)
    ultimately have rest: "outcome deps m (set cs) (visit_each n columns deps cs m)" using "4.IH"(2) [OF 3] "4.prems"(1) by simp
    have kept: "r c = 2" if "advanced deps m r" for r using that m(2) by (simp add: advanced_def)
    show ?thesis using rest 3 kept advanced_trans [OF m(1)]
      by (cases "visit_each n columns deps cs m" rule: result_cases) auto
  qed (use head in auto)
qed (auto simp: advanced_refl)

lemma resolve_loop_range:
  "resolve_loop name what fs i index = Inr (Some k) \<Longrightarrow> index = Some k \<or> i \<le> k \<and> k < i + length fs"
  by (induction fs arbitrary: i index) (fastforce simp: refuse_def split: if_splits)+

lemma resolve_range: "resolve columns name what = Inr k \<Longrightarrow> k < length columns"
  using resolve_loop_range [of name what columns 0 None]
  by (auto simp: resolve_def refuse_def split: option.splits if_splits)

lemma prefixed_Inr [simp]: "prefixed p r = Inr x \<longleftrightarrow> r = Inr x"
  by (cases r rule: result_cases) (auto simp: prefixed_def refuse_def)

lemma dependencies_range:
  assumes "dependencies show_type columns generated_sql = Inr deps"
  shows "in_range deps" "length deps = length columns"
proof -
  have row: "\<forall>c \<in> set cs. c < length columns"
    if g: "generated_dependencies show_type columns f sql = Inr cs" for f sql cs
  proof -
    obtain names indices where i: "mapE (dependency show_type columns) names = Inr indices" and cs: "cs = remdups_adj (sort indices)"
      using g by (auto simp: generated_dependencies_def refuse_def split: if_splits)
    have "k < length columns" if "dependency show_type columns n = Inr k" for n k
      using that by (auto simp: dependency_def refuse_def dest: resolve_range split: if_splits)
    then have "\<forall>k \<in> set indices. k < length columns"
      using mapE_Inr_set [OF i] by blast
    then show ?thesis using cs by simp
  qed
  have "length deps = length columns" using mapE_Inr_length [OF assms [unfolded dependencies_def]] by simp
  moreover have "\<forall>c \<in> set cs. c < length columns" if "cs \<in> set deps" for cs
    using mapE_Inr_set [OF assms [unfolded dependencies_def] that] row by (auto split: if_split_asm)
  ultimately show "in_range deps" "length deps = length columns" by (auto simp: in_range_def)
qed

lemma find_cycle_outcome:
  assumes "in_range deps" "length deps = length columns"
  shows "outcome deps (\<lambda>_. 0) {i. i < length deps \<and> deps ! i \<noteq> []} (find_cycle columns deps)"
proof -
  have "card (white deps (\<lambda>_. 0)) \<le> length columns"
    using assms(2) by (simp add: white_def)
  then have "outcome deps (\<lambda>_. 0) (set (filter (\<lambda>i. deps ! i \<noteq> []) [0..<length columns])) (find_cycle columns deps)"
    unfolding find_cycle_def using assms by (intro visit_outcome) (auto simp: done_ok_def reaches_def)
  moreover have "set (filter (\<lambda>i. deps ! i \<noteq> []) [0..<length columns]) = {i. i < length deps \<and> deps ! i \<noteq> []}"
    using assms(2) by auto
  ultimately show ?thesis by simp
qed

lemma find_cycle_iff:
  assumes "in_range deps" "length deps = length columns"
  shows "find_cycle columns deps \<noteq> Inl OutOfFuel \<and> ((\<exists>m. find_cycle columns deps = Inr m) \<longleftrightarrow> \<not> cyclic deps)"
proof -
  note out = find_cycle_outcome [OF assms]
  have "\<not> cyclic deps" if r: "find_cycle columns deps = Inr m" for m
  proof
    assume "cyclic deps"
    then obtain i where i: "(i, i) \<in> (edges deps)\<^sup>+" by (auto simp: cyclic_def)
    then obtain j where "(i, j) \<in> edges deps" by (meson tranclD)
    then have "m i = 2" using out r by (auto simp: edges_def)
    then show False using out r i by (auto simp: advanced_def done_ok_def)
  qed
  moreover have "cyclic deps" if "find_cycle columns deps = Inl (Refused m)" for m using out that by simp
  ultimately show ?thesis using out by (cases "find_cycle columns deps" rule: result_cases) auto
qed

end
