(* ===== verification/Sql_Properties.thy ===== *)
theory Sql_Properties
  imports Sql_Total Sql_Cycles
begin

section \<open>What the SQL checks guarantee\<close>

text \<open>
  The shape of the trees the parser returns, what an accepted CHECK and accepted generated columns
  are, how integer literals are classified, and that a quoted name is read back whatever it holds.
\<close>

subsection \<open>The shape of a parsed expression\<close>

fun node_shape :: "node_kind \<Rightarrow> literal \<Rightarrow> string \<Rightarrow> node list \<Rightarrow> bool" where
  "node_shape Constant l s cs \<longleftrightarrow> cs = []"
| "node_shape Column l s cs \<longleftrightarrow> cs = []"
| "node_shape Cast l s cs \<longleftrightarrow> length cs = 1"
| "node_shape Comparison l s cs \<longleftrightarrow> length cs = 2 \<and> s \<in> {''='', ''<>'', ''<'', ''>'', ''<='', ''>=''}"
| "node_shape Conjunction l s cs \<longleftrightarrow> length cs = 2 \<and> s \<in> {''and'', ''or''}"
| "node_shape Not l s cs \<longleftrightarrow> length cs = 1"
| "node_shape IsNull l s cs \<longleftrightarrow> length cs = 1 \<and> s \<in> {''is null'', ''is not null''}"
| "node_shape Coalesce l s cs \<longleftrightarrow> True"
| "node_shape Function l s cs \<longleftrightarrow> True"

fun wf_node :: "node \<Rightarrow> bool" where
  "wf_node (Node k l s cs) \<longleftrightarrow> node_shape k l s cs \<and> (\<forall>c \<in> set cs. wf_node c)"

definition yields :: "('a \<Rightarrow> bool) \<Rightarrow> sql_error + 'a \<times> token list \<Rightarrow> bool" where
  "yields P r \<longleftrightarrow> (\<forall>x rest. r = Inr (x, rest) \<longrightarrow> P x)"

abbreviation gives_nodes :: "node sql_parse \<Rightarrow> bool" where
  "gives_nodes p \<equiv> \<forall>ts. yields wf_node (p ts)"

lemma yields_refuse [simp]: "yields P (refuse m)" "yields P too_deep" "yields P (Inl e)"
  by (simp_all add: yields_def)

lemma yields_Inr [simp]: "yields P (Inr (x, r)) \<longleftrightarrow> P x"
  by (simp add: yields_def)

lemma yields_bind: "yields P m \<Longrightarrow> (\<And>x r. P x \<Longrightarrow> yields Q (f (x, r))) \<Longrightarrow> yields Q (bindE m f)"
  unfolding yields_def by (cases m) (auto, blast)

lemma yields_True [simp]: "yields (\<lambda>x. True) r"
  by (simp add: yields_def)

lemmas expect_next = yields_bind [OF yields_True, where m = "expect s ts" for s ts]
lemmas type_next = yields_bind [OF yields_True, where m = "type_name ts" for ts]

lemma chain_loop_yields:
  assumes "gives_nodes operand" "\<And>s ts x y. test ts = Some s \<Longrightarrow> node_shape k LNull s [x, y]"
  shows "wf_node left \<Longrightarrow> yields wf_node (chain_loop n k test operand left ts)"
proof (induction n arbitrary: left ts)
  case 0
  then show ?case by (subst chain_loop.simps) (auto split: option.splits)
next
  case (Suc n)
  have "yields wf_node (bindE (operand (tl ts)) (\<lambda>(right, ts). chain_loop n k test operand (make k s [left, right]) ts))"
    if "test ts = Some s" for s
    by (rule yields_bind [OF assms(1) [rule_format]]) (use Suc assms(2) [OF that] in \<open>auto simp: make_def\<close>)
  then show ?case using Suc.prems by (subst chain_loop.simps) (auto split: option.splits)
qed

lemma chain_yields:
  assumes "gives_nodes operand" "\<And>s ts x y. test ts = Some s \<Longrightarrow> node_shape k LNull s [x, y]"
  shows "gives_nodes (chain k test operand)"
  using assms by (auto simp: chain_def intro!: yields_bind [OF assms(1) [rule_format]] chain_loop_yields)

lemma concatenation_yields: "gives_nodes u \<Longrightarrow> gives_nodes (concatenation u)"
  unfolding concatenation_def additive_def multiplicative_def by (intro chain_yields) simp_all

lemma comparison_yields:
  assumes "gives_nodes u"
  shows "gives_nodes (comparison u)"
proof
  fix ts
  note c = concatenation_yields [OF assms, rule_format]
  have shape: "node_shape Comparison LNull (normalized s) [x, y]" if "on_ops comparison_ops ts = Some s" for s ts x y
    using that by (auto simp: on_ops_def comparison_ops_def is_op_def normalized_def split: if_splits)
  show "yields wf_node (comparison u ts)" unfolding comparison_def
    by (rule yields_bind [OF c]) (auto split: option.splits intro!: yields_bind [OF c] shape simp: make_def simp del: node_shape.simps)
qed

lemma null_loop_yields: "wf_node node \<Longrightarrow> yields wf_node (null_loop n node ts)"
proof (induction n arbitrary: node ts)
  case 0
  then show ?case by (subst null_loop.simps) auto
next
  case (Suc n)
  then show ?case by (subst null_loop.simps) (auto simp: Let_def make_def)
qed

lemma null_test_yields: "gives_nodes u \<Longrightarrow> gives_nodes (null_test u)"
  by (auto simp: null_test_def intro!: yields_bind [OF comparison_yields [rule_format]] null_loop_yields)

lemma argument_loop_yields:
  assumes "gives_nodes e"
  shows "\<forall>a \<in> set args. wf_node a \<Longrightarrow> yields (\<lambda>as. \<forall>a \<in> set as. wf_node a) (argument_loop n e args ts)"
proof (induction n arbitrary: args ts)
  case 0
  then show ?case by (subst argument_loop.simps) (auto intro!: yields_bind [OF assms [rule_format]] expect_next)
next
  case (Suc n)
  then show ?case by (subst argument_loop.simps) (auto intro!: yields_bind [OF assms [rule_format]] expect_next)
qed

lemma arguments_yields: "gives_nodes e \<Longrightarrow> yields (\<lambda>as. \<forall>a \<in> set as. wf_node a) (arguments e ts)"
  by (auto simp: arguments_def intro!: expect_next argument_loop_yields)

lemma primary_yields:
  assumes "gives_nodes e"
  shows "gives_nodes (primary e)"
proof
  fix ts
  note e = yields_bind [OF assms [rule_format]] yields_bind [OF arguments_yields [OF assms]]
  have "yields wf_node (primary_word e ts)"
    unfolding primary_word_def Let_def by (auto simp: make_def intro!: e expect_next type_next)
  then show "yields wf_node (primary e ts)"
    unfolding primary_def Let_def by (auto simp: make_def split: tok.splits intro!: e expect_next)
qed

lemma cast_loop_yields: "wf_node node \<Longrightarrow> yields wf_node (cast_loop n node ts)"
proof (induction n arbitrary: node ts)
  case 0
  then show ?case by (subst cast_loop.simps) auto
next
  case (Suc n)
  then show ?case by (subst cast_loop.simps) (auto simp: make_def intro!: type_next)
qed

lemma postfix_yields: "gives_nodes e \<Longrightarrow> gives_nodes (postfix e)"
  by (auto simp: postfix_def intro!: yields_bind [OF primary_yields [rule_format]] cast_loop_yields)

lemma expression_yields: "gives_nodes (expression n)" "gives_nodes (negation n)" "gives_nodes (unary n)"
proof (induction n)
  case (Suc n)
  have "expression (Suc n) = chain Conjunction (on_keyword ''or'') (chain Conjunction (on_keyword ''and'') (negation n))"
    by (rule ext) simp
  then show "gives_nodes (expression (Suc n))"
    using Suc by (auto simp: on_keyword_def split: if_splits intro!: chain_yields [rule_format])
  show "gives_nodes (negation (Suc n))"
    using Suc null_test_yields [of "unary n"] by (auto simp: make_def intro!: yields_bind [where P = wf_node and m = "negation n ts" for ts])
  have "wf_node (negate m)" if "wf_node m" for m
    using that by (cases m) (auto simp: negate_def make_def numeric_def Let_def)
  then show "gives_nodes (unary (Suc n))"
    using Suc postfix_yields [of "expression n"] by (auto simp: make_def intro!: yields_bind [where P = wf_node and m = "unary n ts" for ts])
qed simp_all

lemma parse_sql_shape: "parse_sql sql = Inr n \<Longrightarrow> wf_node n"
  using expression_yields(1) [of kMaxSqlDepth]
  by (auto simp: parse_sql_def parse_tokens_def refuse_def yields_def split: if_splits sum.splits)

subsection \<open>References\<close>

fun column_names :: "node \<Rightarrow> string set" where
  "column_names (Node k l s cs) = (if k = Column then {s} else {}) \<union> \<Union> (set (map column_names cs))"

definition named :: "cfield list \<Rightarrow> string \<Rightarrow> nat \<Rightarrow> bool" where
  "named columns name i \<longleftrightarrow> i < length columns \<and> lower (c_name (columns ! i)) = lower name"

lemma resolve_loop_Inr:
  "resolve_loop name what fs i index = Inr r \<Longrightarrow>
     r = index \<and> (\<forall>j. \<not> named fs name j) \<or>
     index = None \<and> (\<exists>k. r = Some (i + k) \<and> named fs name k \<and> (\<forall>j. j \<noteq> k \<longrightarrow> \<not> named fs name j))"
proof (induction fs arbitrary: i index)
  case (Cons f fs)
  have cons: "named (f # fs) name j \<longleftrightarrow> (case j of 0 \<Rightarrow> lower (c_name f) = lower name | Suc k \<Rightarrow> named fs name k)" for j
    by (cases j) (auto simp: named_def)
  show ?case
  proof (cases "lower (c_name f) = lower name")
    case True
    then have "resolve_loop name what fs (i + 1) (Some i) = Inr r" "index = None"
      using Cons.prems by (auto simp: refuse_def split: if_splits)
    then show ?thesis using Cons.IH [of "i + 1" "Some i"] True by (auto simp: cons split: nat.splits intro!: exI [of _ 0])
  next
    case False
    then have "resolve_loop name what fs (i + 1) index = Inr r" using Cons.prems by simp
    from Cons.IH [OF this] consider "r = index" "\<forall>j. \<not> named fs name j"
      | k where "index = None" "r = Some (i + 1 + k)" "named fs name k" "\<forall>j. j \<noteq> k \<longrightarrow> \<not> named fs name j"
      by auto
    then show ?thesis
    proof cases
      case 1
      have "\<not> named (f # fs) name j" for j using 1(2) False by (cases j) (simp_all add: cons)
      then show ?thesis using 1(1) by blast
    next
      case 2
      have "\<not> named (f # fs) name j" if "j \<noteq> Suc k" for j using that 2(4) False by (cases j) (simp_all add: cons)
      moreover have "named (f # fs) name (Suc k)" using 2(3) by (simp add: cons)
      ultimately show ?thesis using 2(1,2) by auto
    qed
  qed
qed (simp add: named_def)

lemma resolve_Inr:
  assumes "resolve columns name what = Inr i"
  shows "named columns name i \<and> (\<forall>j. named columns name j \<longrightarrow> j = i) \<and> \<not> is_row_id (columns ! i)"
  using assms resolve_loop_Inr [of name what columns 0 None "Some i"]
  by (auto simp: resolve_def refuse_def split: option.splits if_splits)

lemma generated_refs:
  "generated_node n depth st = Inr st' \<Longrightarrow> set (snd st') = set (snd st) \<union> lower ` column_names n"
  "generated_children ns depth st = Inr st' \<Longrightarrow> set (snd st') = set (snd st) \<union> lower ` \<Union> (set (map column_names ns))"
proof (induction n depth st and ns depth st arbitrary: st' and st' rule: generated_node_generated_children.induct)
  case (1 k l s cs depth nodes refs)
  obtain here where h: "generated_here (Node k l s cs) = Inr here"
    and c: "generated_children cs (depth + 1) (nodes + 1, refs @ here) = Inr st'"
    and ok: "\<not> (64 < depth \<or> 4096 < nodes + 1)"
    using "1.prems" by (auto simp: refuse_def split: if_splits)
  have "set here = (if k = Column then {lower s} else {})"
    using h by (cases k) (auto simp: generated_here_def refuse_def split: if_splits)
  then show ?case using "1.IH" [OF ok h c] by (auto simp: image_Un)
next
  case (3 c cs depth state)
  then obtain m where "generated_node c depth state = Inr m" "generated_children cs depth m = Inr st'" by auto
  then show ?case using "3.IH" by (auto simp: image_Un)
qed auto

subsection \<open>Accepted generated columns\<close>

definition depends :: "cfield list \<Rightarrow> string list \<Rightarrow> (nat \<times> nat) set" where
  "depends columns generated_sql =
     {(i, j). i < length columns \<and> column_sql generated_sql i \<noteq> [] \<and>
        (\<exists>n name. parse_sql (column_sql generated_sql i) = Inr n \<and> name \<in> column_names n \<and> named columns name j)}"

definition generated_ok :: "cfield list \<Rightarrow> string \<Rightarrow> cfield \<Rightarrow> bool" where
  "generated_ok columns sql f \<longleftrightarrow> c_nullable f \<and> \<not> has_extension_name f \<and> c_type f \<in> set generated_types \<and>
     (\<exists>n. parse_sql sql = Inr n \<and> (\<forall>name \<in> column_names n. \<exists>!j. named columns name j) \<and>
       (\<forall>name \<in> column_names n. \<forall>j. named columns name j \<longrightarrow> \<not> is_row_id (columns ! j) \<and> generated_operand_type (columns ! j)))"

lemma lower_named [simp]: "named columns (lower name) j = named columns name j"
  by (simp add: named_def)

lemma mapE_each: "mapE f xs = Inr ys \<Longrightarrow> x \<in> set xs \<Longrightarrow> \<exists>y \<in> set ys. f x = Inr y"
  by (induction xs arbitrary: ys) auto

lemma generated_dependencies_Inr:
  assumes "generated_dependencies show_type columns f sql = Inr deps"
  shows "generated_ok columns sql f"
    and "\<exists>n. parse_sql sql = Inr n \<and> (\<forall>name \<in> column_names n. \<forall>j. named columns name j \<longrightarrow> j \<in> set deps)"
proof -
  obtain n count refs indices where n: "parse_sql sql = Inr n" and r: "generated_node n 0 (0, []) = Inr (count, refs)"
    and i: "mapE (dependency show_type columns) (remdups_adj (sort_strings refs)) = Inr indices"
    and deps: "deps = remdups_adj (sort indices)"
    and f: "c_nullable f" "\<not> has_extension_name f" "c_type f \<in> set generated_types"
    using assms unfolding generated_dependencies_def by (auto simp: refuse_def split: if_split_asm)
  have refs: "set (remdups_adj (sort_strings refs)) = lower ` column_names n" using generated_refs(1) [OF r] by simp
  have each: "\<exists>k \<in> set deps. named columns name k \<and> (\<forall>j. named columns name j \<longrightarrow> j = k) \<and> \<not> is_row_id (columns ! k) \<and>
      generated_operand_type (columns ! k)" if name: "name \<in> column_names n" for name
  proof -
    obtain k where k: "k \<in> set indices" "dependency show_type columns (lower name) = Inr k"
      using mapE_each [OF i, of "lower name"] refs name by auto
    then have "resolve columns (lower name) ''generated expression'' = Inr k" "generated_operand_type (columns ! k)"
      by (auto simp: dependency_def refuse_def split: if_splits)
    then show ?thesis using resolve_Inr [of columns "lower name"] k(1) deps by (intro bexI [of _ k]) auto
  qed
  show "generated_ok columns sql f"
    unfolding generated_ok_def using f n each by (metis (no_types, lifting))
  show "\<exists>n. parse_sql sql = Inr n \<and> (\<forall>name \<in> column_names n. \<forall>j. named columns name j \<longrightarrow> j \<in> set deps)"
    using n each by metis
qed

lemma dependencies_Inr:
  assumes "dependencies show_type columns generated_sql = Inr deps" "i < length columns"
  shows "if column_sql generated_sql i = [] then deps ! i = []
    else generated_dependencies show_type columns (columns ! i) (column_sql generated_sql i) = Inr (deps ! i)"
  using assms by (auto simp: dependencies_def mapE_eq_Inr list_all2_conv_all_nth)

lemma depends_edges:
  assumes "dependencies show_type columns generated_sql = Inr deps"
  shows "depends columns generated_sql \<subseteq> edges deps"
proof (clarify)
  fix i j assume "(i, j) \<in> depends columns generated_sql"
  then obtain n name where i: "i < length columns" "column_sql generated_sql i \<noteq> []"
    and n: "parse_sql (column_sql generated_sql i) = Inr n" "name \<in> column_names n" "named columns name j"
    by (auto simp: depends_def)
  have "generated_dependencies show_type columns (columns ! i) (column_sql generated_sql i) = Inr (deps ! i)"
    using dependencies_Inr [OF assms i(1)] i(2) by simp
  from generated_dependencies_Inr(2) [OF this] show "(i, j) \<in> edges deps"
    using n i(1) dependencies_range(2) [OF assms] by (auto simp: edges_def)
qed

lemma cyclic_acyclic: "cyclic deps \<longleftrightarrow> \<not> acyclic (edges deps)"
  by (auto simp: cyclic_def acyclic_def)

lemma no_sql: "list_all (\<lambda>sql. sql = []) generated_sql \<Longrightarrow> column_sql generated_sql i = []"
  by (auto simp: column_sql_def list_all_length)

lemma physical_only:
  assumes "dependencies show_type columns generated_sql = Inr deps" "list_all (\<lambda>sql. sql = []) generated_sql"
  shows "acyclic (edges deps)"
proof -
  have "deps ! i = []" if "i < length deps" for i
    using dependencies_Inr [OF assms(1), of i] dependencies_range(2) [OF assms(1)] no_sql [OF assms(2)] that by simp
  then have "edges deps = {}" by (auto simp: edges_def)
  then show ?thesis by (simp add: acyclic_def)
qed

lemma generated_total: "generated_dependencies show_type columns f sql \<noteq> Inl OutOfFuel"
proof -
  have here: "generated_here n \<noteq> Inl OutOfFuel" for n
    by (cases "n_kind n") (auto simp: generated_here_def)
  have node: "generated_node n depth st \<noteq> Inl OutOfFuel" "generated_children ns depth st \<noteq> Inl OutOfFuel" for n ns depth st
    by (induction n depth st and ns depth st rule: generated_node_generated_children.induct) (auto simp: bindE_eq_Inl here)
  have loop: "resolve_loop name what fs i index \<noteq> Inl OutOfFuel" for name what fs i index
    by (induction fs arbitrary: i index) auto
  have "dependency show_type columns name \<noteq> Inl OutOfFuel" for name
    by (auto simp: dependency_def resolve_def bindE_eq_Inl loop split: option.splits)
  then have "mapE (dependency show_type columns) names \<noteq> Inl OutOfFuel" for names
    by (induction names) (auto simp: bindE_eq_Inl)
  then show ?thesis by (auto simp: generated_dependencies_def bindE_eq_Inl parse_sql_total node)
qed

lemma dependencies_total: "dependencies show_type columns generated_sql \<noteq> Inl OutOfFuel"
proof -
  have "prefixed p r \<noteq> Inl OutOfFuel" if "r \<noteq> Inl OutOfFuel" for p and r :: "sql_error + nat list"
    using that by (cases r rule: result_cases) (auto simp: prefixed_def)
  then have "mapE (\<lambda>i. if column_sql generated_sql i = [] then Inr []
               else prefixed (''generated column '' @ between_quotes (c_name (columns ! i)) @ '': '')
                 (generated_dependencies show_type columns (columns ! i) (column_sql generated_sql i))) is \<noteq> Inl OutOfFuel" for "is"
    by (induction "is") (auto simp: bindE_eq_Inl generated_total)
  then show ?thesis by (simp add: dependencies_def)
qed

text \<open>
  C37: Generated columns are accepted exactly when every one of them can be read, a physical column is
  left to read from, and no generated column depends on itself through any chain: the depth-first
  search over the marks decides acyclicity.
\<close>

theorem generated_columns_iff:
  "validate_generated_columns show_type columns generated_sql = Inr () \<longleftrightarrow>
     (\<exists>deps. dependencies show_type columns generated_sql = Inr deps \<and> acyclic (edges deps) \<and>
       (list_all (\<lambda>sql. sql = []) generated_sql \<or>
        (\<exists>i < length columns. column_sql generated_sql i = [] \<and> \<not> is_row_id (columns ! i))))"
proof (cases "dependencies show_type columns generated_sql")
  case (Inl e)
  then show ?thesis by (simp add: validate_generated_columns_def)
next
  case (Inr deps)
  note found = find_cycle_iff [OF dependencies_range [OF Inr]]
  have "list_ex (\<lambda>i. column_sql generated_sql i = [] \<and> \<not> is_row_id (columns ! i)) [0..<length columns] \<longleftrightarrow>
      (\<exists>i < length columns. column_sql generated_sql i = [] \<and> \<not> is_row_id (columns ! i))"
    by (auto simp: list_ex_iff)
  then show ?thesis using Inr found physical_only [OF Inr]
    by (auto simp: validate_generated_columns_def cyclic_acyclic)
qed

text \<open>
  In accepted columns no generated column reads itself through any chain of references, whatever
  the letter case they are written in; each is nullable and of a plain type, its SQL parses, and
  every column it names is one column of the table, no row id, of a type it may read.
\<close>

theorem generated_columns_sound:
  assumes "validate_generated_columns show_type columns generated_sql = Inr ()"
  shows "acyclic (depends columns generated_sql) \<and>
    (\<forall>i < length columns. column_sql generated_sql i \<noteq> [] \<longrightarrow>
       generated_ok columns (column_sql generated_sql i) (columns ! i))"
proof -
  obtain deps where d: "dependencies show_type columns generated_sql = Inr deps"
    using assms by (auto simp: validate_generated_columns_def)
  have "acyclic (edges deps)"
    using assms d find_cycle_iff [OF dependencies_range [OF d]] physical_only [OF d]
    by (auto simp: validate_generated_columns_def cyclic_acyclic refuse_def split: if_split_asm)
  then have "acyclic (depends columns generated_sql)" using depends_edges [OF d] by (rule acyclic_subset)
  moreover have "generated_ok columns (column_sql generated_sql i) (columns ! i)"
    if "i < length columns" "column_sql generated_sql i \<noteq> []" for i
    using dependencies_Inr [OF d that(1)] that(2) generated_dependencies_Inr(1) by fastforce
  ultimately show ?thesis by blast
qed

text \<open>
  C39: The checks always answer. Whatever text and columns are given, no loop of the parser and no
  recursion of the cycle search exceeds its bound: the number of tokens left, and the number of columns.
\<close>

theorem sql_checks_total:
  "parse_sql sql \<noteq> Inl OutOfFuel \<and> validate_numeric_check show_type sql columns \<noteq> Inl OutOfFuel \<and>
   validate_generated_columns show_type columns generated_sql \<noteq> Inl OutOfFuel"
proof (intro conjI)
  show "parse_sql sql \<noteq> Inl OutOfFuel" by (rule parse_sql_total)
  have loop: "resolve_loop name what fs i index \<noteq> Inl OutOfFuel" for name what fs i index
    by (induction fs arbitrary: i index) auto
  have "check_operand show_type columns n \<noteq> Inl OutOfFuel" for n
    by (auto simp: check_operand_def resolve_def Let_def bindE_eq_Inl loop split: option.splits)
  then have "eachE (check_operand show_type columns) ns \<noteq> Inl OutOfFuel" for ns
    by (induction ns) (auto simp: bindE_eq_Inl)
  then show "validate_numeric_check show_type sql columns \<noteq> Inl OutOfFuel"
    by (auto simp: validate_numeric_check_def bindE_eq_Inl parse_sql_total)
  show "validate_generated_columns show_type columns generated_sql \<noteq> Inl OutOfFuel"
    using find_cycle_iff [OF dependencies_range] dependencies_total
    by (auto simp: validate_generated_columns_def bindE_eq_Inl)
qed

definition check_operand_ok :: "cfield list \<Rightarrow> node \<Rightarrow> bool" where
  "check_operand_ok columns n \<longleftrightarrow> numeric n \<or>
     n_kind n = Column \<and> (\<exists>j. named columns (n_text n) j \<and> (\<forall>k. named columns (n_text n) k \<longrightarrow> k = j) \<and>
       \<not> is_row_id (columns ! j) \<and> \<not> has_extension_name (columns ! j) \<and> c_type (columns ! j) \<in> set check_types)"

lemma check_operand_Inr:
  assumes "check_operand show_type columns n = Inr ()"
  shows "check_operand_ok columns n"
proof (cases "numeric n")
  case False
  then obtain i where "n_kind n = Column" "resolve columns (n_text n) ''CHECK'' = Inr i"
    "\<not> has_extension_name (columns ! i)" "c_type (columns ! i) \<in> set check_types"
    using assms by (auto simp: check_operand_def Let_def refuse_def split: if_split_asm)
  then show ?thesis unfolding check_operand_ok_def using resolve_Inr by blast
qed (simp add: check_operand_ok_def)

text \<open>
  An accepted CHECK is one comparison of two operands, each a numeric literal or a name that
  denotes, in any letter case, exactly one column of the table: a plain signed numeric column, no row id.
\<close>

theorem numeric_check_sound:
  assumes "validate_numeric_check show_type sql columns = Inr ()"
  shows "\<exists>l op a b. parse_sql sql = Inr (Node Comparison l op [a, b]) \<and>
    op \<in> {''='', ''<>'', ''<'', ''>'', ''<='', ''>=''} \<and> check_operand_ok columns a \<and> check_operand_ok columns b"
proof -
  obtain k l op cs where n: "parse_sql sql = Inr (Node k l op cs)" "k = Comparison"
    and cs: "\<forall>c \<in> set cs. check_operand show_type columns c = Inr ()"
  proof -
    obtain n where "parse_sql sql = Inr n" "n_kind n = Comparison" "\<forall>c \<in> set (n_children n). check_operand show_type columns c = Inr ()"
      using assms by (auto simp: validate_numeric_check_def refuse_def split: if_splits)
    then show thesis using that by (cases n) auto
  qed
  have "wf_node (Node Comparison l op cs)" using parse_sql_shape n by blast
  then obtain a b where "cs = [a, b]" "op \<in> {''='', ''<>'', ''<'', ''>'', ''<='', ''>=''}"
    by (auto simp: length_Suc_conv numeral_2_eq_2)
  then show ?thesis using n cs check_operand_Inr by auto
qed

subsection \<open>Examples\<close>

definition demo_columns :: "cfield list" where
  "demo_columns = [CField ''a'' CInt32 True None, CField ''b'' CInt64 True None]"

definition demo_sum :: node where
  "demo_sum = make Function ''+'' [make Column ''A'' [], Node Constant LInteger ''1'' []]"

lemma demo_sum_parses: "parse_sql ''A+1'' = Inr demo_sum"
proof -
  have "tokenize ''A+1'' = Inr [token Ident ''A'', token Op ''+'', token Number ''1'', token End []]" by code_simp
  moreover have "parse_tokens [token Ident ''A'', token Op ''+'', token Number ''1'', token End []] = Inr demo_sum" by code_simp
  ultimately show ?thesis by (simp add: parse_sql_def)
qed

lemma demo_accepted: "validate_generated_columns (\<lambda>_. '''') demo_columns ['''', ''A+1''] = Inr ()"
proof -
  have "generated_node demo_sum 0 (0, []) = Inr (3, [''a''])" by code_simp
  moreover have "mapE (dependency (\<lambda>_. '''') demo_columns) (remdups_adj (sort_strings [''a''])) = Inr [0]" by code_simp
  ultimately have "dependencies (\<lambda>_. '''') demo_columns ['''', ''A+1''] = Inr [[], [0]]"
    by (simp add: dependencies_def demo_columns_def column_sql_def generated_dependencies_def demo_sum_parses has_extension_name_def
        has_key_def generated_types_def prefixed_def)
  moreover have "acyclic (edges [[], [0]])"
  proof -
    have "edges [[], [0]] = {(1, 0)}" by (auto simp: edges_def less_Suc_eq nth_Cons')
    then show ?thesis by (auto simp: acyclic_def trancl_insert)
  qed
  ultimately show ?thesis
    using find_cycle_iff [OF dependencies_range]
    by (simp add: validate_generated_columns_def cyclic_acyclic demo_columns_def column_sql_def is_row_id_def has_key_def)
qed

theorem generated_columns_sound_witness:
  "validate_generated_columns (\<lambda>_. '''') demo_columns ['''', ''A+1''] = Inr () \<and> acyclic (depends demo_columns ['''', ''A+1''])"
  using generated_columns_sound [OF demo_accepted] demo_accepted by blast

definition demo_check :: node where
  "demo_check = make Comparison ''<'' [make Column ''a'' [], Node Constant LInteger ''5'' []]"

lemma demo_check_parses: "parse_sql ''a<5'' = Inr demo_check"
proof -
  have "tokenize ''a<5'' = Inr [token Ident ''a'', token Op ''<'', token Number ''5'', token End []]" by code_simp
  moreover have "parse_tokens [token Ident ''a'', token Op ''<'', token Number ''5'', token End []] = Inr demo_check" by code_simp
  ultimately show ?thesis by (simp add: parse_sql_def)
qed

lemma demo_check_accepted: "validate_numeric_check (\<lambda>_. '''') ''a<5'' demo_columns = Inr ()"
proof -
  have "n_kind demo_check = Comparison \<and> eachE (check_operand (\<lambda>_. '''') demo_columns) (n_children demo_check) = Inr ()" by code_simp
  then show ?thesis by (simp add: validate_numeric_check_def demo_check_parses)
qed

theorem numeric_check_sound_witness: "\<exists>l op a b. parse_sql ''a<5'' = Inr (Node Comparison l op [a, b])"
  using numeric_check_sound [OF demo_check_accepted] by blast

end
