(* ===== verification/Sql_Literals.thy ===== *)
theory Sql_Literals
  imports Sql_Parser
begin

section \<open>Literals and names\<close>

text \<open>
  How a numeric literal is classified without ever converting it to a machine integer, and that a
  quoted name is read back whatever characters it holds.
\<close>

subsection \<open>Integer literals\<close>

abbreviation digit_text :: "string \<Rightarrow> bool" where
  "digit_text s \<equiv> \<forall>c \<in> set s. is_digit c"

lemma dec_value_Cons: "dec_value (c # s) = digit_value c * 10 ^ length s + dec_value s"
  using dec_value_append [of "[c]" s] dec_value_snoc [of "[]" c] by simp

lemma dec_value_less: "digit_text s \<Longrightarrow> dec_value s < 10 ^ length s"
proof (induction s)
  case (Cons c s)
  have "digit_value c \<le> 9" using Cons.prems by (auto simp: digit_value_def is_digit_def)
  then have "digit_value c * 10 ^ length s \<le> 9 * 10 ^ length s" by (rule mult_le_mono1)
  moreover have "dec_value s < 10 ^ length s" using Cons by simp
  ultimately have "dec_value (c # s) < 10 * 10 ^ length s" unfolding dec_value_Cons by linarith
  then show ?case by simp
qed simp

lemma dec_value_first:
  assumes "code x < code y" "48 \<le> code x" "digit_text a" "length a = length b"
  shows "dec_value (x # a) < dec_value (y # b)"
proof -
  have "Suc (digit_value x) \<le> digit_value y" using assms by (simp add: digit_value_def)
  then have "Suc (digit_value x) * 10 ^ length b \<le> digit_value y * 10 ^ length b" by (rule mult_le_mono1)
  then show ?thesis using dec_value_less [OF assms(3)] assms(4) by (simp add: dec_value_Cons)
qed

lemma string_le_digits:
  assumes "length a = length b" "digit_text a" "digit_text b"
  shows "string_le a b \<longleftrightarrow> dec_value a \<le> dec_value b"
  using assms
proof (induction a b rule: list_induct2)
  case (Cons x a y b)
  have digits: "48 \<le> code x" "48 \<le> code y" using Cons.prems by (simp_all add: is_digit_def)
  consider "code x < code y" | "code x = code y" | "code y < code x" by linarith
  then show ?case
  proof cases
    case 1
    then show ?thesis using dec_value_first [of x y a b] digits Cons by simp
  next
    case 2
    then show ?thesis using Cons by (simp add: dec_value_Cons)
  next
    case 3
    then show ?thesis using dec_value_first [of y x b a] digits Cons by auto
  qed
qed simp

lemma dec_value_strip: "dec_value (strip_zeros s) = dec_value s"
proof -
  let ?k = "min (length (takeWhile (\<lambda>c. c = CHR ''0'') s)) (length s - 1)"
  have "\<forall>c \<in> set (take ?k s). c = CHR ''0''"
  proof
    fix c assume "c \<in> set (take ?k s)"
    then have "c \<in> set (take (length (takeWhile (\<lambda>c. c = CHR ''0'') s)) s)"
      using set_take_subset_set_take [of ?k "length (takeWhile (\<lambda>c. c = CHR ''0'') s)" s] by auto
    then show "c = CHR ''0''" using set_takeWhileD by (metis takeWhile_eq_take)
  qed
  then have "take ?k s = replicate (length (take ?k s)) (CHR ''0'')" by (metis replicate_length_same)
  then have "dec_value (take ?k s) = 0" by (metis dec_value_zeros)
  then show ?thesis
    unfolding strip_zeros_def using dec_value_append [of "take ?k s" "drop ?k s"] by simp
qed

lemma strip_first:
  assumes "s \<noteq> []" "1 < length (strip_zeros s)"
  shows "hd (strip_zeros s) \<noteq> CHR ''0''"
proof -
  let ?z = "takeWhile (\<lambda>c. c = CHR ''0'') s"
  have z: "length ?z < length s - 1"
    using assms by (auto simp: strip_zeros_def min_def split: if_splits)
  then have d: "strip_zeros s = dropWhile (\<lambda>c. c = CHR ''0'') s"
    by (simp add: strip_zeros_def dropWhile_eq_drop)
  moreover have "strip_zeros s \<noteq> []" using assms(2) by auto
  ultimately show ?thesis using hd_dropWhile [of "\<lambda>c. c = CHR ''0''" s] by simp
qed

lemma dec_value_hd:
  assumes "digit_text s" "s \<noteq> []" "hd s \<noteq> CHR ''0''"
  shows "10 ^ (length s - 1) \<le> dec_value s"
proof (cases s)
  case (Cons c t)
  have "code c \<noteq> 48" using assms(3) Cons using of_char_eq_iff [of c "CHR ''0''", where ?'a = nat] by auto
  then have "1 \<le> digit_value c" using assms(1) Cons by (auto simp: digit_value_def is_digit_def)
  then show ?thesis using Cons by (simp add: dec_value_Cons trans_le_add1)
qed (use assms in simp)

lemma fits_iff:
  assumes "digit_text s" "s \<noteq> []" "digit_text limit" "limit \<noteq> []" "hd limit \<noteq> CHR ''0''"
  shows "fits (strip_zeros s) limit \<longleftrightarrow> dec_value s \<le> dec_value limit"
proof -
  let ?t = "strip_zeros s"
  have t: "digit_text ?t" using assms(1) by (auto simp: strip_zeros_def dest: in_set_dropD)
  have "length ?t \<noteq> 0" using assms(2) by (cases s) (auto simp: strip_zeros_def)
  then have t0: "?t \<noteq> []" by simp
  consider "length ?t < length limit" | "length ?t = length limit" | "length limit < length ?t" by linarith
  then have "fits ?t limit \<longleftrightarrow> dec_value ?t \<le> dec_value limit"
  proof cases
    case 1
    have "(10::nat) ^ length ?t \<le> 10 ^ (length limit - 1)" using 1 by (intro power_increasing) auto
    then have "dec_value ?t \<le> dec_value limit" using dec_value_less [OF t] dec_value_hd [OF assms(3-5)] by linarith
    then show ?thesis using 1 by (simp add: fits_def)
  next
    case 2
    then show ?thesis using string_le_digits [OF 2 t assms(3)] by (simp add: fits_def)
  next
    case 3
    then have "1 < length ?t" using assms(4) by (cases limit) auto
    then have "10 ^ (length ?t - 1) \<le> dec_value ?t" using dec_value_hd [OF t t0] strip_first [OF assms(2)] by blast
    moreover have "(10::nat) ^ length limit \<le> 10 ^ (length ?t - 1)" using 3 by (intro power_increasing) auto
    ultimately have "\<not> dec_value ?t \<le> dec_value limit" using dec_value_less [OF assms(3)] by linarith
    then show ?thesis using 3 by (simp add: fits_def)
  qed
  then show ?thesis by (simp add: dec_value_strip)
qed

lemma digits_plain:
  assumes "digit_text s"
  shows "CHR ''e'' \<notin> set s" "CHR ''E'' \<notin> set s" "CHR ''.'' \<notin> set s" "CHR ''-'' \<notin> set s"
  using assms by (auto simp: is_digit_def)

lemma limit_values:
  "dec_value ''2147483647'' = 2147483647" "dec_value ''2147483648'' = 2147483648"
  "dec_value ''9223372036854775807'' = 9223372036854775807" "dec_value ''9223372036854775808'' = 9223372036854775808"
  by (simp_all add: dec_value_def digit_value_def)

lemma fits_limits:
  assumes "digit_text s" "s \<noteq> []"
  shows "fits (strip_zeros s) ''2147483647'' \<longleftrightarrow> dec_value s \<le> 2147483647"
    "fits (strip_zeros s) ''2147483648'' \<longleftrightarrow> dec_value s \<le> 2147483648"
    "fits (strip_zeros s) ''9223372036854775807'' \<longleftrightarrow> dec_value s \<le> 9223372036854775807"
    "fits (strip_zeros s) ''9223372036854775808'' \<longleftrightarrow> dec_value s \<le> 9223372036854775808"
  using fits_iff [OF assms, of "''2147483647''"] fits_iff [OF assms, of "''2147483648''"]
    fits_iff [OF assms, of "''9223372036854775807''"] fits_iff [OF assms, of "''9223372036854775808''"]
  by (simp_all add: limit_values is_digit_def)

text \<open>
  An integer literal of any length, with any leading zeros, is classified by its value: INTEGER
  exactly when it fits 32 bits, BIGINT exactly when it needs and fits 64 bits, HUGEINT otherwise, with
  the one value more on the negative side.
\<close>

theorem classify_number_value:
  assumes "digit_text s" "s \<noteq> []"
  shows "classify_number s =
      (if dec_value s < 2 ^ 31 then LInteger else if dec_value s < 2 ^ 63 then LBigint else LHugeint) \<and>
    classify_number (CHR ''-'' # s) =
      (if dec_value s \<le> 2 ^ 31 then LInteger else if dec_value s \<le> 2 ^ 63 then LBigint else LHugeint)"
proof -
  have "hd s \<noteq> CHR ''-''" using digits_plain(4) [OF assms(1)] assms(2) by (metis hd_in_set)
  then show ?thesis
    using assms(2) digits_plain [OF assms(1)] fits_limits [OF assms] by (auto simp: classify_number_def Let_def)
qed

theorem classify_number_value_witness:
  "classify_number ''002147483648'' = LBigint \<and> classify_number ''-2147483648'' = LInteger"
proof -
  have "classify_number ''002147483648'' = LBigint"
    using classify_number_value [of "''002147483648''"] by (simp add: is_digit_def dec_value_def digit_value_def)
  moreover have "classify_number ''-2147483648'' = LInteger"
    using classify_number_value [of "''2147483648''"] by (simp add: is_digit_def dec_value_def digit_value_def)
  ultimately show ?thesis by simp
qed

subsection \<open>Quoted names and texts\<close>

text \<open>The text of a quoted token: every quote doubled, between quotes.\<close>

definition escape :: "char \<Rightarrow> string \<Rightarrow> string" where
  "escape q s = q # concat (map (\<lambda>c. if c = q then [q, q] else [c]) s) @ [q]"

lemma quoted_text_escape:
  assumes "r = [] \<or> hd r \<noteq> q"
  shows "quoted_text q (concat (map (\<lambda>c. if c = q then [q, q] else [c]) s) @ q # r) = Some (s, r)"
proof (induction s)
  case Nil
  then show ?case using assms by (cases r) auto
next
  case (Cons c s)
  let ?rest = "concat (map (\<lambda>c. if c = q then [q, q] else [c]) s) @ q # r"
  obtain d t where d: "?rest = d # t" by (cases ?rest) auto
  then show ?case using Cons by (cases "c = q") auto
qed

lemma lex_quoted:
  assumes "q \<in> {CHR 0x22, CHR 0x27}" "s \<noteq> [] \<or> q = CHR 0x27" "r = [] \<or> hd r \<noteq> q"
  shows "lex_step (escape q s @ r) = Inr (Some (token (if q = CHR 0x22 then Quoted else StringTok) s), r)"
proof -
  let ?e = "escape q s @ r"
  have read_back: "quoted_text q (tl ?e) = Some (s, r)" using quoted_text_escape [OF assms(3), of s] by (simp add: escape_def)
  have first: "hd ?e = q" by (simp add: escape_def)
  have "\<not> is_space q" "\<not> ident_start q" "q \<in> set quote_chars"
    using assms(1) by (auto simp: is_space_def ident_start_def is_alpha_def is_upper_def is_lower_def quote_chars_def)
  moreover have "\<not> starts_with ?e ''--''" "\<not> starts_with ?e ''/*''"
    using assms(1) by (auto simp: starts_with_def escape_def)
  ultimately show ?thesis using assms(2) unfolding lex_step_def Let_def first read_back by auto
qed

lemma tokenize_quoted:
  assumes "q \<in> {CHR 0x22, CHR 0x27}" "s \<noteq> [] \<or> q = CHR 0x27"
  shows "tokenize (escape q s) = Inr [token (if q = CHR 0x22 then Quoted else StringTok) s, token End []]"
proof -
  have "escape q s \<noteq> []" by (simp add: escape_def)
  then show ?thesis using lex_quoted [OF assms, of "[]"]
    by (simp add: tokenize_def tokenize_from.simps [of "escape q s"] tokenize_from.simps [of "[]"])
qed

text \<open>The end token stops every loop.\<close>

lemma at_end:
  "peek [token End []] = token End []" "\<not> is_op s [token End []]" "\<not> keyword w [token End []]"
  by (simp_all add: peek_def is_op_def keyword_def)

lemma loops_end:
  "chain_loop n k (on_ops ops) p m [token End []] = Inr (m, [token End []])"
  "chain_loop n k (on_keyword w) p m [token End []] = Inr (m, [token End []])"
  "cast_loop n m [token End []] = Inr (m, [token End []])"
  "null_loop n m [token End []] = Inr (m, [token End []])"
  "on_ops ops [token End []] = None"
  by (simp_all add: chain_loop.simps cast_loop.simps null_loop.simps on_ops_def on_keyword_def at_end)

lemma atom_parses:
  assumes "\<And>e. primary e ts = Inr (m, [token End []])"
    and "\<not> keyword ''not'' ts" "\<not> is_op ''-'' ts" "\<not> is_op ''+'' ts"
  shows "parse_tokens ts = Inr m"
proof -
  have "expression (Suc (Suc (Suc n))) ts = Inr (m, [token End []])" for n
    using assms
    by (simp add: chain_def null_test_def comparison_def concatenation_def additive_def multiplicative_def postfix_def loops_end)
  then have "expression kMaxSqlDepth ts = Inr (m, [token End []])" by (simp add: kMaxSqlDepth_def numeral_eq_Suc)
  then show ?thesis by (simp add: parse_tokens_def at_end)
qed

lemma length_escape: "length (escape q s) \<le> 2 * length s + 2"
  by (induction s) (auto simp: escape_def)

lemma escape_Nil: "escape q s \<noteq> []"
  by (simp add: escape_def)

lemma set_escape: "set (escape q s) = insert q (set s)"
  by (induction s) (auto simp: escape_def)

lemma parse_quoted:
  assumes "q \<in> {CHR 0x22, CHR 0x27}" "s \<noteq> [] \<or> q = CHR 0x27" "NUL \<notin> set s" "length s < 524288"
  shows "parse_sql (escape q s) = Inr (if q = CHR 0x22 then make Column s [] else Node Constant LVarchar s [])"
proof -
  have "escape q s \<noteq> []" "length (escape q s) \<le> 1024 * 1024" "NUL \<notin> set (escape q s)"
    using assms length_escape [of q s] by (auto simp: set_escape escape_Nil)
  moreover have "parse_tokens [token (if q = CHR 0x22 then Quoted else StringTok) s, token End []] =
      Inr (if q = CHR 0x22 then make Column s [] else Node Constant LVarchar s [])"
    by (rule atom_parses) (auto simp: primary_def peek_def is_op_def keyword_def)
  ultimately show ?thesis using tokenize_quoted [OF assms(1,2)] by (simp add: parse_sql_def)
qed

text \<open>
  Any name can be written. Whatever characters but NUL a column name holds, quotes included, its
  quoted spelling parses to a reference to exactly that column; the same holds for string literals,
  the empty one included.
\<close>

theorem quoting_round_trip:
  assumes "NUL \<notin> set s" "length s < 524288"
  shows "(s \<noteq> [] \<longrightarrow> parse_sql (escape (CHR 0x22) s) = Inr (make Column s [])) \<and>
    parse_sql (escape (CHR 0x27) s) = Inr (Node Constant LVarchar s [])"
  using parse_quoted [of "CHR 0x22" s] parse_quoted [of "CHR 0x27" s] assms by simp

theorem quoting_round_trip_witness:
  "parse_sql (escape (CHR 0x22) ''select'') = Inr (make Column ''select'' [])"
  using quoting_round_trip [of "''select''"] by simp

subsection \<open>Height of a chain\<close>

fun height :: "node \<Rightarrow> nat" where
  "height (Node k l s cs) = Suc (fold max (map height cs) 0)"

abbreviation one_token :: token where
  "one_token \<equiv> token Number ''1''"

abbreviation plus_token :: token where
  "plus_token \<equiv> token Op ''+''"

definition one_node :: node where
  "one_node = Node Constant LInteger ''1'' []"

fun sum_node :: "nat \<Rightarrow> node" where
  "sum_node 0 = one_node"
| "sum_node (Suc n) = make Function ''+'' [sum_node n, one_node]"

definition plus_ones :: "nat \<Rightarrow> string" where
  "plus_ones n = concat (replicate n ''+1'')"

definition plus_tokens :: "nat \<Rightarrow> token list" where
  "plus_tokens n = concat (replicate n [plus_token, one_token]) @ [token End []]"

lemma height_sum: "height (sum_node n) = Suc n"
  by (induction n) (auto simp: one_node_def make_def)

lemma plus_ones_Suc: "plus_ones (Suc n) = CHR ''+'' # CHR ''1'' # plus_ones n"
  by (simp add: plus_ones_def)

lemma plus_tokens_Suc: "plus_tokens (Suc n) = plus_token # one_token # plus_tokens n"
  by (simp add: plus_tokens_def)

lemma plus_ones_cases: "plus_ones n = [] \<or> (\<exists>r. plus_ones n = CHR ''+'' # r)"
  by (cases n) (simp_all add: plus_ones_def)

lemma lex_one: "lex_step (CHR ''1'' # plus_ones n) = Inr (Some one_token, plus_ones n)"
proof -
  have "number (CHR ''1'' # plus_ones n) = Inr (''1'', plus_ones n)"
    using plus_ones_cases [of n]
    by (auto simp: number_def digits_def after_digits_def fraction_def exponent_def is_digit_def ident_start_def
        is_alpha_def is_upper_def is_lower_def)
  then show ?thesis
    by (simp add: lex_step_def Let_def is_space_def starts_with_def ident_start_def is_alpha_def is_upper_def is_lower_def
        quote_chars_def is_digit_def)
qed

lemma lex_plus: "lex_step (CHR ''+'' # s) = Inr (Some plus_token, s)"
  by (simp add: lex_step_def Let_def is_space_def starts_with_def ident_start_def is_alpha_def is_upper_def is_lower_def
      quote_chars_def is_digit_def operators_def)

lemma tokenize_plus_ones: "tokenize_from (plus_ones n) = Inr (plus_tokens n)"
proof (induction n)
  case 0
  then show ?case by (simp add: plus_ones_def plus_tokens_def tokenize_from.simps)
next
  case (Suc n)
  have "tokenize_from (CHR ''1'' # plus_ones n) = Inr (one_token # plus_tokens n)"
    using Suc by (subst tokenize_from.simps) (simp add: lex_one)
  then show ?case by (subst plus_ones_Suc, subst tokenize_from.simps) (simp add: lex_plus plus_tokens_Suc)
qed

lemma one_literal: "classify_number ''1'' = LInteger"
  by code_simp

lemma unary_one: "unary (Suc l) (one_token # plus_tokens n) = Inr (one_node, plus_tokens n)"
proof -
  have "\<not> is_op s (one_token # plus_tokens n)" for s by (simp add: is_op_def peek_def)
  moreover have "cast_loop m one_node (plus_tokens n) = Inr (one_node, plus_tokens n)" for m
    by (cases n) (simp_all add: plus_tokens_def cast_loop.simps is_op_def peek_def)
  moreover have "peek (one_token # ts) = one_token" for ts by (simp add: peek_def)
  ultimately show ?thesis by (simp add: postfix_def primary_def one_literal one_node_def)
qed

definition reads_one :: "node sql_parse \<Rightarrow> bool" where
  "reads_one p \<longleftrightarrow> (\<forall>n. p (one_token # plus_tokens n) = Inr (one_node, plus_tokens n))"

lemma multiplicative_one:
  assumes "reads_one u"
  shows "reads_one (multiplicative u)"
proof -
  have "on_ops [''*'', ''/'', ''%''] (plus_tokens n) = None" for n
    by (cases n) (simp_all add: plus_tokens_def on_ops_def is_op_def peek_def)
  then show ?thesis using assms by (simp add: reads_one_def multiplicative_def chain_def chain_loop.simps)
qed

lemma additive_loop:
  assumes "reads_one p"
  shows "chain_loop (2 * n + m) Function (on_ops [''+'', ''-'']) p (sum_node k) (plus_tokens n) =
     Inr (sum_node (k + n), [token End []])"
proof (induction n arbitrary: k m)
  case 0
  then show ?case by (simp add: plus_tokens_def loops_end)
next
  case (Suc n)
  have "on_ops [''+'', ''-''] (plus_tokens (Suc n)) = Some ''+''"
    by (simp add: plus_tokens_Suc on_ops_def is_op_def peek_def)
  then show ?case using Suc.IH [of "Suc m" "Suc k"] assms
    by (subst chain_loop.simps) (simp add: plus_tokens_Suc reads_one_def)
qed

lemma length_plus_tokens: "length (plus_tokens n) = 2 * n + 1"
  by (induction n) (simp_all add: plus_tokens_Suc, simp add: plus_tokens_def)

lemma additive_sum:
  assumes "reads_one u"
  shows "additive u (one_token # plus_tokens n) = Inr (sum_node n, [token End []])"
  using multiplicative_one [OF assms] additive_loop [OF multiplicative_one [OF assms], of n 1 0]
  by (simp add: additive_def chain_def reads_one_def length_plus_tokens)

text \<open>
  The limit on nesting does not bound the height of the tree. A text of at most 1 MiB may parse
  to a tree more than half a million levels high, one for every operator of a sum, although the parser
  refuses more than 256 levels of nesting: the operator loops add a level without recursing.
\<close>

theorem sum_tree_height:
  assumes "n < 524288"
  shows "parse_sql (CHR ''1'' # plus_ones n) = Inr (sum_node n) \<and> height (sum_node n) = n + 1"
proof -
  have one: "reads_one (unary (Suc l))" for l unfolding reads_one_def using unary_one by blast
  have "\<not> keyword ''not'' (one_token # ts)" for ts by (simp add: keyword_def peek_def)
  then have "expression (Suc (Suc (Suc l))) (one_token # plus_tokens n) = Inr (sum_node n, [token End []])" for l
    using additive_sum [OF one, of l n]
    by (simp add: chain_def null_test_def comparison_def concatenation_def loops_end del: unary.simps)
  then have "expression kMaxSqlDepth (one_token # plus_tokens n) = Inr (sum_node n, [token End []])"
    by (simp add: kMaxSqlDepth_def numeral_eq_Suc)
  then have "parse_tokens (one_token # plus_tokens n) = Inr (sum_node n)" by (simp add: parse_tokens_def at_end)
  moreover have "tokenize (CHR ''1'' # plus_ones n) = Inr (one_token # plus_tokens n)"
    unfolding tokenize_def by (subst tokenize_from.simps) (simp add: lex_one tokenize_plus_ones)
  moreover have "length (plus_ones n) = 2 * n" "NUL \<notin> set (plus_ones n)" by (induction n) (auto simp: plus_ones_def)
  ultimately show ?thesis using assms by (simp add: parse_sql_def height_sum)
qed

theorem sum_tree_height_witness: "height (sum_node 524287) = 524288 \<and> (\<exists>sql. parse_sql sql = Inr (sum_node 524287))"
  using sum_tree_height [of 524287] by auto

end
