(* ===== verification/Constraint_Records.thy ===== *)
theory Constraint_Records
  imports Wire_Result
begin

section \<open>Canonical constraint records\<close>

text \<open>
  The builder and the decoder of \<^verbatim>\<open>src/src/constraints.cpp\<close>: \<^verbatim>\<open>constraint_record\<close> writes one \<^verbatim>\<open>ConstraintInfo\<close>
  record with its nested records, \<^verbatim>\<open>decode_constraint_record\<close> reads it back. The schemas are those of
  \<^verbatim>\<open>vgi_protocol_schemas.hpp\<close>. Arrow's stream writer and reader, \<open>enc\<close> and \<open>ipc\<close>, are arguments.
  \<open>Invalid\<close> is \<^verbatim>\<open>std::invalid_argument\<close>, \<open>WireError\<close> what an accessor throws, \<open>UndefinedRead\<close> the read of an
  empty \<^verbatim>\<open>std::optional\<close>; \<open>CheckFuel\<close> stands for the SQL parser's fuel running out, which it never does. \<open>Unsupported\<close> is the
  error of kind \<^verbatim>\<open>METHOD_NOT_IMPLEMENTED\<close> and \<open>Runtime\<close> any other exception of the catalogs that use the records.
\<close>

datatype constraint_error =
    Invalid string | WireError wire_error | UndefinedRead | CheckFuel | Unsupported string | Runtime string

definition wire :: "wire_error + 'a \<Rightarrow> constraint_error + 'a" where
  "wire r = (case r of Inl e \<Rightarrow> Inl (WireError e) | Inr x \<Rightarrow> Inr x)"

definition valid_if :: "bool \<Rightarrow> string \<Rightarrow> constraint_error + unit" where
  "valid_if ok message = (if ok then Inr () else Inl (Invalid message))"

lemma wire_ok [simp]: "wire r = Inr x \<longleftrightarrow> r = Inr x"
  by (simp add: wire_def split: sum.splits)

lemma valid_if_Inr [simp]: "valid_if ok m = Inr u \<longleftrightarrow> ok"
  by (simp add: valid_if_def)

subsection \<open>Kinds and states\<close>

datatype constraint_kind = NotNull | PrimaryKey | Unique | Check | ForeignKey
datatype enforcement = Enforced | MetadataOnly
datatype validation = AllRows | FutureWrites | Unvalidated

definition kKinds :: "(constraint_kind \<times> string) list" where
  "kKinds = [(NotNull, ''NOT_NULL''), (PrimaryKey, ''PRIMARY_KEY''), (Unique, ''UNIQUE''), (Check, ''CHECK''),
     (ForeignKey, ''FOREIGN_KEY'')]"

definition kEnforcements :: "(enforcement \<times> string) list" where
  "kEnforcements = [(Enforced, ''ENFORCED''), (MetadataOnly, ''METADATA_ONLY'')]"

definition kValidations :: "(validation \<times> string) list" where
  "kValidations = [(AllRows, ''ALL_ROWS''), (FutureWrites, ''FUTURE_WRITES''), (Unvalidated, ''UNVALIDATED'')]"

definition spell :: "('e \<times> string) list \<Rightarrow> 'e \<Rightarrow> constraint_error + string" where
  "spell table e = (case map_of table e of Some name \<Rightarrow> Inr name | None \<Rightarrow> Inl (Invalid ''unknown constraint enum value''))"

fun parse_enum :: "('e \<times> string) list \<Rightarrow> string \<Rightarrow> string \<Rightarrow> constraint_error + 'e" where
  "parse_enum [] text what = Inl (Invalid (''unknown constraint '' @ what @ '': '' @ text))"
| "parse_enum ((e, name) # table) text what = (if text = name then Inr e else parse_enum table text what)"

subsection \<open>Specifications and views\<close>

type_synonym path = "string list"

record reference =
  ref_schema_path :: path
  ref_table :: string
  ref_columns :: "path list"
  ref_constraint_id :: string

record constraint_spec =
  cs_schema_path :: path
  cs_table :: string
  cs_id :: string
  cs_kind :: constraint_kind
  cs_columns :: "path list"
  cs_enforcement :: "enforcement option"
  cs_validation :: "validation option"
  cs_declared_name :: "string option"
  cs_check_sql :: "string option"
  cs_references :: "reference option"

record constraint_view =
  v_schema_path :: path
  v_table :: string
  v_id :: string
  v_kind :: constraint_kind
  v_columns :: "path list"
  v_enforcement :: enforcement
  v_validation :: validation
  v_declared_name :: "string option"
  v_check_sql :: "string option"
  v_references :: "reference option"

record decoded =
  d_view :: constraint_view
  d_key_schema_path :: path
  d_key_owner :: string
  d_has_key :: bool
  d_match :: string
  d_on_update :: string
  d_on_delete :: string
  d_check_profile :: string
  d_check_schema_path :: path
  d_default_context :: bool

subsection \<open>Schemas\<close>

abbreviation enum_type :: dtype where
  "enum_type \<equiv> TDict TInt16 TString"

abbreviation list_type :: "dtype \<Rightarrow> dtype" where
  "list_type t \<equiv> TList (item_field t)"

definition CatalogObjectRefSchema :: "field list" where
  "CatalogObjectRefSchema = [Field ''kind'' TString False, Field ''schema_path'' (list_type TString) False,
     Field ''name'' TString False, Field ''owner_table'' TString True]"

definition QueryEvaluationContextSchema :: "field list" where
  "QueryEvaluationContextSchema = [Field ''timezone'' TString False, Field ''collation'' TString False,
     Field ''default_order'' TString False, Field ''default_null_order'' TString False,
     Field ''preserve_insertion_order'' TBool False]"

definition SqlExpressionSchema :: "field list" where
  "SqlExpressionSchema = [Field ''sql'' TString False, Field ''profile'' TString False,
     Field ''schema_path'' (list_type TString) False,
     Field ''evaluation_context'' (TStruct [Field ''timezone'' TString False, Field ''collation'' TString False,
       Field ''default_order'' TString False, Field ''default_null_order'' TString False,
       Field ''preserve_insertion_order'' TBool False]) False]"

definition ForeignKeyDefinitionSchema :: "field list" where
  "ForeignKeyDefinitionSchema = [Field ''referenced_table'' TBinary False,
     Field ''referenced_column_paths'' (list_type (list_type TString)) False, Field ''match'' enum_type False,
     Field ''on_update'' enum_type False, Field ''on_delete'' enum_type False]"

definition ConstraintDefinitionSchema :: "field list" where
  "ConstraintDefinitionSchema = [Field ''kind'' enum_type False, Field ''column_paths'' (list_type (list_type TString)) False,
     Field ''declared_name'' TString True, Field ''check_expression'' TBinary True, Field ''foreign_key'' TBinary True]"

definition ConstraintInfoSchema :: "field list" where
  "ConstraintInfoSchema = [Field ''ref'' TBinary False, Field ''definition'' TBinary False,
     Field ''enforcement'' enum_type False, Field ''validation'' enum_type False,
     Field ''referenced_constraint'' TBinary True]"

subsection \<open>Writing\<close>

definition SCALAR_EXPRESSION_READ :: string where
  "SCALAR_EXPRESSION_READ = ''vgi.expression.duckdb.scalar.v1''"

text \<open>A chain of setters on a fresh builder, and \<^verbatim>\<open>finish()\<close>.\<close>

fun set_all :: "(result_builder \<Rightarrow> wire_error + result_builder) list \<Rightarrow> result_builder \<Rightarrow> wire_error + result_builder" where
  "set_all [] b = Inr b"
| "set_all (s # ss) b = bindE (s b) (set_all ss)"

definition build_record :: "field list \<Rightarrow> (result_builder \<Rightarrow> wire_error + result_builder) list \<Rightarrow> constraint_error + batch" where
  "build_record fs setters = wire (bindE (set_all setters (ResultBuilder fs)) finish)"

definition set_optional_binary :: "string \<Rightarrow> bytes option \<Rightarrow> result_builder \<Rightarrow> wire_error + result_builder" where
  "set_optional_binary name v = (case v of Some b \<Rightarrow> set_binary name b | None \<Rightarrow> set_null name)"

fun path_string_from :: "string \<Rightarrow> path \<Rightarrow> string" where
  "path_string_from out [] = out"
| "path_string_from out (c # cs) = path_string_from ((if out = [] then out else out @ ''.'') @ c) cs"

definition path_string :: "path \<Rightarrow> string" where
  "path_string p = path_string_from [] p"

definition require_name :: "string \<Rightarrow> string \<Rightarrow> constraint_error + unit" where
  "require_name v what = valid_if (v \<noteq> [] \<and> NUL \<notin> set v) (what @ '' must be nonempty without NUL'')"

fun require_paths_from :: "path set \<Rightarrow> path list \<Rightarrow> constraint_error + unit" where
  "require_paths_from seen [] = Inr ()"
| "require_paths_from seen (p # ps) =
     bindE (valid_if (p \<noteq> []) ''constraint column path must be nonempty'') (\<lambda>_.
     bindE (eachE (\<lambda>c. require_name c ''column path component'') p) (\<lambda>_.
     bindE (valid_if (p \<notin> seen) (''duplicate constraint column path: '' @ path_string p)) (\<lambda>_.
     require_paths_from (insert p seen) ps)))"

definition require_paths :: "path list \<Rightarrow> constraint_error + unit" where
  "require_paths ps = require_paths_from {} ps"

definition object_ref :: "(batch \<Rightarrow> bytes) \<Rightarrow> string \<Rightarrow> path \<Rightarrow> string \<Rightarrow> string option \<Rightarrow> constraint_error + bytes" where
  "object_ref enc kind schema_path name owner =
     bindE (build_record CatalogObjectRefSchema
       [set_string ''kind'' kind, set_string_list ''schema_path'' schema_path, set_string ''name'' name,
        set_optional_string ''owner_table'' owner]) (\<lambda>b. Inr (enc b))"

text \<open>The columns of a one-row batch as one struct array.\<close>

definition StructArray_Make :: "batch \<Rightarrow> arr" where
  "StructArray_Make b = one (TStruct (map fst (columns b))) (VStruct (map (\<lambda>(f, a). hd (arr_cells a)) (columns b)))"

definition check_expression :: "(batch \<Rightarrow> bytes) \<Rightarrow> string \<Rightarrow> path \<Rightarrow> constraint_error + bytes" where
  "check_expression enc sql schema_path =
     bindE (build_record QueryEvaluationContextSchema
       [set_string ''timezone'' ''UTC'', set_string ''collation'' ''binary'', set_string ''default_order'' ''asc'',
        set_string ''default_null_order'' ''nulls_last'', set_bool ''preserve_insertion_order'' True]) (\<lambda>context.
     bindE (build_record SqlExpressionSchema
       [set_string ''sql'' sql, set_string ''profile'' SCALAR_EXPRESSION_READ, set_string_list ''schema_path'' schema_path,
        set_array ''evaluation_context'' (Some (StructArray_Make context))]) (\<lambda>b. Inr (enc b)))"

definition foreign_key :: "(batch \<Rightarrow> bytes) \<Rightarrow> reference \<Rightarrow> nat \<Rightarrow> constraint_error + bytes \<times> bytes" where
  "foreign_key enc r arity =
     bindE (valid_if (ref_schema_path r \<noteq> []) ''foreign key schema_path is empty'') (\<lambda>_.
     bindE (require_name (ref_table r) ''foreign key referenced table'') (\<lambda>_.
     bindE (require_name (ref_constraint_id r) ''foreign key referenced constraint_id'') (\<lambda>_.
     bindE (require_paths (ref_columns r)) (\<lambda>_.
     bindE (valid_if (length (ref_columns r) = arity) ''foreign key local and referenced arity must match'') (\<lambda>_.
     bindE (object_ref enc ''table'' (ref_schema_path r) (ref_table r) None) (\<lambda>target.
     bindE (build_record ForeignKeyDefinitionSchema
       [set_binary ''referenced_table'' target, set_string_list_list ''referenced_column_paths'' (ref_columns r),
        set_enum ''match'' ''SIMPLE'', set_enum ''on_update'' ''NO_ACTION'', set_enum ''on_delete'' ''NO_ACTION'']) (\<lambda>b.
     bindE (object_ref enc ''constraint'' (ref_schema_path r) (ref_constraint_id r) (Some (ref_table r))) (\<lambda>key.
     Inr (enc b, key)))))))))"

text \<open>The checks at the head of \<^verbatim>\<open>constraint_record\<close>.\<close>

definition check_spec :: "constraint_spec \<Rightarrow> constraint_error + unit" where
  "check_spec spec =
     (let is_check = (cs_kind spec = Check); is_foreign = (cs_kind spec = ForeignKey) in
      bindE (valid_if (cs_schema_path spec \<noteq> []) ''constraint schema_path is empty'') (\<lambda>_.
      bindE (eachE (\<lambda>c. require_name c ''schema path component'') (cs_schema_path spec)) (\<lambda>_.
      bindE (require_name (cs_table spec) ''constraint table'') (\<lambda>_.
      bindE (require_name (cs_id spec) ''constraint id'') (\<lambda>_.
      bindE (valid_if (cs_enforcement spec \<noteq> None \<and> cs_validation spec \<noteq> None)
        (''constraint '' @ CHR 0x27 # cs_id spec @ CHR 0x27 # '': enforcement and validation must be stated explicitly'')) (\<lambda>_.
      bindE (valid_if (is_check = (cs_check_sql spec \<noteq> None)) ''check_sql is required for CHECK and only CHECK'') (\<lambda>_.
      bindE (valid_if (\<not> (is_check \<and> cs_check_sql spec = Some [])) ''check_sql is empty'') (\<lambda>_.
      bindE (valid_if (is_check = (cs_columns spec = []))
        (if is_check then ''CHECK takes no column paths''
         else the (map_of kKinds (cs_kind spec)) @ '' requires column paths'')) (\<lambda>_.
      bindE (valid_if (\<not> (cs_kind spec = NotNull \<and> length (cs_columns spec) \<noteq> 1)) ''NOT_NULL requires exactly one column path'') (\<lambda>_.
      bindE (require_paths (cs_columns spec)) (\<lambda>_.
      bindE (valid_if (is_foreign = (cs_references spec \<noteq> None)) ''references is required for FOREIGN_KEY and only FOREIGN_KEY'') (\<lambda>_.
      (case cs_declared_name spec of None \<Rightarrow> Inr () | Some n \<Rightarrow> require_name n ''declared_name'')))))))))))))"

definition constraint_record :: "(batch \<Rightarrow> bytes) \<Rightarrow> constraint_spec \<Rightarrow> constraint_error + bytes" where
  "constraint_record enc spec =
     bindE (check_spec spec) (\<lambda>_.
     bindE (if cs_kind spec = Check
            then bindE (check_expression enc (the (cs_check_sql spec)) (cs_schema_path spec)) (\<lambda>b. Inr (Some b)) else Inr None) (\<lambda>checked.
     bindE (if cs_kind spec = ForeignKey
            then bindE (foreign_key enc (the (cs_references spec)) (length (cs_columns spec))) (\<lambda>(fk, key). Inr (Some fk, Some key))
            else Inr (None, None)) (\<lambda>(fk, key).
     bindE (spell kKinds (cs_kind spec)) (\<lambda>kind.
     bindE (build_record ConstraintDefinitionSchema
       [set_enum ''kind'' kind, set_string_list_list ''column_paths'' (cs_columns spec),
        set_optional_string ''declared_name'' (cs_declared_name spec), set_optional_binary ''check_expression'' checked,
        set_optional_binary ''foreign_key'' fk]) (\<lambda>definition_batch.
     bindE (object_ref enc ''constraint'' (cs_schema_path spec) (cs_id spec) (Some (cs_table spec))) (\<lambda>ref.
     bindE (spell kEnforcements (the (cs_enforcement spec))) (\<lambda>enforced.
     bindE (spell kValidations (the (cs_validation spec))) (\<lambda>validated.
     bindE (build_record ConstraintInfoSchema
       [set_binary ''ref'' ref, set_binary ''definition'' (enc definition_batch), set_enum ''enforcement'' enforced,
        set_enum ''validation'' validated, set_optional_binary ''referenced_constraint'' key]) (\<lambda>info.
     Inr (enc info))))))))))"

subsection \<open>Reading\<close>

definition decode_record ::
    "(bytes \<Rightarrow> wire_error + batch option) \<Rightarrow> (wire_error \<Rightarrow> string) \<Rightarrow> bytes \<Rightarrow> field list \<Rightarrow> string \<Rightarrow> constraint_error + batch option" where
  "decode_record ipc what_text bytes fs what =
     (case decode_ipc ipc bytes of
        Inl e \<Rightarrow> Inl (Invalid (''invalid '' @ what @ '' record: '' @ what_text e))
      | Inr None \<Rightarrow> Inl (Invalid (''invalid '' @ what @ '' record''))
      | Inr (Some b) \<Rightarrow>
          if num_rows b \<noteq> 1 \<or> map fst (columns b) \<noteq> fs then Inl (Invalid (''invalid '' @ what @ '' record''))
          else Inr (Some b))"

definition get_paths :: "batch option \<Rightarrow> string \<Rightarrow> constraint_error + path list" where
  "get_paths b name =
     bindE (wire (column b name)) (\<lambda>outer.
     bindE (wire (at0 outer)) (\<lambda>c.
     bindE (valid_if (c \<noteq> Null) (''null '' @ name)) (\<lambda>_.
     mapE (\<lambda>p.
       bindE (valid_if (p \<noteq> Null) (''null element in '' @ name)) (\<lambda>_.
       mapE (\<lambda>part. bindE (valid_if (part \<noteq> Null) (''null element in '' @ name)) (\<lambda>_. Inr (text_of part))) (elements p)))
       (elements c))))"

text \<open>A child of the evaluation context; a child that is null has the empty text.\<close>

definition context_child :: "arr \<Rightarrow> cell \<Rightarrow> string \<Rightarrow> cell" where
  "context_child a c name =
     (case filter (\<lambda>(f, x). field_name f = name) (struct_cells a c) of [(f, x)] \<Rightarrow> x | _ \<Rightarrow> Null)"

definition default_context :: "arr \<Rightarrow> cell \<Rightarrow> bool" where
  "default_context a c \<longleftrightarrow> c \<noteq> Null \<and> text_of (context_child a c ''timezone'') = ''UTC'' \<and>
     text_of (context_child a c ''collation'') = ''binary'' \<and> text_of (context_child a c ''default_order'') = ''asc'' \<and>
     text_of (context_child a c ''default_null_order'') = ''nulls_last'' \<and>
     context_child a c ''preserve_insertion_order'' \<noteq> Null \<and> bool_of (context_child a c ''preserve_insertion_order'')"

definition decode_check ::
    "(bytes \<Rightarrow> wire_error + batch option) \<Rightarrow> (wire_error \<Rightarrow> string) \<Rightarrow> bytes \<Rightarrow> decoded \<Rightarrow> constraint_error + decoded" where
  "decode_check ipc what_text bytes d =
     bindE (decode_record ipc what_text bytes SqlExpressionSchema ''SqlExpression'') (\<lambda>expression.
     bindE (wire (get_string expression ''sql'')) (\<lambda>sql.
     bindE (wire (get_string expression ''profile'')) (\<lambda>profile.
     bindE (wire (get_string_list expression ''schema_path'')) (\<lambda>schema_path.
     bindE (wire (column expression ''evaluation_context'')) (\<lambda>context.
     bindE (wire (at0 context)) (\<lambda>c.
     Inr (d\<lparr>d_view := (d_view d)\<lparr>v_check_sql := Some sql\<rparr>, d_check_profile := profile,
            d_check_schema_path := schema_path, d_default_context := default_context context c\<rparr>)))))))"

definition decode_key ::
    "(bytes \<Rightarrow> wire_error + batch option) \<Rightarrow> (wire_error \<Rightarrow> string) \<Rightarrow> bytes option \<Rightarrow> reference \<Rightarrow> decoded \<Rightarrow>
     constraint_error + decoded" where
  "decode_key ipc what_text key r d =
     (case key of
        None \<Rightarrow> Inr (d\<lparr>d_view := (d_view d)\<lparr>v_references := Some r\<rparr>\<rparr>)
      | Some bytes \<Rightarrow>
          bindE (decode_record ipc what_text bytes CatalogObjectRefSchema ''CatalogObjectRef'') (\<lambda>target.
          bindE (wire (get_string target ''kind'')) (\<lambda>kind.
          bindE (valid_if (kind = ''constraint'') ''referenced_constraint is not a constraint reference'') (\<lambda>_.
          bindE (wire (get_string target ''name'')) (\<lambda>name.
          bindE (wire (get_string_list target ''schema_path'')) (\<lambda>schema_path.
          bindE (wire (get_optional_string target ''owner_table'')) (\<lambda>owner.
          Inr (d\<lparr>d_view := (d_view d)\<lparr>v_references := Some (r\<lparr>ref_constraint_id := name\<rparr>)\<rparr>,
                 d_key_schema_path := schema_path, d_key_owner := (case owner of None \<Rightarrow> [] | Some s \<Rightarrow> s),
                 d_has_key := True\<rparr>))))))))"

definition decode_foreign ::
    "(bytes \<Rightarrow> wire_error + batch option) \<Rightarrow> (wire_error \<Rightarrow> string) \<Rightarrow> bytes \<Rightarrow> batch option \<Rightarrow> decoded \<Rightarrow>
     constraint_error + decoded" where
  "decode_foreign ipc what_text bytes info d =
     bindE (decode_record ipc what_text bytes ForeignKeyDefinitionSchema ''ForeignKeyDefinition'') (\<lambda>fk.
     bindE (wire (get_binary fk ''referenced_table'')) (\<lambda>table_bytes.
     bindE (decode_record ipc what_text table_bytes CatalogObjectRefSchema ''CatalogObjectRef'') (\<lambda>target.
     bindE (wire (get_string target ''kind'')) (\<lambda>kind.
     bindE (if kind \<noteq> ''table'' then Inr True
            else bindE (wire (get_optional_string target ''owner_table'')) (\<lambda>owner. Inr (owner \<noteq> None))) (\<lambda>bad.
     bindE (valid_if (\<not> bad) ''foreign key referenced_table is not a table reference'') (\<lambda>_.
     bindE (wire (get_string_list target ''schema_path'')) (\<lambda>schema_path.
     bindE (wire (get_string target ''name'')) (\<lambda>name.
     bindE (get_paths fk ''referenced_column_paths'') (\<lambda>paths.
     bindE (wire (get_enum fk ''match'')) (\<lambda>match.
     bindE (wire (get_enum fk ''on_update'')) (\<lambda>on_update.
     bindE (wire (get_enum fk ''on_delete'')) (\<lambda>on_delete.
     bindE (wire (get_optional_binary info ''referenced_constraint'')) (\<lambda>key.
     decode_key ipc what_text key
       \<lparr>ref_schema_path = schema_path, ref_table = name, ref_columns = paths, ref_constraint_id = []\<rparr>
       (d\<lparr>d_match := match, d_on_update := on_update, d_on_delete := on_delete\<rparr>))))))))))))))"

definition decode_constraint_record ::
    "(bytes \<Rightarrow> wire_error + batch option) \<Rightarrow> (wire_error \<Rightarrow> string) \<Rightarrow> bytes \<Rightarrow> constraint_error + decoded" where
  "decode_constraint_record ipc what_text bytes =
     bindE (decode_record ipc what_text bytes ConstraintInfoSchema ''ConstraintInfo'') (\<lambda>info.
     bindE (wire (get_binary info ''ref'')) (\<lambda>ref_bytes.
     bindE (decode_record ipc what_text ref_bytes CatalogObjectRefSchema ''CatalogObjectRef'') (\<lambda>ref.
     bindE (wire (get_string ref ''kind'')) (\<lambda>ref_kind.
     bindE (valid_if (ref_kind = ''constraint'') ''ConstraintInfo.ref is not a constraint reference'') (\<lambda>_.
     bindE (wire (get_binary info ''definition'')) (\<lambda>definition_bytes.
     bindE (decode_record ipc what_text definition_bytes ConstraintDefinitionSchema ''ConstraintDefinition'') (\<lambda>def.
     bindE (wire (get_string_list ref ''schema_path'')) (\<lambda>schema_path.
     bindE (wire (get_optional_string ref ''owner_table'')) (\<lambda>owner.
     bindE (wire (get_string ref ''name'')) (\<lambda>name.
     bindE (bindE (wire (get_enum def ''kind'')) (\<lambda>k. parse_enum kKinds k ''kind'')) (\<lambda>kind.
     bindE (get_paths def ''column_paths'') (\<lambda>paths.
     bindE (bindE (wire (get_enum info ''enforcement'')) (\<lambda>e. parse_enum kEnforcements e ''enforcement'')) (\<lambda>enforced.
     bindE (bindE (wire (get_enum info ''validation'')) (\<lambda>e. parse_enum kValidations e ''validation'')) (\<lambda>validated.
     bindE (wire (get_optional_string def ''declared_name'')) (\<lambda>declared.
     let d = \<lparr>d_view = \<lparr>v_schema_path = schema_path, v_table = (case owner of None \<Rightarrow> [] | Some t \<Rightarrow> t), v_id = name,
                v_kind = kind, v_columns = paths, v_enforcement = enforced, v_validation = validated,
                v_declared_name = declared, v_check_sql = None, v_references = None\<rparr>,
              d_key_schema_path = [], d_key_owner = [], d_has_key = False, d_match = [], d_on_update = [], d_on_delete = [],
              d_check_profile = [], d_check_schema_path = [], d_default_context = False\<rparr> in
     bindE (wire (get_optional_binary def ''check_expression'')) (\<lambda>checked.
     bindE (case checked of None \<Rightarrow> Inr d | Some b \<Rightarrow> decode_check ipc what_text b d) (\<lambda>d.
     bindE (wire (get_optional_binary def ''foreign_key'')) (\<lambda>foreign.
     case foreign of
       Some b \<Rightarrow> decode_foreign ipc what_text b info d
     | None \<Rightarrow>
         bindE (wire (get_optional_binary info ''referenced_constraint'')) (\<lambda>key.
         bindE (valid_if (key = None) ''referenced_constraint is set on a non-FOREIGN_KEY record'') (\<lambda>_. Inr d))
     ))))))))))))))))))"

definition read_constraint_record ::
    "(bytes \<Rightarrow> wire_error + batch option) \<Rightarrow> (wire_error \<Rightarrow> string) \<Rightarrow> bytes \<Rightarrow> constraint_error + constraint_view" where
  "read_constraint_record ipc what_text bytes =
     bindE (decode_constraint_record ipc what_text bytes) (\<lambda>d. Inr (d_view d))"

end
