(* ===== verification/Constraint_Checks.thy ===== *)
theory Constraint_Checks
  imports Constraint_Records Sql_Check
begin

section \<open>Serving a table under its constraint records\<close>

text \<open>
  The second half of \<^verbatim>\<open>src/src/constraints.cpp\<close>: the schema a table is served with
  (\<^verbatim>\<open>served_columns\<close>) and the checks on its records (\<^verbatim>\<open>validate_constraint_records\<close>). The lambdas \<^verbatim>\<open>fail\<close>, \<^verbatim>\<open>bad\<close>
  and \<^verbatim>\<open>identifier\<close> are definitions that take the text they capture. The sets and the flag the
  loop over the records updates are a record.
\<close>

subsection \<open>Fields\<close>

text \<open>\<^verbatim>\<open>ordinary_struct_children\<close>: a struct that is not the storage of another type.\<close>

definition ordinary_struct_children :: "cfield \<Rightarrow> cfield list option" where
  "ordinary_struct_children f =
     (case c_type f of
        CStruct children \<Rightarrow>
          (case c_metadata f of
             None \<Rightarrow> Some children
           | Some m \<Rightarrow>
               if list_ex (\<lambda>key. key = ''ARROW:extension:name'' \<or> starts_with key ''vgi.logical_type.'') (map fst m)
               then None else Some children)
      | _ \<Rightarrow> None)"

lemma ordinary_struct_type: "ordinary_struct_children f = Some cs \<Longrightarrow> c_type f = CStruct cs"
  by (auto simp: ordinary_struct_children_def split: ctype.splits option.splits if_splits)

lemma ordinary_struct_size: "ordinary_struct_children f = Some cs \<Longrightarrow> c \<in> set cs \<Longrightarrow> size c < size f"
proof -
  assume "ordinary_struct_children f = Some cs" "c \<in> set cs"
  then have "c_type f = CStruct cs" "size c \<le> size_list size cs"
    by (auto simp: ordinary_struct_type size_list_estimation')
  then show ?thesis by (cases f) simp
qed

definition row_id :: "cfield \<Rightarrow> bool" where
  "row_id f \<longleftrightarrow> has_key f ''is_row_id''"

definition required_paths :: "decoded list \<Rightarrow> path set" where
  "required_paths records =
     \<Union> (set (map (\<lambda>r. if v_kind (d_view r) \<in> {NotNull, PrimaryKey} then set (v_columns (d_view r)) else {}) records))"

function serve_field :: "path set \<Rightarrow> path \<Rightarrow> cfield \<Rightarrow> cfield" where
  "serve_field req path f =
     CField (c_name f)
       (case ordinary_struct_children f of
          None \<Rightarrow> c_type f
        | Some children \<Rightarrow> CStruct (map (\<lambda>c. serve_field req (path @ [c_name c]) c) children))
       (path \<notin> req) (c_metadata f)"
  by pat_completeness auto
termination
  by (relation "measure (\<lambda>(r, p, f). size f)") (auto dest: ordinary_struct_size)

declare serve_field.simps [simp del]

definition serve_schema :: "cfield list \<Rightarrow> path set \<Rightarrow> cfield list" where
  "serve_schema cols req =
     map (\<lambda>f. if row_id f then f else serve_field req [c_name f] f) cols"

text \<open>\<^verbatim>\<open>Schema::GetAllFieldIndices\<close>, and the loop of \<^verbatim>\<open>nested\<close> with the match so far.\<close>

definition GetAllFieldIndices :: "cfield list \<Rightarrow> string \<Rightarrow> nat list" where
  "GetAllFieldIndices cols name = filter (\<lambda>i. c_name (cols ! i) = name) [0..<length cols]"

definition top_level :: "cfield list \<Rightarrow> string \<Rightarrow> cfield option" where
  "top_level cols name =
     (case GetAllFieldIndices cols name of
        [i] \<Rightarrow> if row_id (cols ! i) then None else Some (cols ! i)
      | _ \<Rightarrow> None)"

fun nested_loop :: "string \<Rightarrow> cfield list \<Rightarrow> cfield option \<Rightarrow> cfield option" where
  "nested_loop name [] found = found"
| "nested_loop name (c # rest) found =
     (if c_name c \<noteq> name then nested_loop name rest found
      else if found \<noteq> None then None
      else nested_loop name rest (Some c))"

fun type_fields :: "ctype \<Rightarrow> cfield list" where
  "type_fields (CStruct fs) = fs" | "type_fields (CNested fs) = fs" | "type_fields _ = []"

definition nested :: "cfield \<Rightarrow> string \<Rightarrow> cfield option" where
  "nested parent name = nested_loop name (type_fields (c_type parent)) None"

text \<open>The descent of a \<^verbatim>\<open>NOT_NULL\<close> path below its first component.\<close>

fun descend :: "cfield option \<Rightarrow> string list \<Rightarrow> cfield option" where
  "descend None path = None"
| "descend (Some f) [] = Some f"
| "descend (Some f) (name # path) =
     descend (if ordinary_struct_children f \<noteq> None then nested f name else None) path"

text \<open>The final walk over the served fields.\<close>

function walk :: "string \<Rightarrow> path set \<Rightarrow> cfield list \<Rightarrow> path \<Rightarrow> constraint_error + unit" where
  "walk pre req fs parent =
     eachE (\<lambda>f.
       if parent = [] \<and> row_id f then Inr ()
       else
         bindE (valid_if (c_nullable f = (parent @ [c_name f] \<notin> req))
           (pre @ ''column '' @ path_string (parent @ [c_name f]) @
            '' nullability disagrees with its NOT_NULL/PRIMARY_KEY records'')) (\<lambda>_.
         case ordinary_struct_children f of
           None \<Rightarrow> Inr ()
         | Some children \<Rightarrow> walk pre req children (parent @ [c_name f])))
     fs"
  by pat_completeness auto
termination
proof (relation "measure (\<lambda>(s, r, fs, p). size_list size fs)", goal_cases)
  case (2 pre req fs parent f u children)
  then have "c_type f = CStruct children" by (auto dest: ordinary_struct_type)
  then have "size_list size children < size f" by (cases f) simp
  also have "size f \<le> size_list size fs" using 2 by (simp add: size_list_estimation')
  finally show ?case by simp
qed simp

declare walk.simps [simp del]

subsection \<open>The checks on one record\<close>

record check_state =
  ids :: "string set"
  labels :: "string set"
  primary :: bool

definition identifier_ok :: "string \<Rightarrow> bool" where
  "identifier_ok v \<longleftrightarrow> v \<noteq> [] \<and> length v \<le> 4096 \<and> NUL \<notin> set v"

text \<open>\<^verbatim>\<open>bad\<close> unless a condition holds; \<open>wh\<close> is the table's prefix and the name of the constraint.\<close>

definition where_text :: "string \<Rightarrow> string \<Rightarrow> string" where
  "where_text pre i = pre @ ''constraint '' @ between_quotes i @ '' ''"

definition require_identifier :: "string \<Rightarrow> string \<Rightarrow> string \<Rightarrow> constraint_error + unit" where
  "require_identifier wh v what = valid_if (identifier_ok v) (wh @ ''has an invalid '' @ what)"

definition check_owner :: "path option \<Rightarrow> string \<Rightarrow> string \<Rightarrow> constraint_view \<Rightarrow> constraint_error + unit" where
  "check_owner owner_schema owner wh r =
     bindE (require_identifier wh (v_id r) ''id'') (\<lambda>_.
     bindE (valid_if (length (v_schema_path r) = 1) (wh @ ''must name a one-component schema path; DuckDB reads no other'')) (\<lambda>_.
     bindE (require_identifier wh (hd (v_schema_path r)) ''schema name'') (\<lambda>_.
     bindE (require_identifier wh (v_table r) ''owner table'') (\<lambda>_.
     valid_if (case owner_schema of None \<Rightarrow> True | Some p \<Rightarrow> v_schema_path r = p \<and> v_table r = owner)
       (wh @ ''belongs to '' @ path_string (v_schema_path r) @ ''.'' @ v_table r @ '', not this table'')))))"

definition check_label :: "string \<Rightarrow> string option \<Rightarrow> check_state \<Rightarrow> constraint_error + check_state" where
  "check_label wh declared st =
     (case declared of
        None \<Rightarrow> Inr st
      | Some n \<Rightarrow>
          bindE (require_identifier wh n ''declared name'') (\<lambda>_.
          bindE (valid_if (lower n \<notin> labels st)
            (wh @ ''reuses declared name '' @ between_quotes n @ '' (names are compared case-insensitively)'')) (\<lambda>_.
          Inr (st\<lparr>labels := insert (lower n) (labels st)\<rparr>))))"

definition spelled :: "('e \<times> string) list \<Rightarrow> 'e \<Rightarrow> string" where
  "spelled table e = (case spell table e of Inr s \<Rightarrow> s | Inl _ \<Rightarrow> [])"

definition check_state_of :: "string \<Rightarrow> constraint_view \<Rightarrow> constraint_error + unit" where
  "check_state_of pre r =
     valid_if (v_enforcement r = Enforced \<and> v_validation r = AllRows)
       (pre @ ''constraint '' @ between_quotes (v_id r) @ '' is '' @ spelled kEnforcements (v_enforcement r) @ ''/'' @
        spelled kValidations (v_validation r) @ ''; DuckDB accepts only ENFORCED + ALL_ROWS records'')"

definition check_paths :: "string \<Rightarrow> path list \<Rightarrow> constraint_error + unit" where
  "check_paths wh paths =
     bindE (valid_if (length paths \<le> 1024) (wh @ ''has more than 1024 column paths'')) (\<lambda>_.
     eachE (\<lambda>p.
       bindE (valid_if (p \<noteq> [] \<and> length p \<le> 64) (wh @ ''has an empty or oversized column path'')) (\<lambda>_.
       eachE (\<lambda>c. require_identifier wh c ''column path component'') p)) paths)"

text \<open>The branches of the switch on the kind. The guards before them make every path nonempty.\<close>

definition check_not_null :: "string \<Rightarrow> cfield list \<Rightarrow> path list \<Rightarrow> constraint_error + unit" where
  "check_not_null wh cols paths =
     bindE (valid_if (length paths = 1) (wh @ ''NOT_NULL requires exactly one column path'')) (\<lambda>_.
     let p = hd paths in
     valid_if (descend (top_level cols (hd p)) (tl p) \<noteq> None)
       (wh @ ''NOT_NULL column '' @ path_string p @ '' is not a column (or an ordinary STRUCT member) of the table''))"

definition check_key_columns :: "string \<Rightarrow> cfield list \<Rightarrow> constraint_kind \<Rightarrow> path list \<Rightarrow> constraint_error + unit" where
  "check_key_columns wh cols kind paths =
     eachE (\<lambda>p.
       bindE (valid_if (length p = 1) (wh @ spelled kKinds kind @ '' column '' @ path_string p @
         '' is nested; DuckDB reads nested paths only for NOT_NULL'')) (\<lambda>_.
       valid_if (top_level cols (hd p) \<noteq> None)
         (wh @ spelled kKinds kind @ '' column '' @ hd p @ '' is not a column of the table''))) paths"

text \<open>The reference of a foreign key is read without asking whether the record has one.\<close>

definition check_reference :: "string \<Rightarrow> decoded \<Rightarrow> constraint_error + unit" where
  "check_reference wh d =
     (case v_references (d_view d) of
        None \<Rightarrow> Inl UndefinedRead
      | Some ref \<Rightarrow>
          bindE (valid_if (ref_schema_path ref = v_schema_path (d_view d) \<and> d_has_key d \<and>
              d_key_schema_path d = ref_schema_path ref \<and> d_key_owner d = ref_table ref)
            (wh @ ''must reference an identified key of a table in the same schema'')) (\<lambda>_.
          bindE (require_identifier wh (ref_table ref) ''referenced table'') (\<lambda>_.
          bindE (require_identifier wh (ref_constraint_id ref) ''referenced constraint id'') (\<lambda>_.
          bindE (valid_if (length (ref_columns ref) = length (v_columns (d_view d)))
            (wh @ ''local and referenced column counts differ'')) (\<lambda>_.
          bindE (eachE (\<lambda>p. valid_if (length p = 1) (wh @ ''referenced column paths must be top-level'')) (ref_columns ref)) (\<lambda>_.
          bindE (valid_if (d_match d = ''SIMPLE'') (wh @ ''must be MATCH SIMPLE'')) (\<lambda>_.
          eachE (\<lambda>action. valid_if (action = ''NO_ACTION'' \<or> action = ''RESTRICT'')
            (wh @ ''uses referential action '' @ action @ ''; DuckDB reads only NO_ACTION and RESTRICT''))
            [d_on_update d, d_on_delete d])))))))"

definition check_sql_check :: "(ctype \<Rightarrow> string) \<Rightarrow> string \<Rightarrow> cfield list \<Rightarrow> decoded \<Rightarrow> constraint_error + unit" where
  "check_sql_check show_type wh cols d =
     bindE (valid_if (d_check_profile d = SCALAR_EXPRESSION_READ)
       (wh @ ''CHECK expression profile must be '' @ SCALAR_EXPRESSION_READ)) (\<lambda>_.
     bindE (valid_if (d_check_schema_path d = v_schema_path (d_view d)) (wh @ ''CHECK expression belongs to another schema'')) (\<lambda>_.
     bindE (valid_if (d_default_context d)
       (wh @ ''CHECK requires the default evaluation context (UTC, binary, asc, nulls_last, preserve_insertion_order)'')) (\<lambda>_.
     case v_check_sql (d_view d) of
       None \<Rightarrow> Inl UndefinedRead
     | Some sql \<Rightarrow>
         (case validate_numeric_check show_type sql cols of
            Inr u \<Rightarrow> Inr u
          | Inl (Refused m) \<Rightarrow> Inl (Invalid (wh @ ''CHECK ('' @ sql @ ''): '' @ m))
          | Inl OutOfFuel \<Rightarrow> Inl CheckFuel))))"

definition check_kind ::
    "(ctype \<Rightarrow> string) \<Rightarrow> string \<Rightarrow> cfield list \<Rightarrow> decoded \<Rightarrow> check_state \<Rightarrow> constraint_error + check_state" where
  "check_kind show_type wh cols d st =
     (let r = d_view d in
      case v_kind r of
        NotNull \<Rightarrow> bindE (check_not_null wh cols (v_columns r)) (\<lambda>_. Inr st)
      | Check \<Rightarrow> bindE (check_sql_check show_type wh cols d) (\<lambda>_. Inr st)
      | kind \<Rightarrow>
          bindE (check_key_columns wh cols kind (v_columns r)) (\<lambda>_.
          bindE (valid_if (\<not> (kind = PrimaryKey \<and> primary st)) (wh @ ''is a second PRIMARY_KEY; a table has at most one'')) (\<lambda>_.
          let st' = (if kind = PrimaryKey then st\<lparr>primary := True\<rparr> else st) in
          if kind \<noteq> ForeignKey then Inr st'
          else bindE (check_reference wh d) (\<lambda>_. Inr st'))))"

definition check_record ::
    "(ctype \<Rightarrow> string) \<Rightarrow> path option \<Rightarrow> string \<Rightarrow> string \<Rightarrow> cfield list \<Rightarrow> decoded \<Rightarrow> check_state \<Rightarrow> constraint_error + check_state" where
  "check_record show_type owner_schema owner pre cols d st =
     (let r = d_view d; wh = where_text pre (v_id r) in
      bindE (check_owner owner_schema owner wh r) (\<lambda>_.
      bindE (valid_if (v_id r \<notin> ids st) (wh @ ''duplicates another constraint id'')) (\<lambda>_.
      bindE (check_label wh (v_declared_name r) (st\<lparr>ids := insert (v_id r) (ids st)\<rparr>)) (\<lambda>st.
      bindE (check_state_of pre r) (\<lambda>_.
      bindE (check_paths wh (v_columns r)) (\<lambda>_.
      check_kind show_type wh cols d st))))))"

fun check_records ::
    "(ctype \<Rightarrow> string) \<Rightarrow> path option \<Rightarrow> string \<Rightarrow> string \<Rightarrow> cfield list \<Rightarrow> decoded list \<Rightarrow> check_state \<Rightarrow> constraint_error + check_state" where
  "check_records show_type owner_schema owner pre cols [] st = Inr st"
| "check_records show_type owner_schema owner pre cols (d # ds) st =
     bindE (check_record show_type owner_schema owner pre cols d st)
       (check_records show_type owner_schema owner pre cols ds)"

subsection \<open>The checks on a table\<close>

text \<open>Only \<^verbatim>\<open>std::invalid_argument\<close> gets the name of the table; what an accessor throws passes.\<close>

definition refail :: "string \<Rightarrow> constraint_error + 'a \<Rightarrow> constraint_error + 'a" where
  "refail pre r = (case r of Inl (Invalid m) \<Rightarrow> Inl (Invalid (pre @ m)) | _ \<Rightarrow> r)"

definition record_bytes_limit :: nat where
  "record_bytes_limit = 8 * 1024 * 1024"

fun decode_all ::
    "(bytes \<Rightarrow> wire_error + batch option) \<Rightarrow> (wire_error \<Rightarrow> string) \<Rightarrow> string \<Rightarrow> nat \<Rightarrow> bytes list \<Rightarrow> constraint_error + decoded list" where
  "decode_all ipc what_text pre so_far [] = Inr []"
| "decode_all ipc what_text pre so_far (bs # rest) =
     (let total' = so_far + length bs in
      bindE (valid_if (bs \<noteq> [] \<and> total' \<le> record_bytes_limit)
        (pre @ ''constraint records must be nonempty and total at most 8 MiB'')) (\<lambda>_.
      bindE (refail pre (decode_constraint_record ipc what_text bs)) (\<lambda>d.
      bindE (decode_all ipc what_text pre total' rest) (\<lambda>ds. Inr (d # ds)))))"

definition empty_state :: check_state where
  "empty_state = \<lparr>ids = {}, labels = {}, primary = False\<rparr>"

definition table_prefix :: "string \<Rightarrow> string" where
  "table_prefix display = ''Table '' @ between_quotes display @ '': ''"

definition validate_records ::
    "(bytes \<Rightarrow> wire_error + batch option) \<Rightarrow> (wire_error \<Rightarrow> string) \<Rightarrow> (ctype \<Rightarrow> string) \<Rightarrow> path option \<Rightarrow> string \<Rightarrow> string \<Rightarrow>
     cfield list \<Rightarrow> bytes list \<Rightarrow> constraint_error + unit" where
  "validate_records ipc what_text show_type owner_schema owner display raw_columns constraints =
     (let pre = table_prefix display in
      bindE (valid_if (length constraints \<le> 1024) (pre @ ''more than 1024 constraint records'')) (\<lambda>_.
      bindE (decode_all ipc what_text pre 0 constraints) (\<lambda>records.
      let cols = serve_schema raw_columns (required_paths records) in
      bindE (check_records show_type owner_schema owner pre cols records empty_state) (\<lambda>_.
      walk pre (required_paths records) cols []))))"

definition served_columns ::
    "(bytes \<Rightarrow> wire_error + batch option) \<Rightarrow> (wire_error \<Rightarrow> string) \<Rightarrow> cfield list \<Rightarrow> bytes list \<Rightarrow> constraint_error + cfield list" where
  "served_columns ipc what_text cols constraints =
     bindE (mapE (decode_constraint_record ipc what_text) constraints) (\<lambda>records.
     Inr (serve_schema cols (required_paths records)))"

definition validate_constraint_records ::
    "(bytes \<Rightarrow> wire_error + batch option) \<Rightarrow> (wire_error \<Rightarrow> string) \<Rightarrow> (ctype \<Rightarrow> string) \<Rightarrow> path \<Rightarrow> string \<Rightarrow>
     cfield list \<Rightarrow> bytes list \<Rightarrow> constraint_error + unit" where
  "validate_constraint_records ipc what_text show_type schema_path table cols constraints =
     validate_records ipc what_text show_type (Some schema_path) table (path_string schema_path @ ''.'' @ table) cols constraints"

definition validate_unowned_records ::
    "(bytes \<Rightarrow> wire_error + batch option) \<Rightarrow> (wire_error \<Rightarrow> string) \<Rightarrow> (ctype \<Rightarrow> string) \<Rightarrow> string \<Rightarrow>
     cfield list \<Rightarrow> bytes list \<Rightarrow> constraint_error + unit" where
  "validate_unowned_records ipc what_text show_type table cols constraints =
     validate_records ipc what_text show_type None [] table cols constraints"

end
