(* ===== verification/Catalog_Contents.thy ===== *)
theory Catalog_Contents
  imports Constraint_Checks Crypto
begin

section \<open>The whole contents of a catalog in one answer\<close>

text \<open>
  \<^verbatim>\<open>src/src/catalog_contents.cpp\<close> with \<^verbatim>\<open>concat_ipc\<close> of \<^verbatim>\<open>src/src/wire.cpp\<close>: the rules on the snapshot a catalog or its
  handler gives, the order it is served in, the tag that lets a client keep what it has, and the
  payload. The library calls are the record \<open>catalog_library\<close>: Arrow's stream reader and writer for
  batches and schemas, and SHA-256.
\<close>

record catalog_library =
  k_ipc :: "bytes \<Rightarrow> wire_error + batch option"
  k_what :: "wire_error \<Rightarrow> string"
  k_show_type :: "ctype \<Rightarrow> string"
  k_encode :: "batch \<Rightarrow> bytes"
  k_stream :: "batch list \<Rightarrow> bytes"
  k_schema :: "bytes \<Rightarrow> wire_error + cfield list"
  k_schema_bytes :: "cfield list \<Rightarrow> bytes"
  k_sha256 :: "bytes \<Rightarrow> bytes"

subsection \<open>Paths\<close>

fun path_key :: "path \<Rightarrow> string" where
  "path_key [] = []"
| "path_key [p] = p"
| "path_key (p # q # ps) = p @ NUL # path_key (q # ps)"

fun path_display :: "path \<Rightarrow> string" where
  "path_display [] = []"
| "path_display [p] = p"
| "path_display (p # q # ps) = p @ CHR ''.'' # path_display (q # ps)"

record schema_contents =
  sc_path :: path
  sc_schema :: bytes
  sc_tables :: "bytes list"
  sc_views :: "bytes list"
  sc_scalar_functions :: "bytes list"
  sc_aggregate_functions :: "bytes list"
  sc_table_functions :: "bytes list"
  sc_scalar_macros :: "bytes list"
  sc_table_macros :: "bytes list"
  sc_indexes :: "bytes list"

record contents_result =
  cr_schemas :: "schema_contents list"
  cr_etag :: "string option"
  cr_not_modified :: bool

record contents_call =
  cc_catalog_name :: string
  cc_catalog_version :: int
  cc_if_none_match :: "string option"
  cc_contents :: "constraint_error + schema_contents list"

datatype etag_mode = NoEtag | ContentHash

type_synonym contents_handler = "contents_call \<Rightarrow> constraint_error + contents_result"
type_synonym collections = "bytes option list"

definition check_item_path :: "catalog_library \<Rightarrow> schema_contents \<Rightarrow> constraint_error + unit" where
  "check_item_path lib s =
     bindE (wire (decode_ipc (k_ipc lib) (sc_schema s))) (\<lambda>info.
     bindE (if info = None then Inr False
            else bindE (wire (get_schema_path info ''path'')) (\<lambda>p. Inr (p = sc_path s))) (\<lambda>same.
     valid_if same (''catalog_contents schema path '' @ path_display (sc_path s) @ '' does not match its SchemaInfo.path'')))"

fun check_keys :: "catalog_library \<Rightarrow> bool \<Rightarrow> string set \<Rightarrow> schema_contents list \<Rightarrow> constraint_error + string set" where
  "check_keys lib verify_items keys [] = Inr keys"
| "check_keys lib verify_items keys (s # rest) =
     bindE (valid_if (sc_path s \<noteq> []) ''catalog_contents returned a schema with an empty path'') (\<lambda>_.
     bindE (valid_if (path_key (sc_path s) \<notin> keys)
       (''catalog_contents returned duplicate schema path '' @ path_display (sc_path s))) (\<lambda>_.
     bindE (if verify_items then check_item_path lib s else Inr ()) (\<lambda>_.
     check_keys lib verify_items (insert (path_key (sc_path s)) keys) rest)))"

definition check_schema_paths :: "catalog_library \<Rightarrow> schema_contents list \<Rightarrow> bool \<Rightarrow> constraint_error + unit" where
  "check_schema_paths lib schemas verify_items =
     bindE (check_keys lib verify_items {} schemas) (\<lambda>keys.
     eachE (\<lambda>s. valid_if (length (sc_path s) < 2 \<or> path_key (butlast (sc_path s)) \<in> keys)
       (''catalog_contents returned schema '' @ path_display (sc_path s) @ '' without its parent '' @
        path_display (butlast (sc_path s)))) schemas)"

definition sort_parents_first :: "schema_contents list \<Rightarrow> schema_contents list" where
  "sort_parents_first schemas = sort_key (\<lambda>s. length (sc_path s)) schemas"

subsection \<open>Tables a handler encoded\<close>

text \<open>
  \<^verbatim>\<open>SetColumn\<close> at the index of a name, with the field that stands there: without the name the code reads a
  field at index -1, and Arrow refuses an array of another type than the field's.
\<close>

definition set_column :: "batch \<Rightarrow> string \<Rightarrow> arr \<Rightarrow> constraint_error + batch" where
  "set_column b name a =
     (case GetFieldIndex (map fst (columns b)) name of
        None \<Rightarrow> Inl UndefinedRead
      | Some i \<Rightarrow>
          if field_type (fst (columns b ! i)) \<noteq> arr_type a then Inl (Runtime ''SetColumn'')
          else Inr (b\<lparr>columns := (columns b)[i := (fst (columns b ! i), a)]\<rparr>))"

definition serve_table_item :: "catalog_library \<Rightarrow> bytes \<Rightarrow> constraint_error + bytes" where
  "serve_table_item lib item =
     bindE (wire (decode_ipc (k_ipc lib) item)) (\<lambda>decoded.
     case decoded of
       None \<Rightarrow> Inl (Invalid ''catalog_contents returned a malformed TableInfo'')
     | Some info \<Rightarrow>
         bindE (valid_if (num_rows info = 1) ''catalog_contents returned a malformed TableInfo'') (\<lambda>_.
         bindE (wire (get_schema_path (Some info) ''schema_path'')) (\<lambda>schema_path.
         bindE (wire (get_string (Some info) ''name'')) (\<lambda>name.
         bindE (wire (get_binary (Some info) ''columns'')) (\<lambda>columns_bytes.
         if columns_bytes = [] then Inr item
         else
           bindE (wire (get_binary_list (Some info) ''constraints'')) (\<lambda>constraints.
           bindE (wire (k_schema lib columns_bytes)) (\<lambda>cols.
           bindE (validate_constraint_records (k_ipc lib) (k_what lib) (k_show_type lib) schema_path name cols constraints) (\<lambda>_.
           bindE (served_columns (k_ipc lib) (k_what lib) cols constraints) (\<lambda>served.
           if served = cols then Inr item
           else bindE (set_column info ''columns'' (one TBinary (VText (k_schema_bytes lib served)))) (\<lambda>replaced.
             Inr (k_encode lib replaced)))))))))))"

subsection \<open>Collections\<close>

text \<open>\<^verbatim>\<open>concat_ipc\<close>: the writer takes the schema of the first batch, and refuses a batch with another one.\<close>

fun concat_loop :: "(bytes \<Rightarrow> wire_error + batch option) \<Rightarrow> batch list \<Rightarrow> bytes list \<Rightarrow> constraint_error + batch list" where
  "concat_loop ipc written [] = Inr written"
| "concat_loop ipc written (item # rest) =
     bindE (wire (decode_ipc ipc item)) (\<lambda>decoded.
     case decoded of
       None \<Rightarrow> Inl (Runtime ''concatenating IPC: an item has no batch'')
     | Some b \<Rightarrow>
         if written \<noteq> [] \<and> map fst (columns b) \<noteq> map fst (columns (hd written))
         then Inl (Runtime ''writing a concatenated IPC batch'')
         else concat_loop ipc (written @ [b]) rest)"

definition concat_ipc :: "catalog_library \<Rightarrow> bytes list list \<Rightarrow> constraint_error + bytes option" where
  "concat_ipc lib groups =
     bindE (concat_loop (k_ipc lib) [] (concat groups)) (\<lambda>written.
     Inr (if written = [] then None else Some (k_stream lib written)))"

definition kCollectionNames :: "string list" where
  "kCollectionNames = [''schemas'', ''tables'', ''views'', ''functions'', ''macros'', ''indexes'']"

definition collection_groups :: "schema_contents list \<Rightarrow> bytes list list list" where
  "collection_groups schemas =
     [[map sc_schema schemas], map sc_tables schemas, map sc_views schemas,
      concat (map (\<lambda>s. [sc_scalar_functions s, sc_aggregate_functions s, sc_table_functions s]) schemas),
      concat (map (\<lambda>s. [sc_scalar_macros s, sc_table_macros s]) schemas), map sc_indexes schemas]"

definition encode_collections :: "catalog_library \<Rightarrow> schema_contents list \<Rightarrow> constraint_error + collections" where
  "encode_collections lib schemas = mapE (concat_ipc lib) (collection_groups schemas)"

text \<open>What is hashed: the prefix, then per collection its name, a presence byte, the length and the bytes.\<close>

definition framed :: "string \<times> bytes option \<Rightarrow> bytes" where
  "framed c = fst c @ NUL # (case snd c of None \<Rightarrow> [NUL] | Some d \<Rightarrow> CHR 0x01 # le_bytes 8 (length d) @ d)"

definition digest_input :: "collections \<Rightarrow> bytes" where
  "digest_input cs = ''vgi.catalog.contents.2.2'' @ NUL # concat (map framed (zip kCollectionNames cs))"

definition collections_digest :: "catalog_library \<Rightarrow> collections \<Rightarrow> string" where
  "collections_digest lib cs = hex (k_sha256 lib (digest_input cs))"

definition catalog_contents_digest :: "catalog_library \<Rightarrow> schema_contents list \<Rightarrow> constraint_error + string" where
  "catalog_contents_digest lib schemas =
     bindE (encode_collections lib (sort_parents_first schemas)) (\<lambda>cs. Inr (collections_digest lib cs))"

subsection \<open>The answer\<close>

record contents_answer =
  a_result :: contents_result
  a_collections :: collections

definition no_collections :: collections where
  "no_collections = replicate 6 None"

definition not_modified :: "string \<Rightarrow> contents_answer" where
  "not_modified etag =
     \<lparr>a_result = \<lparr>cr_schemas = [], cr_etag = Some etag, cr_not_modified = True\<rparr>, a_collections = no_collections\<rparr>"

definition serve_tables :: "catalog_library \<Rightarrow> schema_contents \<Rightarrow> constraint_error + schema_contents" where
  "serve_tables lib s = bindE (mapE (serve_table_item lib) (sc_tables s)) (\<lambda>ts. Inr (s\<lparr>sc_tables := ts\<rparr>))"

definition matches :: "string option \<Rightarrow> string option \<Rightarrow> bool" where
  "matches etag if_none_match \<longleftrightarrow> etag \<noteq> None \<and> if_none_match \<noteq> None \<and> etag = if_none_match"

definition answer_catalog_contents ::
    "catalog_library \<Rightarrow> contents_handler option \<Rightarrow> etag_mode \<Rightarrow> contents_call \<Rightarrow> constraint_error + contents_answer" where
  "answer_catalog_contents lib handler mode call =
     bindE (case handler of
        Some h \<Rightarrow> h call
      | None \<Rightarrow> bindE (cc_contents call) (\<lambda>ss. Inr \<lparr>cr_schemas = ss, cr_etag = None, cr_not_modified = False\<rparr>)) (\<lambda>result.
     if cr_not_modified result then
       bindE (valid_if (matches (cr_etag result) (cc_if_none_match call))
         ''catalog_contents returned not_modified, but only a catalog whose etag equals if_none_match may (and it must return that etag)'') (\<lambda>_.
       bindE (valid_if (cr_schemas result = []) ''catalog_contents returned not_modified with schemas; it must return none'') (\<lambda>_.
       Inr (not_modified (the (cr_etag result)))))
     else
       bindE (check_schema_paths lib (cr_schemas result) (handler \<noteq> None)) (\<lambda>_.
       bindE (if handler \<noteq> None then mapE (serve_tables lib) (cr_schemas result) else Inr (cr_schemas result)) (\<lambda>tables.
       let schemas = sort_parents_first tables in
       if matches (cr_etag result) (cc_if_none_match call) then Inr (not_modified (the (cr_etag result)))
       else
         bindE (encode_collections lib schemas) (\<lambda>cs.
         if cr_etag result = None \<and> mode = ContentHash then
           (let etag = collections_digest lib cs in
            if matches (Some etag) (cc_if_none_match call) then Inr (not_modified etag)
            else Inr \<lparr>a_result = result\<lparr>cr_schemas := schemas, cr_etag := Some etag\<rparr>, a_collections = cs\<rparr>)
         else Inr \<lparr>a_result = result\<lparr>cr_schemas := schemas\<rparr>, a_collections = cs\<rparr>))))"

definition CatalogContentsResultSchema :: "field list" where
  "CatalogContentsResultSchema = [Field ''catalog_version'' TInt64 False, Field ''etag'' TString True,
     Field ''not_modified'' TBool False, Field ''schemas'' TBinary True, Field ''tables'' TBinary True,
     Field ''views'' TBinary True, Field ''functions'' TBinary True, Field ''macros'' TBinary True,
     Field ''indexes'' TBinary True]"

definition encode_catalog_contents :: "int \<Rightarrow> contents_answer \<Rightarrow> constraint_error + batch" where
  "encode_catalog_contents version answer =
     build_record CatalogContentsResultSchema
       ([set_int64 ''catalog_version'' version, set_optional_string ''etag'' (cr_etag (a_result answer)),
         set_bool ''not_modified'' (cr_not_modified (a_result answer))] @
        map (\<lambda>(name, c). set_optional_binary name c) (zip kCollectionNames (a_collections answer)))"

end
