(* ===== verification/Contents_Properties.thy ===== *)
theory Contents_Properties
  imports Catalog_Contents
begin

section \<open>What an answer with the contents of a catalog guarantees\<close>

text \<open>
  An answer without contents is given only to a client that already has them; an answer with contents
  has nonempty, distinct paths, every parent, and lists parents first; and the hashed text determines the
  six collections.
\<close>

lemma check_keys_Inr:
  "check_keys lib verify keys ss = Inr keys' \<Longrightarrow> (\<forall>s \<in> set ss. sc_path s \<noteq> []) \<and>
     distinct (map (path_key \<circ> sc_path) ss) \<and> set (map (path_key \<circ> sc_path) ss) \<inter> keys = {} \<and>
     keys' = keys \<union> set (map (path_key \<circ> sc_path) ss)"
proof (induction ss arbitrary: keys)
  case (Cons s rest)
  then have head: "sc_path s \<noteq> []" "path_key (sc_path s) \<notin> keys"
    and rest: "check_keys lib verify (insert (path_key (sc_path s)) keys) rest = Inr keys'"
    by auto
  from Cons.IH [OF rest] head show ?case by auto
qed simp

definition paths_valid :: "path list \<Rightarrow> bool" where
  "paths_valid ps \<longleftrightarrow> [] \<notin> set ps \<and> distinct (map path_key ps) \<and>
     (\<forall>p \<in> set ps. length p < 2 \<or> path_key (butlast p) \<in> path_key ` set ps)"

lemma check_schema_paths_valid:
  assumes "check_schema_paths lib ss verify = Inr ()"
  shows "paths_valid (map sc_path ss)"
proof -
  from assms obtain keys where k: "check_keys lib verify {} ss = Inr keys"
    "\<forall>s \<in> set ss. length (sc_path s) < 2 \<or> path_key (butlast (sc_path s)) \<in> keys"
    by (auto simp: check_schema_paths_def)
  from check_keys_Inr [OF k(1)] k(2) show ?thesis by (auto simp: paths_valid_def image_image)
qed

lemma serve_tables_path: "serve_tables lib s = Inr s' \<Longrightarrow> sc_path s' = sc_path s"
  by (auto simp: serve_tables_def)

lemma mapE_serve_tables: "mapE (serve_tables lib) ss = Inr ss' \<Longrightarrow> map sc_path ss' = map sc_path ss"
  by (induction ss arbitrary: ss') (auto dest: serve_tables_path)

lemma paths_valid_sorted:
  assumes "paths_valid (map sc_path ss)"
  shows "paths_valid (map sc_path (sort_parents_first ss))"
proof -
  have "distinct (map (path_key \<circ> sc_path) (sort_parents_first ss))"
    using assms by (simp add: paths_valid_def sort_parents_first_def distinct_map)
  with assms show ?thesis by (simp add: paths_valid_def sort_parents_first_def)
qed

lemma parents_sorted: "sorted (map length (map sc_path (sort_parents_first ss)))"
  using sorted_sort_key [of "\<lambda>s. length (sc_path s)" ss] by (simp add: sort_parents_first_def comp_def)


subsection \<open>The hashed text\<close>

definition fits64 :: "bytes option \<Rightarrow> bool" where
  "fits64 c \<longleftrightarrow> (case c of None \<Rightarrow> True | Some d \<Rightarrow> length d < 2 ^ 64)"

lemma collection_inject:
  assumes "framed (n, c) @ xs = framed (n, d) @ ys" "fits64 c" "fits64 d"
  shows "c = d \<and> xs = ys"
proof (cases c)
  case None
  with assms show ?thesis by (cases d) (simp_all add: framed_def)
next
  case (Some a)
  note c = this
  with assms(1) obtain b where d: "d = Some b" by (cases d) (simp_all add: framed_def)
  with c assms(1) have eq: "le_bytes 8 (length a) @ a @ xs = le_bytes 8 (length b) @ b @ ys" by (simp add: framed_def)
  then have "le_bytes 8 (length a) = le_bytes 8 (length b)" "a @ xs = b @ ys"
    using append_eq_append_conv [of "le_bytes 8 (length a)" "le_bytes 8 (length b)"] by simp_all
  moreover from this(1) have "length a = length b"
    using assms(2,3) c d le_bytes_inject [of "length a" 8 "length b"] by (simp add: fits64_def)
  ultimately show ?thesis using c d by simp
qed

lemma framed_all_inject:
  assumes "length cs = length names" "length ds = length names" "list_all fits64 cs" "list_all fits64 ds"
    and "concat (map framed (zip names cs)) = concat (map framed (zip names ds))"
  shows "cs = ds"
  using assms
proof (induction names arbitrary: cs ds)
  case (Cons n names)
  then obtain c cs' d ds' where cd: "cs = c # cs'" "ds = d # ds'" by (metis length_Suc_conv)
  with Cons.prems(5) have "framed (n, c) @ concat (map framed (zip names cs')) = framed (n, d) @ concat (map framed (zip names ds'))"
    by simp
  with collection_inject [OF this] Cons.prems Cons.IH [of cs' ds'] cd show ?case by simp
qed simp

text \<open>
  The text that is hashed for a tag determines what is served: two sets of six collections, each absent or
  shorter than \<^verbatim>\<open>2^64\<close> bytes, have the same text only if they are equal. A tag can only repeat for other contents
  if the hash collides.
\<close>

theorem digest_input_inject:
  assumes "length cs = 6" "length ds = 6" "list_all fits64 cs" "list_all fits64 ds"
  shows "digest_input cs = digest_input ds \<longleftrightarrow> cs = ds"
  using framed_all_inject [of cs kCollectionNames ds] assms by (auto simp: digest_input_def kCollectionNames_def)

theorem digest_input_inject_witness:
  "digest_input [Some ''ab'', None, None, None, None, None] \<noteq> digest_input [Some ''a'', Some ''b'', None, None, None, None]"
proof -
  have "list_all fits64 [Some ''ab'', None, None, None, None, None]" "list_all fits64 [Some ''a'', Some ''b'', None, None, None, None]"
    by (simp_all add: fits64_def)
  from digest_input_inject [OF _ _ this] show ?thesis by simp
qed

definition bare_library :: catalog_library where
  "bare_library = \<lparr>k_ipc = (\<lambda>bs. Inl (IpcError bs)), k_what = (\<lambda>_. []), k_show_type = (\<lambda>_. []), k_encode = (\<lambda>_. []),
     k_stream = (\<lambda>_. []), k_schema = (\<lambda>bs. Inl (IpcError bs)), k_schema_bytes = (\<lambda>_. []), k_sha256 = (\<lambda>b. b)\<rparr>"


end
