(* ===== verification/Constraint_Properties.thy ===== *)
theory Constraint_Properties
  imports Constraint_Checks Sql_Total Wire_Properties
begin

section \<open>What the constraint checks guarantee\<close>

text \<open>
  The served schema is non-nullable exactly where a record says so; a table is accepted exactly
  when its records, taken together and in any order, keep the rules the header of
  \<^verbatim>\<open>constraints.h\<close> states; a record that was built is read back; and the one read of an absent value.
\<close>

subsection \<open>Nullability of the served schema\<close>

text \<open>The columns a path can name: top-level columns other than the row id, and members of ordinary structs.\<close>

inductive column_at :: "cfield list \<Rightarrow> path \<Rightarrow> cfield \<Rightarrow> bool" for cols where
  top: "f \<in> set cols \<Longrightarrow> \<not> row_id f \<Longrightarrow> column_at cols [c_name f] f"
| member: "column_at cols p f \<Longrightarrow> ordinary_struct_children f = Some cs \<Longrightarrow> c \<in> set cs \<Longrightarrow>
    column_at cols (p @ [c_name c]) c"

lemma serve_field_simps [simp]:
  "c_name (serve_field req p f) = c_name f" "c_metadata (serve_field req p f) = c_metadata f"
  "c_nullable (serve_field req p f) \<longleftrightarrow> p \<notin> req"
  by (simp_all add: serve_field.simps)

lemma row_id_served [simp]: "row_id (serve_field req p f) = row_id f"
  by (simp add: row_id_def has_key_def)

lemma served_children [simp]:
  "ordinary_struct_children (serve_field req p f) =
     map_option (map (\<lambda>c. serve_field req (p @ [c_name c]) c)) (ordinary_struct_children f)"
  by (subst serve_field.simps)
    (cases f; auto simp: ordinary_struct_children_def split: ctype.splits option.splits)

lemma column_at_served:
  assumes "column_at (serve_schema cols req) p f"
  shows "\<exists>g. f = serve_field req p g"
  using assms
proof induction
  case (top f)
  then show ?case by (auto simp: serve_schema_def split: if_splits)
next
  case (member p f cs c)
  then show ?case by (auto intro: exI [where x = c]) blast
qed

lemma walk_member:
  assumes "walk pre req cols parent = Inr ()" "f \<in> set cols" "\<not> (parent = [] \<and> row_id f)"
  shows "c_nullable f = (parent @ [c_name f] \<notin> req) \<and>
    (\<forall>cs. ordinary_struct_children f = Some cs \<longrightarrow> walk pre req cs (parent @ [c_name f]) = Inr ())"
proof -
  from assms(1) have "\<forall>f \<in> set cols. (if parent = [] \<and> row_id f then Inr () else
      bindE (valid_if (c_nullable f = (parent @ [c_name f] \<notin> req))
           (pre @ ''column '' @ path_string (parent @ [c_name f]) @
            '' nullability disagrees with its NOT_NULL/PRIMARY_KEY records'')) (\<lambda>_.
         case ordinary_struct_children f of
           None \<Rightarrow> Inr ()
         | Some children \<Rightarrow> walk pre req children (parent @ [c_name f]))) = Inr ()"
    by (subst (asm) walk.simps) simp
  with assms(2,3) show ?thesis by auto
qed

lemma walk_column_at:
  assumes "walk pre req cols [] = Inr ()" "column_at cols p f"
  shows "c_nullable f = (p \<notin> req) \<and> (\<forall>cs. ordinary_struct_children f = Some cs \<longrightarrow> walk pre req cs p = Inr ())"
  using assms(2)
proof induction
  case (top f)
  then show ?case using walk_member [OF assms(1)] by fastforce
next
  case (member p f cs c)
  have "p \<noteq> []" using member(1) by (cases rule: column_at.cases) auto
  moreover have "walk pre req cs p = Inr ()" using member by blast
  ultimately show ?case using walk_member [of pre req cs p c] member(3) by blast
qed

lemma walk_intro:
  assumes "\<And>f. f \<in> set cols \<Longrightarrow> \<not> (parent = [] \<and> row_id f) \<Longrightarrow> c_nullable f = (parent @ [c_name f] \<notin> req) \<and>
    (\<forall>cs. ordinary_struct_children f = Some cs \<longrightarrow> walk pre req cs (parent @ [c_name f]) = Inr ())"
  shows "walk pre req cols parent = Inr ()"
  by (subst walk.simps) (auto simp: valid_if_def split: option.splits dest!: assms)

lemma walk_served_field:
  "walk pre req (map (\<lambda>c. serve_field req (p @ [c_name c]) c) cs) p = Inr ()" if "p \<noteq> []"
  using that
proof (induction "size_list size cs" arbitrary: p cs rule: less_induct)
  case less
  show ?case
  proof (rule walk_intro)
    fix f assume "f \<in> set (map (\<lambda>c. serve_field req (p @ [c_name c]) c) cs)"
    then obtain c where c: "c \<in> set cs" "f = serve_field req (p @ [c_name c]) c" by auto
    have "walk pre req ds (p @ [c_name f]) = Inr ()" if "ordinary_struct_children f = Some ds" for ds
    proof -
      from that c obtain es where es: "ordinary_struct_children c = Some es"
        "ds = map (\<lambda>x. serve_field req ((p @ [c_name c]) @ [c_name x]) x) es" by auto
      have "size_list size es < size c" using ordinary_struct_type [OF es(1)] by (cases c) simp
      also have "size c \<le> size_list size cs" using c(1) by (simp add: size_list_estimation')
      finally show ?thesis using less(1) [of es "p @ [c_name c]"] es(2) c(2) by simp
    qed
    then show "c_nullable f = (p @ [c_name f] \<notin> req) \<and>
      (\<forall>ds. ordinary_struct_children f = Some ds \<longrightarrow> walk pre req ds (p @ [c_name f]) = Inr ())"
      using c by simp
  qed
qed

lemma walk_served: "walk pre req (serve_schema cols req) [] = Inr ()"
proof (rule walk_intro)
  fix f assume f: "f \<in> set (serve_schema cols req)" "\<not> ([] = [] \<and> row_id f)"
  then obtain c where c: "f = serve_field req [c_name c] c"
    by (auto simp: serve_schema_def split: if_splits)
  have "walk pre req ds ([] @ [c_name f]) = Inr ()" if "ordinary_struct_children f = Some ds" for ds
    using that c walk_served_field [of "[c_name c]" pre req] by auto
  then show "c_nullable f = ([] @ [c_name f] \<notin> req) \<and>
      (\<forall>ds. ordinary_struct_children f = Some ds \<longrightarrow> walk pre req ds ([] @ [c_name f]) = Inr ())"
    using c by simp
qed

lemma served_type:
  "c_type (serve_field req p f) = (case ordinary_struct_children f of None \<Rightarrow> c_type f
     | Some cs \<Rightarrow> CStruct (map (\<lambda>c. serve_field req (p @ [c_name c]) c) cs))"
  by (subst serve_field.simps) simp

lemma serve_field_idem: "serve_field req p (serve_field req p f) = serve_field req p f"
proof (induction req p f rule: serve_field.induct)
  case (1 req p f)
  then have "c_type (serve_field req p (serve_field req p f)) = c_type (serve_field req p f)"
    by (simp add: served_type [of req p "serve_field req p f"] served_type [of req p f] split: option.splits)
  then show ?case by (intro cfield.expand) simp
qed

lemma serve_schema_idem: "serve_schema (serve_schema cols req) req = serve_schema cols req"
  by (simp add: serve_schema_def serve_field_idem)

subsection \<open>Which tables are accepted\<close>

text \<open>The rules on one record, whatever comes before or after it.\<close>

definition owned :: "path option \<Rightarrow> string \<Rightarrow> constraint_view \<Rightarrow> bool" where
  "owned owner_schema owner r \<longleftrightarrow> identifier_ok (v_id r) \<and> identifier_ok (v_table r) \<and>
     (\<exists>s. v_schema_path r = [s] \<and> identifier_ok s) \<and>
     (\<forall>p. owner_schema = Some p \<longrightarrow> v_schema_path r = p \<and> v_table r = owner)"

definition attested :: "constraint_view \<Rightarrow> bool" where
  "attested r \<longleftrightarrow> v_enforcement r = Enforced \<and> v_validation r = AllRows"

definition paths_ok :: "path list \<Rightarrow> bool" where
  "paths_ok ps \<longleftrightarrow> length ps \<le> 1024 \<and> (\<forall>p \<in> set ps. p \<noteq> [] \<and> length p \<le> 64 \<and> (\<forall>c \<in> set p. identifier_ok c))"

definition key_columns_ok :: "cfield list \<Rightarrow> path list \<Rightarrow> bool" where
  "key_columns_ok cols ps \<longleftrightarrow> (\<forall>p \<in> set ps. \<exists>c f. p = [c] \<and> top_level cols c = Some f)"

definition reference_ok :: "decoded \<Rightarrow> reference \<Rightarrow> bool" where
  "reference_ok d ref \<longleftrightarrow>
     ref_schema_path ref = v_schema_path (d_view d) \<and> d_has_key d \<and> d_key_schema_path d = ref_schema_path ref \<and>
     d_key_owner d = ref_table ref \<and> identifier_ok (ref_table ref) \<and> identifier_ok (ref_constraint_id ref) \<and>
     length (ref_columns ref) = length (v_columns (d_view d)) \<and> (\<forall>p \<in> set (ref_columns ref). length p = 1) \<and>
     d_match d = ''SIMPLE'' \<and> d_on_update d \<in> {''NO_ACTION'', ''RESTRICT''} \<and> d_on_delete d \<in> {''NO_ACTION'', ''RESTRICT''}"

definition kind_ok :: "(ctype \<Rightarrow> string) \<Rightarrow> cfield list \<Rightarrow> decoded \<Rightarrow> bool" where
  "kind_ok show_type cols d \<longleftrightarrow>
     (let r = d_view d in
      case v_kind r of
        NotNull \<Rightarrow> (\<exists>c p. v_columns r = [c # p] \<and> descend (top_level cols c) p \<noteq> None)
      | Check \<Rightarrow> d_check_profile d = SCALAR_EXPRESSION_READ \<and> d_check_schema_path d = v_schema_path r \<and> d_default_context d \<and>
          (\<exists>sql. v_check_sql r = Some sql \<and> validate_numeric_check show_type sql cols = Inr ())
      | ForeignKey \<Rightarrow> key_columns_ok cols (v_columns r) \<and> (\<exists>ref. v_references r = Some ref \<and> reference_ok d ref)
      | _ \<Rightarrow> key_columns_ok cols (v_columns r))"

definition record_ok :: "(ctype \<Rightarrow> string) \<Rightarrow> path option \<Rightarrow> string \<Rightarrow> cfield list \<Rightarrow> decoded \<Rightarrow> bool" where
  "record_ok show_type owner_schema owner cols d \<longleftrightarrow>
     owned owner_schema owner (d_view d) \<and> attested (d_view d) \<and> paths_ok (v_columns (d_view d)) \<and>
     (\<forall>n. v_declared_name (d_view d) = Some n \<longrightarrow> identifier_ok n) \<and> kind_ok show_type cols d"

text \<open>The rules on the records together.\<close>

definition declared_labels :: "decoded list \<Rightarrow> string list" where
  "declared_labels ds = concat (map (\<lambda>d. case v_declared_name (d_view d) of None \<Rightarrow> [] | Some n \<Rightarrow> [lower n]) ds)"

definition primary_keys :: "decoded list \<Rightarrow> decoded list" where
  "primary_keys ds = filter (\<lambda>d. v_kind (d_view d) = PrimaryKey) ds"

definition fresh_in :: "check_state \<Rightarrow> decoded list \<Rightarrow> bool" where
  "fresh_in st ds \<longleftrightarrow>
     distinct (map (\<lambda>d. v_id (d_view d)) ds) \<and> set (map (\<lambda>d. v_id (d_view d)) ds) \<inter> ids st = {} \<and>
     distinct (declared_labels ds) \<and> set (declared_labels ds) \<inter> labels st = {} \<and>
     length (primary_keys ds) + of_bool (primary st) \<le> 1"

lemma check_owner_iff: "check_owner os ow wh r = Inr u \<longleftrightarrow> owned os ow r"
  by (auto simp: check_owner_def owned_def require_identifier_def length_Suc_conv split: option.splits)

lemma check_paths_iff: "check_paths wh ps = Inr u \<longleftrightarrow> paths_ok ps"
  by (auto simp: check_paths_def paths_ok_def require_identifier_def)

lemma check_key_columns_iff: "check_key_columns wh cols k ps = Inr u \<longleftrightarrow> key_columns_ok cols ps"
  by (fastforce simp: check_key_columns_def key_columns_ok_def length_Suc_conv)

lemma check_reference_iff:
  "check_reference wh d = Inr u \<longleftrightarrow> (\<exists>ref. v_references (d_view d) = Some ref \<and> reference_ok d ref)"
  by (auto simp: check_reference_def reference_ok_def require_identifier_def split: option.splits)

lemma check_sql_check_iff:
  "check_sql_check show_type wh cols d = Inr u \<longleftrightarrow>
     d_check_profile d = SCALAR_EXPRESSION_READ \<and> d_check_schema_path d = v_schema_path (d_view d) \<and> d_default_context d \<and>
     (\<exists>sql. v_check_sql (d_view d) = Some sql \<and> validate_numeric_check show_type sql cols = Inr ())"
  by (auto simp: check_sql_check_def split: option.splits sum.splits sql_error.splits)

lemma check_not_null_iff:
  assumes "paths_ok ps"
  shows "check_not_null wh cols ps = Inr u \<longleftrightarrow> (\<exists>c p. ps = [c # p] \<and> descend (top_level cols c) p \<noteq> None)"
proof (cases "length ps = 1")
  case True
  then obtain q where q: "ps = [q]" by (auto simp: length_Suc_conv)
  with assms obtain c p where "q = c # p" by (auto simp: paths_ok_def neq_Nil_conv)
  with q show ?thesis by (simp add: check_not_null_def)
qed (auto simp: check_not_null_def)

lemma check_kind_iff:
  assumes "paths_ok (v_columns (d_view d))"
  shows "check_kind show_type wh cols d st = Inr st' \<longleftrightarrow>
    kind_ok show_type cols d \<and> \<not> (v_kind (d_view d) = PrimaryKey \<and> primary st) \<and>
    st' = (if v_kind (d_view d) = PrimaryKey then st\<lparr>primary := True\<rparr> else st)"
  using check_not_null_iff [OF assms]
  by (cases "v_kind (d_view d)")
    (auto simp: check_kind_def kind_ok_def check_sql_check_iff check_key_columns_iff check_reference_iff Let_def)

lemma check_label_iff:
  "check_label wh lab st = Inr st' \<longleftrightarrow>
     (case lab of None \<Rightarrow> st' = st
      | Some n \<Rightarrow> identifier_ok n \<and> lower n \<notin> labels st \<and> st' = st\<lparr>labels := insert (lower n) (labels st)\<rparr>)"
  by (auto simp: check_label_def require_identifier_def split: option.splits)

lemma check_record_iff:
  "check_record show_type os ow pre cols d st = Inr st' \<longleftrightarrow>
     record_ok show_type os ow cols d \<and> v_id (d_view d) \<notin> ids st \<and>
     set (declared_labels [d]) \<inter> labels st = {} \<and> \<not> (v_kind (d_view d) = PrimaryKey \<and> primary st) \<and>
     st' = \<lparr>ids = insert (v_id (d_view d)) (ids st), labels = set (declared_labels [d]) \<union> labels st,
            primary = (primary st \<or> v_kind (d_view d) = PrimaryKey)\<rparr>"
proof (cases "paths_ok (v_columns (d_view d))")
  case True
  then show ?thesis
    by (cases "v_declared_name (d_view d)")
      (auto simp: check_record_def record_ok_def check_owner_iff check_paths_iff check_label_iff check_kind_iff
        check_state_of_def attested_def declared_labels_def Let_def)
qed (auto simp: check_record_def record_ok_def check_paths_iff Let_def)

lemma fresh_in_Cons:
  "fresh_in st (d # ds) \<longleftrightarrow>
     v_id (d_view d) \<notin> ids st \<and> set (declared_labels [d]) \<inter> labels st = {} \<and>
     \<not> (v_kind (d_view d) = PrimaryKey \<and> primary st) \<and>
     fresh_in \<lparr>ids = insert (v_id (d_view d)) (ids st), labels = set (declared_labels [d]) \<union> labels st,
            primary = (primary st \<or> v_kind (d_view d) = PrimaryKey)\<rparr> ds"
  by (cases "v_declared_name (d_view d)")
    (auto simp: fresh_in_def declared_labels_def primary_keys_def)

lemma check_records_iff:
  "(\<exists>st'. check_records show_type os ow pre cols ds st = Inr st') \<longleftrightarrow>
     (\<forall>d \<in> set ds. record_ok show_type os ow cols d) \<and> fresh_in st ds"
proof (induction ds arbitrary: st)
  case Nil
  show ?case by (simp add: fresh_in_def declared_labels_def primary_keys_def)
next
  case (Cons d ds)
  then show ?case by (auto simp: check_record_iff fresh_in_Cons)
qed

subsection \<open>A built record is read back\<close>

text \<open>The rows \<^verbatim>\<open>constraint_record\<close> writes.\<close>

abbreviation enum_arr :: "string \<Rightarrow> arr" where
  "enum_arr v \<equiv> \<lparr>arr_type = enum_type, arr_cells = [VIndex 0], arr_dictionary = [VText v]\<rparr>"

abbreviation paths_cell :: "path list \<Rightarrow> cell" where
  "paths_cell ps \<equiv> VList (map (\<lambda>p. VList (map VText p)) ps)"

definition row :: "field list \<Rightarrow> arr list \<Rightarrow> batch" where
  "row fs as = \<lparr>columns = zip fs as, num_rows = 1\<rparr>"

definition ref_row :: "string \<Rightarrow> path \<Rightarrow> string \<Rightarrow> string option \<Rightarrow> batch" where
  "ref_row kind schema_path name owner = row CatalogObjectRefSchema
     [one TString (VText kind), one (list_type TString) (VList (map VText schema_path)), one TString (VText name),
      one TString (opt_text owner)]"

definition expression_row :: "string \<Rightarrow> path \<Rightarrow> batch" where
  "expression_row sql schema_path = row SqlExpressionSchema
     [one TString (VText sql), one TString (VText SCALAR_EXPRESSION_READ), one (list_type TString) (VList (map VText schema_path)),
      one (TStruct QueryEvaluationContextSchema)
        (VStruct [VText ''UTC'', VText ''binary'', VText ''asc'', VText ''nulls_last'', VBool True])]"

definition foreign_row :: "bytes \<Rightarrow> path list \<Rightarrow> batch" where
  "foreign_row target paths = row ForeignKeyDefinitionSchema
     [one TBinary (VText target), one (list_type (list_type TString)) (paths_cell paths),
      enum_arr ''SIMPLE'', enum_arr ''NO_ACTION'', enum_arr ''NO_ACTION'']"

definition definition_row :: "string \<Rightarrow> path list \<Rightarrow> string option \<Rightarrow> bytes option \<Rightarrow> bytes option \<Rightarrow> batch" where
  "definition_row kind paths name checked fk = row ConstraintDefinitionSchema
     [enum_arr kind, one (list_type (list_type TString)) (paths_cell paths), one TString (opt_text name),
      one TBinary (opt_text checked), one TBinary (opt_text fk)]"

definition info_row :: "bytes \<Rightarrow> bytes \<Rightarrow> string \<Rightarrow> string \<Rightarrow> bytes option \<Rightarrow> batch" where
  "info_row r d enforced validated key = row ConstraintInfoSchema
     [one TBinary (VText r), one TBinary (VText d), enum_arr enforced, enum_arr validated, one TBinary (opt_text key)]"

lemmas schema_defs = CatalogObjectRefSchema_def QueryEvaluationContextSchema_def SqlExpressionSchema_def
  ForeignKeyDefinitionSchema_def ConstraintDefinitionSchema_def ConstraintInfoSchema_def

lemma check_null_text [simp]:
  "check_null_at (Field n TString True) (VText s) p = Inr ()" "check_null_at (Field n TString nb) (VText s) p = Inr ()"
  "check_null_at (Field n t True) Null p = Inr ()" "check_null_at (Field n TBinary nb) (VText s) p = Inr ()"
  "check_null_at (Field n TBool nb) (VBool b) p = Inr ()" "check_null_at (Field n (TDict i v) nb) (VIndex k) p = Inr ()"
  by (simp_all add: check_null_at.simps)

lemma check_null_strings [simp]:
  "check_null_at (Field n (list_type TString) nb) (VList (map VText vs)) p = Inr ()"
  by (auto simp: check_null_at.simps [of n] mapE_unit)

lemma check_null_paths [simp]:
  "check_null_at (Field n (list_type (list_type TString)) nb) (paths_cell ps) p = Inr ()"
  by (auto simp: check_null_at.simps [of n] mapE_unit)

lemmas build_defs = build_record_def ResultBuilder_def set_string_def set_string_list_def set_string_list_list_def set_plain_def
  field_index_def GetFieldIndex_def put_array_def finish_def check_nulls_def set_enum_def set_binary_def set_bool_def
  set_null_def wire_def Let_def row_def

lemma build_ref:
  "build_record CatalogObjectRefSchema [set_string ''kind'' kind, set_string_list ''schema_path'' schema_path,
     set_string ''name'' name, set_optional_string ''owner_table'' owner] = Inr (ref_row kind schema_path name owner)"
  by (cases owner) (simp_all add: build_defs schema_defs ref_row_def opt_text_def set_optional_string_def)


lemma build_expression:
  "bindE (build_record QueryEvaluationContextSchema
       [set_string ''timezone'' ''UTC'', set_string ''collation'' ''binary'', set_string ''default_order'' ''asc'',
        set_string ''default_null_order'' ''nulls_last'', set_bool ''preserve_insertion_order'' True]) (\<lambda>context.
     build_record SqlExpressionSchema
       [set_string ''sql'' sql, set_string ''profile'' SCALAR_EXPRESSION_READ, set_string_list ''schema_path'' schema_path,
        set_array ''evaluation_context'' (Some (StructArray_Make context))]) = Inr (expression_row sql schema_path)"
  by (simp add: build_defs schema_defs set_array_def StructArray_Make_def expression_row_def
    check_null_at.simps [of "''evaluation_context''"])

lemma build_foreign:
  "build_record ForeignKeyDefinitionSchema
     [set_binary ''referenced_table'' target, set_string_list_list ''referenced_column_paths'' paths,
      set_enum ''match'' ''SIMPLE'', set_enum ''on_update'' ''NO_ACTION'', set_enum ''on_delete'' ''NO_ACTION''] =
   Inr (foreign_row target paths)"
  by (simp add: build_defs schema_defs foreign_row_def)

lemma build_definition:
  "build_record ConstraintDefinitionSchema
     [set_enum ''kind'' kind, set_string_list_list ''column_paths'' paths, set_optional_string ''declared_name'' name,
      set_optional_binary ''check_expression'' checked, set_optional_binary ''foreign_key'' fk] =
   Inr (definition_row kind paths name checked fk)"
  by (cases name; cases checked; cases fk)
    (simp_all add: build_defs schema_defs definition_row_def opt_text_def set_optional_string_def set_optional_binary_def)

lemma build_info:
  "build_record ConstraintInfoSchema
     [set_binary ''ref'' r, set_binary ''definition'' d, set_enum ''enforcement'' e, set_enum ''validation'' v,
      set_optional_binary ''referenced_constraint'' key] = Inr (info_row r d e v key)"
  by (cases key) (simp_all add: build_defs schema_defs info_row_def opt_text_def set_optional_binary_def)


text \<open>What the accessors read from these rows.\<close>

lemma opt_text_Null [simp]: "opt_text v = Null \<longleftrightarrow> v = None"
  by (simp add: opt_text_def split: option.splits)

lemma text_of_opt_text [simp]: "text_of (opt_text (Some s)) = s"
  by (simp add: opt_text_def)

lemmas row_defs = row_def ref_row_def expression_row_def foreign_row_def definition_row_def info_row_def schema_defs
  GetColumnByName_def column_def has_column_def

lemma read_ref:
  "get_string (Some (ref_row kind path name owner)) ''kind'' = Inr kind"
  "get_string (Some (ref_row kind path name owner)) ''name'' = Inr name"
  "get_string_list (Some (ref_row kind path name owner)) ''schema_path'' = Inr path"
  "get_optional_string (Some (ref_row kind path name owner)) ''owner_table'' = Inr owner"
  by (auto simp: row_defs read_defs string_items_VText)

lemma read_paths: "mapE (\<lambda>p. bindE (valid_if (p \<noteq> Null) m) (\<lambda>_.
     mapE (\<lambda>part. bindE (valid_if (part \<noteq> Null) m) (\<lambda>_. Inr (text_of part))) (elements p)))
   (map (\<lambda>p. VList (map VText p)) ps) = Inr ps"
proof -
  have "mapE (\<lambda>part. bindE (valid_if (part \<noteq> Null) m) (\<lambda>_. Inr (text_of part))) (map VText p) = Inr p" for p
    by (induction p) (auto simp: valid_if_def)
  then show ?thesis by (induction ps) (auto simp: valid_if_def)
qed

lemma read_expression:
  "get_string (Some (expression_row sql path)) ''sql'' = Inr sql"
  "get_string (Some (expression_row sql path)) ''profile'' = Inr SCALAR_EXPRESSION_READ"
  "get_string_list (Some (expression_row sql path)) ''schema_path'' = Inr path"
  "bindE (wire (column (Some (expression_row sql path)) ''evaluation_context'')) (\<lambda>a.
     bindE (wire (at0 a)) (\<lambda>c. Inr (default_context a c))) = Inr True"
  by (simp_all add: row_defs read_defs string_items_VText wire_def default_context_def context_child_def)

lemma read_foreign:
  "get_binary (Some (foreign_row target paths)) ''referenced_table'' = Inr target"
  "get_paths (Some (foreign_row target paths)) ''referenced_column_paths'' = Inr paths"
  "get_enum (Some (foreign_row target paths)) ''match'' = Inr ''SIMPLE''"
  "get_enum (Some (foreign_row target paths)) ''on_update'' = Inr ''NO_ACTION''"
  "get_enum (Some (foreign_row target paths)) ''on_delete'' = Inr ''NO_ACTION''"
  by (auto simp: row_defs read_defs get_binary_def get_paths_def read_paths)

lemma read_definition:
  "get_enum (Some (definition_row kind paths name checked fk)) ''kind'' = Inr kind"
  "get_paths (Some (definition_row kind paths name checked fk)) ''column_paths'' = Inr paths"
  "get_optional_string (Some (definition_row kind paths name checked fk)) ''declared_name'' = Inr name"
  "get_optional_binary (Some (definition_row kind paths name checked fk)) ''check_expression'' = Inr checked"
  "get_optional_binary (Some (definition_row kind paths name checked fk)) ''foreign_key'' = Inr fk"
  by (auto simp: row_defs read_defs get_paths_def read_paths)

lemma read_info:
  "get_binary (Some (info_row r d e v key)) ''ref'' = Inr r"
  "get_binary (Some (info_row r d e v key)) ''definition'' = Inr d"
  "get_enum (Some (info_row r d e v key)) ''enforcement'' = Inr e"
  "get_enum (Some (info_row r d e v key)) ''validation'' = Inr v"
  "get_optional_binary (Some (info_row r d e v key)) ''referenced_constraint'' = Inr key"
  by (auto simp: row_defs read_defs get_binary_def)

lemma row_shape:
  "num_rows (ref_row kind path name owner) = 1" "map fst (columns (ref_row kind path name owner)) = CatalogObjectRefSchema"
  "num_rows (expression_row sql path) = 1" "map fst (columns (expression_row sql path)) = SqlExpressionSchema"
  "num_rows (foreign_row target paths) = 1" "map fst (columns (foreign_row target paths)) = ForeignKeyDefinitionSchema"
  "num_rows (definition_row kind paths name' checked fk) = 1"
  "map fst (columns (definition_row kind paths name' checked fk)) = ConstraintDefinitionSchema"
  "num_rows (info_row r d e v key) = 1" "map fst (columns (info_row r d e v key)) = ConstraintInfoSchema"
  by (auto simp: row_defs)


text \<open>The batches one call of \<^verbatim>\<open>constraint_record\<close> encodes, in terms of the encoder.\<close>

definition checked_bytes :: "(batch \<Rightarrow> bytes) \<Rightarrow> constraint_spec \<Rightarrow> bytes option" where
  "checked_bytes enc spec =
     (if cs_kind spec = Check then Some (enc (expression_row (the (cs_check_sql spec)) (cs_schema_path spec))) else None)"

definition target_row :: "reference \<Rightarrow> batch" where
  "target_row r = ref_row ''table'' (ref_schema_path r) (ref_table r) None"

definition key_row :: "reference \<Rightarrow> batch" where
  "key_row r = ref_row ''constraint'' (ref_schema_path r) (ref_constraint_id r) (Some (ref_table r))"

definition foreign_bytes :: "(batch \<Rightarrow> bytes) \<Rightarrow> constraint_spec \<Rightarrow> bytes option" where
  "foreign_bytes enc spec =
     (if cs_kind spec = ForeignKey
      then (let r = the (cs_references spec) in Some (enc (foreign_row (enc (target_row r)) (ref_columns r)))) else None)"

definition key_bytes :: "(batch \<Rightarrow> bytes) \<Rightarrow> constraint_spec \<Rightarrow> bytes option" where
  "key_bytes enc spec = (if cs_kind spec = ForeignKey then Some (enc (key_row (the (cs_references spec)))) else None)"

definition owner_row :: "constraint_spec \<Rightarrow> batch" where
  "owner_row spec = ref_row ''constraint'' (cs_schema_path spec) (cs_id spec) (Some (cs_table spec))"

definition spec_row :: "(batch \<Rightarrow> bytes) \<Rightarrow> constraint_spec \<Rightarrow> batch" where
  "spec_row enc spec = definition_row (the (map_of kKinds (cs_kind spec))) (cs_columns spec) (cs_declared_name spec)
     (checked_bytes enc spec) (foreign_bytes enc spec)"

definition top_row :: "(batch \<Rightarrow> bytes) \<Rightarrow> constraint_spec \<Rightarrow> batch" where
  "top_row enc spec = info_row (enc (owner_row spec)) (enc (spec_row enc spec))
     (the (map_of kEnforcements (the (cs_enforcement spec)))) (the (map_of kValidations (the (cs_validation spec))))
     (key_bytes enc spec)"

definition record_batches :: "(batch \<Rightarrow> bytes) \<Rightarrow> constraint_spec \<Rightarrow> batch list" where
  "record_batches enc spec =
     [owner_row spec, spec_row enc spec, top_row enc spec] @
     (if cs_kind spec = Check then [expression_row (the (cs_check_sql spec)) (cs_schema_path spec)] else []) @
     (if cs_kind spec = ForeignKey
      then (let r = the (cs_references spec) in [target_row r, key_row r, foreign_row (enc (target_row r)) (ref_columns r)])
      else [])"

definition view_of :: "constraint_spec \<Rightarrow> constraint_view" where
  "view_of spec = \<lparr>v_schema_path = cs_schema_path spec, v_table = cs_table spec, v_id = cs_id spec, v_kind = cs_kind spec,
     v_columns = cs_columns spec, v_enforcement = the (cs_enforcement spec), v_validation = the (cs_validation spec),
     v_declared_name = cs_declared_name spec, v_check_sql = cs_check_sql spec, v_references = cs_references spec\<rparr>"

lemma spell_tables:
  "spell kKinds k = Inr (the (map_of kKinds k))" "spell kEnforcements e = Inr (the (map_of kEnforcements e))"
  "spell kValidations v = Inr (the (map_of kValidations v))"
proof -
  show "spell kKinds k = Inr (the (map_of kKinds k))" by (cases k) (simp_all add: spell_def kKinds_def)
  show "spell kEnforcements e = Inr (the (map_of kEnforcements e))" by (cases e) (simp_all add: spell_def kEnforcements_def)
  show "spell kValidations v = Inr (the (map_of kValidations v))" by (cases v) (simp_all add: spell_def kValidations_def)
qed

lemma parse_tables:
  "parse_enum kKinds (the (map_of kKinds k)) w = Inr k" "parse_enum kEnforcements (the (map_of kEnforcements e)) w = Inr e"
  "parse_enum kValidations (the (map_of kValidations v)) w = Inr v"
proof -
  show "parse_enum kKinds (the (map_of kKinds k)) w = Inr k" by (cases k) (simp_all add: kKinds_def)
  show "parse_enum kEnforcements (the (map_of kEnforcements e)) w = Inr e" by (cases e) (simp_all add: kEnforcements_def)
  show "parse_enum kValidations (the (map_of kValidations v)) w = Inr v" by (cases v) (simp_all add: kValidations_def)
qed

lemma object_ref_row: "object_ref enc kind path name owner = Inr (enc (ref_row kind path name owner))"
  by (simp add: object_ref_def build_ref)

lemma check_expression_row: "check_expression enc sql path = Inr (enc (expression_row sql path))"
  using build_expression [of sql path] by (auto simp: check_expression_def simp del: build_record_def)

lemma foreign_key_rows:
  "foreign_key enc r n = Inr x \<Longrightarrow> x = (enc (foreign_row (enc (target_row r)) (ref_columns r)), enc (key_row r))"
  by (auto simp: foreign_key_def object_ref_row build_foreign target_row_def key_row_def)

lemma constraint_record_rows:
  assumes "constraint_record enc spec = Inr bs"
  shows "bs = enc (top_row enc spec) \<and> check_spec spec = Inr ()"
proof -
  from assms have chk: "check_spec spec = Inr ()" by (auto simp: constraint_record_def)
  have fk: "(if cs_kind spec = ForeignKey
      then bindE (foreign_key enc (the (cs_references spec)) (length (cs_columns spec))) (\<lambda>(fk, key). Inr (Some fk, Some key))
      else Inr (None, None)) = Inr (foreign_bytes enc spec, key_bytes enc spec)"
  proof (cases "cs_kind spec = ForeignKey")
    case True
    with assms obtain x where "foreign_key enc (the (cs_references spec)) (length (cs_columns spec)) = Inr x"
      by (auto simp: constraint_record_def)
    with foreign_key_rows [OF this] True show ?thesis by (simp add: foreign_bytes_def key_bytes_def Let_def)
  qed (simp add: foreign_bytes_def key_bytes_def)
  from assms show ?thesis
    using chk by (simp add: constraint_record_def fk check_expression_row build_definition build_info object_ref_row spell_tables
        top_row_def spec_row_def owner_row_def checked_bytes_def split: if_splits)
qed


lemma decode_record_row:
  assumes "enc b \<noteq> []" "ipc (enc b) = Inr (Some b)" "num_rows b = 1" "map fst (columns b) = fs"
  shows "decode_record ipc wt (enc b) fs what = Inr (Some b)"
  using assms by (simp add: decode_record_def decode_ipc_def)

lemma check_spec_shape:
  assumes "check_spec spec = Inr ()"
  shows "(cs_kind spec = Check) = (cs_check_sql spec \<noteq> None)" "(cs_kind spec = ForeignKey) = (cs_references spec \<noteq> None)"
  using assms by (auto simp: check_spec_def Let_def)

lemma decode_check_row:
  assumes "enc (expression_row sql path) \<noteq> []" "ipc (enc (expression_row sql path)) = Inr (Some (expression_row sql path))"
  shows "decode_check ipc wt (enc (expression_row sql path)) d =
    Inr (d\<lparr>d_view := (d_view d)\<lparr>v_check_sql := Some sql\<rparr>, d_check_profile := SCALAR_EXPRESSION_READ,
           d_check_schema_path := path, d_default_context := True\<rparr>)"
proof -
  have "decode_record ipc wt (enc (expression_row sql path)) SqlExpressionSchema ''SqlExpression'' =
      Inr (Some (expression_row sql path))"
    using assms by (intro decode_record_row) (simp_all add: row_shape)
  then show ?thesis using read_expression(4) [of sql path]
    by (auto simp: decode_check_def read_expression(1-3))
qed

lemma decode_foreign_row:
  assumes "\<forall>b \<in> {target_row r, key_row r, foreign_row (enc (target_row r)) (ref_columns r)}.
      enc b \<noteq> [] \<and> ipc (enc b) = Inr (Some b)"
    and "get_optional_binary info ''referenced_constraint'' = Inr (Some (enc (key_row r)))"
  shows "decode_foreign ipc wt (enc (foreign_row (enc (target_row r)) (ref_columns r))) info d =
    Inr (d\<lparr>d_view := (d_view d)\<lparr>v_references := Some r\<rparr>, d_match := ''SIMPLE'', d_on_update := ''NO_ACTION'',
           d_on_delete := ''NO_ACTION'', d_key_schema_path := ref_schema_path r, d_key_owner := ref_table r, d_has_key := True\<rparr>)"
proof -
  have rows: "decode_record ipc wt (enc (foreign_row (enc (target_row r)) (ref_columns r))) ForeignKeyDefinitionSchema ''ForeignKeyDefinition'' =
      Inr (Some (foreign_row (enc (target_row r)) (ref_columns r)))"
    "decode_record ipc wt (enc (target_row r)) CatalogObjectRefSchema ''CatalogObjectRef'' = Inr (Some (target_row r))"
    "decode_record ipc wt (enc (key_row r)) CatalogObjectRefSchema ''CatalogObjectRef'' = Inr (Some (key_row r))"
    using assms(1) by (simp_all add: decode_record_row row_shape target_row_def key_row_def)
  show ?thesis
    by (simp add: decode_foreign_def rows read_foreign assms(2) decode_key_def)
      (auto simp: target_row_def key_row_def read_ref intro!: exI [where x = False])
qed


lemma read_rows:
  "get_binary (Some (top_row enc spec)) ''ref'' = Inr (enc (owner_row spec))"
  "get_binary (Some (top_row enc spec)) ''definition'' = Inr (enc (spec_row enc spec))"
  "get_enum (Some (top_row enc spec)) ''enforcement'' = Inr (the (map_of kEnforcements (the (cs_enforcement spec))))"
  "get_enum (Some (top_row enc spec)) ''validation'' = Inr (the (map_of kValidations (the (cs_validation spec))))"
  "get_optional_binary (Some (top_row enc spec)) ''referenced_constraint'' = Inr (key_bytes enc spec)"
  "get_string (Some (owner_row spec)) ''kind'' = Inr ''constraint''"
  "get_string (Some (owner_row spec)) ''name'' = Inr (cs_id spec)"
  "get_string_list (Some (owner_row spec)) ''schema_path'' = Inr (cs_schema_path spec)"
  "get_optional_string (Some (owner_row spec)) ''owner_table'' = Inr (Some (cs_table spec))"
  "get_enum (Some (spec_row enc spec)) ''kind'' = Inr (the (map_of kKinds (cs_kind spec)))"
  "get_paths (Some (spec_row enc spec)) ''column_paths'' = Inr (cs_columns spec)"
  "get_optional_string (Some (spec_row enc spec)) ''declared_name'' = Inr (cs_declared_name spec)"
  "get_optional_binary (Some (spec_row enc spec)) ''check_expression'' = Inr (checked_bytes enc spec)"
  "get_optional_binary (Some (spec_row enc spec)) ''foreign_key'' = Inr (foreign_bytes enc spec)"
  by (simp_all add: top_row_def read_info owner_row_def read_ref spec_row_def read_definition)

lemma constraint_round_trip_rows:
  assumes "constraint_record enc spec = Inr bs"
    and "\<forall>b \<in> set (record_batches enc spec). enc b \<noteq> [] \<and> ipc (enc b) = Inr (Some b)"
  shows "read_constraint_record ipc what_text bs = Inr (view_of spec)"
proof -
  note shape = constraint_record_rows [OF assms(1)]
  have kinds: "(cs_kind spec = Check) = (cs_check_sql spec \<noteq> None)" "(cs_kind spec = ForeignKey) = (cs_references spec \<noteq> None)"
    using check_spec_shape shape by blast+
  have "decode_record ipc what_text bs ConstraintInfoSchema ''ConstraintInfo'' = Inr (Some (top_row enc spec))"
    "decode_record ipc what_text (enc (owner_row spec)) CatalogObjectRefSchema ''CatalogObjectRef'' = Inr (Some (owner_row spec))"
    "decode_record ipc what_text (enc (spec_row enc spec)) ConstraintDefinitionSchema ''ConstraintDefinition'' =
      Inr (Some (spec_row enc spec))"
    using assms(2) shape
    by (simp_all add: decode_record_row record_batches_def row_shape top_row_def owner_row_def spec_row_def)
  note top = this
  note base = read_constraint_record_def decode_constraint_record_def top read_rows parse_tables wire_def
    Let_def view_of_def
  consider (check) sql where "cs_kind spec = Check" "cs_check_sql spec = Some sql" "cs_references spec = None"
    | (foreign) r where "cs_kind spec = ForeignKey" "cs_check_sql spec = None" "cs_references spec = Some r"
    | (other) "cs_kind spec \<noteq> Check" "cs_kind spec \<noteq> ForeignKey" "cs_check_sql spec = None" "cs_references spec = None"
    using kinds by (cases "cs_kind spec") auto
  then show ?thesis
  proof cases
    case check
    with assms(2) have "enc (expression_row sql (cs_schema_path spec)) \<noteq> []"
      "ipc (enc (expression_row sql (cs_schema_path spec))) = Inr (Some (expression_row sql (cs_schema_path spec)))"
      by (simp_all add: record_batches_def)
    from decode_check_row [of enc sql "cs_schema_path spec" ipc, OF this] check show ?thesis
      by (simp add: base checked_bytes_def foreign_bytes_def key_bytes_def valid_if_def)
  next
    case foreign
    have "get_optional_binary (Some (top_row enc spec)) ''referenced_constraint'' = Inr (Some (enc (key_row r)))"
      using foreign by (simp add: read_rows key_bytes_def)
    moreover have "\<forall>b \<in> {target_row r, key_row r, foreign_row (enc (target_row r)) (ref_columns r)}.
        enc b \<noteq> [] \<and> ipc (enc b) = Inr (Some b)"
      using assms(2) foreign by (simp add: record_batches_def Let_def)
    ultimately show ?thesis using decode_foreign_row foreign
      by (simp add: base checked_bytes_def foreign_bytes_def valid_if_def)
  next
    case other
    then show ?thesis by (simp add: base checked_bytes_def foreign_bytes_def key_bytes_def valid_if_def)
  qed
qed


text \<open>
  C30: A record that \<^verbatim>\<open>constraint_record\<close> builds is read back: whatever the kind, with its declared name,
  check expression and reference, \<^verbatim>\<open>read_constraint_record\<close> returns the specification it was built from,
  given that Arrow's reader returns the batches this one call had written.
\<close>

theorem constraint_round_trip:
  assumes "constraint_record enc spec = Inr bs"
    and "\<forall>b \<in> set (record_batches enc spec). enc b \<noteq> [] \<and> ipc (enc b) = Inr (Some b)"
  shows "read_constraint_record ipc what_text bs = Inr (view_of spec)"
  using assms by (rule constraint_round_trip_rows)

text \<open>A not-null record on one column, with an encoder that spells the fields of the schema.\<close>

definition demo_spec :: constraint_spec where
  "demo_spec = \<lparr>cs_schema_path = [''main''], cs_table = ''t'', cs_id = ''c1'', cs_kind = NotNull, cs_columns = [[''a'']],
     cs_enforcement = Some Enforced, cs_validation = Some AllRows, cs_declared_name = None, cs_check_sql = None,
     cs_references = None\<rparr>"

definition demo_enc :: "batch \<Rightarrow> bytes" where
  "demo_enc b = concat (map (\<lambda>(f, a). field_name f) (columns b))"

definition demo_ipc :: "bytes \<Rightarrow> wire_error + batch option" where
  "demo_ipc bs = (case map_of (map (\<lambda>b. (demo_enc b, b)) (record_batches demo_enc demo_spec)) bs of
     None \<Rightarrow> Inl (IpcError bs) | Some b \<Rightarrow> Inr (Some b))"

lemma demo_bytes:
  "demo_enc (owner_row demo_spec) = ''kindschema_pathnameowner_table''"
  "demo_enc (spec_row demo_enc demo_spec) = ''kindcolumn_pathsdeclared_namecheck_expressionforeign_key''"
  "demo_enc (top_row demo_enc demo_spec) = ''refdefinitionenforcementvalidationreferenced_constraint''"
  by (simp_all add: demo_enc_def owner_row_def spec_row_def top_row_def row_defs)

lemma demo_reader: "\<forall>b \<in> set (record_batches demo_enc demo_spec). demo_enc b \<noteq> [] \<and> demo_ipc (demo_enc b) = Inr (Some b)"
proof -
  have "record_batches demo_enc demo_spec = [owner_row demo_spec, spec_row demo_enc demo_spec, top_row demo_enc demo_spec]"
    by (simp add: record_batches_def demo_spec_def)
  then show ?thesis by (simp add: demo_ipc_def demo_bytes)
qed

lemma demo_record: "constraint_record demo_enc demo_spec = Inr (demo_enc (top_row demo_enc demo_spec))"
proof -
  have "check_spec demo_spec = Inr ()" by (simp add: check_spec_def demo_spec_def require_name_def require_paths_def)
  then show ?thesis
    by (simp add: constraint_record_def build_definition build_info object_ref_row spell_tables top_row_def spec_row_def owner_row_def
        checked_bytes_def foreign_bytes_def key_bytes_def) (simp add: demo_spec_def build_definition build_info)
qed

theorem constraint_round_trip_witness:
  "\<exists>bs. constraint_record demo_enc demo_spec = Inr bs \<and> read_constraint_record demo_ipc (\<lambda>_. []) bs = Inr (view_of demo_spec)"
  using constraint_round_trip [OF demo_record demo_reader] demo_record by blast


subsection \<open>The accepted tables\<close>

lemma decode_all_iff:
  "decode_all ipc wt pre n bss = Inr ds \<longleftrightarrow>
     mapE (decode_constraint_record ipc wt) bss = Inr ds \<and> [] \<notin> set bss \<and>
     (bss \<noteq> [] \<longrightarrow> n + sum_list (map length bss) \<le> record_bytes_limit)"
proof (induction bss arbitrary: n ds)
  case (Cons bs bss)
  have refail: "refail pre r = Inr d \<longleftrightarrow> r = Inr d" for r :: "constraint_error + decoded" and d
    by (auto simp: refail_def split: sum.splits constraint_error.splits)
  show ?case by (cases "bss = []") (auto simp: Let_def refail Cons.IH add.assoc)
qed simp

lemma accepted_rows_iff:
  "validate_constraint_records ipc wt show_type sp tab cols constraints = Inr () \<longleftrightarrow>
     length constraints \<le> 1024 \<and> [] \<notin> set constraints \<and> sum_list (map length constraints) \<le> record_bytes_limit \<and>
     (\<exists>ds. mapE (decode_constraint_record ipc wt) constraints = Inr ds \<and>
       list_all (record_ok show_type (Some sp) tab (serve_schema cols (required_paths ds))) ds \<and>
       distinct (map (\<lambda>d. v_id (d_view d)) ds) \<and> distinct (declared_labels ds) \<and> length (primary_keys ds) \<le> 1)"
proof -
  have "validate_constraint_records ipc wt show_type sp tab cols constraints = Inr () \<longleftrightarrow>
     length constraints \<le> 1024 \<and> (\<exists>ds. decode_all ipc wt (table_prefix (path_string sp @ ''.'' @ tab)) 0 constraints = Inr ds \<and>
       list_all (record_ok show_type (Some sp) tab (serve_schema cols (required_paths ds))) ds \<and> fresh_in empty_state ds)"
    by (auto simp: validate_constraint_records_def validate_records_def Let_def walk_served check_records_iff list_all_iff)
  then show ?thesis by (auto simp: decode_all_iff fresh_in_def empty_state_def record_bytes_limit_def)
qed

text \<open>
  C31: Which tables are accepted, as a rule that does not depend on the order of the records: at most
  1024 nonempty records of at most 8 MiB together that all decode, each on its own owned by the
  table, attested as enforced on all rows, within the limits on names and paths and resolved
  against the schema as it will be served; the ids distinct, the declared names distinct up to
  case, and at most one primary key. The final check of nullability adds nothing.
\<close>

theorem accepted_iff:
  "validate_constraint_records ipc wt show_type sp tab cols constraints = Inr () \<longleftrightarrow>
     length constraints \<le> 1024 \<and> [] \<notin> set constraints \<and> sum_list (map length constraints) \<le> record_bytes_limit \<and>
     (\<exists>ds. mapE (decode_constraint_record ipc wt) constraints = Inr ds \<and>
       list_all (record_ok show_type (Some sp) tab (serve_schema cols (required_paths ds))) ds \<and>
       distinct (map (\<lambda>d. v_id (d_view d)) ds) \<and> distinct (declared_labels ds) \<and> length (primary_keys ds) \<le> 1)"
  by (rule accepted_rows_iff)

lemma nested_loop_found: "nested_loop n cs found = Some c \<Longrightarrow> found = Some c \<or> (c \<in> set cs \<and> c_name c = n)"
  by (induction n cs found rule: nested_loop.induct) (auto split: if_splits)

lemma descend_column_at: "descend (Some f) q = Some g \<Longrightarrow> column_at cols p f \<Longrightarrow> column_at cols (p @ q) g"
proof (induction "Some f" q arbitrary: f p rule: descend.induct)
  case (3 f n q)
  then obtain cs c where cs: "ordinary_struct_children f = Some cs" "nested f n = Some c" "descend (Some c) q = Some g"
    by (cases "nested f n") (auto split: if_splits)
  then have "c \<in> set cs" "c_name c = n"
    using nested_loop_found [of n cs None c] by (auto simp: nested_def ordinary_struct_type)
  then have "column_at cols (p @ [n]) c" using column_at.member [OF "3.prems"(2) cs(1)] by auto
  with 3(1) [of c "p @ [n]"] cs show ?case by auto
qed simp

lemma top_level_column_at: "top_level cols n = Some f \<Longrightarrow> column_at cols [n] f"
proof -
  assume f: "top_level cols n = Some f"
  then obtain i where i: "filter (\<lambda>i. c_name (cols ! i) = n) [0..<length cols] = [i]" "\<not> row_id (cols ! i)" "f = cols ! i"
    by (auto simp: top_level_def GetAllFieldIndices_def split: list.splits if_splits)
  then have "i \<in> set (filter (\<lambda>i. c_name (cols ! i) = n) [0..<length cols])" by simp
  then have "f \<in> set cols" "c_name f = n" using i(3) by simp_all
  with i show ?thesis using column_at.top [of f cols] by blast
qed



definition demo_cols :: "cfield list" where
  "demo_cols = [CField ''a'' CInt64 True None, CField ''b'' CInt64 False None]"

lemma demo_decoded:
  "\<exists>d. decode_constraint_record demo_ipc (\<lambda>_. []) (demo_enc (top_row demo_enc demo_spec)) = Inr d \<and> d_view d = view_of demo_spec"
  using constraint_round_trip_rows [OF demo_record demo_reader, of "\<lambda>_. []"] by (auto simp: read_constraint_record_def)

lemma top_level_served:
  "top_level [CField ''a'' CInt64 x None, CField ''b'' CInt64 y None] ''a'' = Some (CField ''a'' CInt64 x None)"
  by (simp add: top_level_def GetAllFieldIndices_def row_id_def has_key_def)

lemma serve_demo:
  "serve_schema demo_cols {[''a'']} = [CField ''a'' CInt64 False None, CField ''b'' CInt64 True None]"
  by (simp add: serve_schema_def demo_cols_def serve_field.simps ordinary_struct_children_def row_id_def has_key_def)

lemma demo_required: "d_view d = view_of demo_spec \<Longrightarrow> required_paths [d] = {[''a'']}"
  by (simp add: required_paths_def view_of_def demo_spec_def)



subsection \<open>The one undefined read\<close>

definition no_undefined :: "constraint_error + 'a \<Rightarrow> bool" where
  "no_undefined r \<longleftrightarrow> r \<noteq> Inl UndefinedRead"

lemma no_undefined_simps [simp]:
  "no_undefined (Inr x)" "no_undefined (Inl (Invalid m))" "no_undefined (Inl (WireError e))" "no_undefined (Inl CheckFuel)"
  "no_undefined (wire r)" "no_undefined (valid_if c m)" "\<not> no_undefined (Inl UndefinedRead)"
  by (simp_all add: no_undefined_def wire_def valid_if_def split: sum.splits)

lemma no_undefined_bind:
  "no_undefined m \<Longrightarrow> (\<And>x. m = Inr x \<Longrightarrow> no_undefined (g x)) \<Longrightarrow> no_undefined (bindE m g)"
  by (cases m) (auto simp: no_undefined_def)

lemma no_undefined_mapE [intro]: "(\<And>x. no_undefined (g x)) \<Longrightarrow> no_undefined (mapE g xs)"
  by (induction xs) (auto intro!: no_undefined_bind)

lemma no_undefined_eachE [intro]: "(\<And>x. no_undefined (g x)) \<Longrightarrow> no_undefined (eachE g xs)"
  by (induction xs) (auto intro!: no_undefined_bind)

lemma no_undefined_decode_record [simp]: "no_undefined (decode_record ipc wt bs fs what)"
  by (simp add: decode_record_def split: sum.splits option.splits)

lemma no_undefined_parse_enum [simp]: "no_undefined (parse_enum table t w)"
  by (induction table t w rule: parse_enum.induct) auto

lemma no_undefined_get_paths [simp]: "no_undefined (get_paths b n)"
  unfolding get_paths_def by (intro no_undefined_bind no_undefined_mapE) simp_all

lemma no_undefined_decode_check [simp]: "no_undefined (decode_check ipc wt bs d)"
  unfolding decode_check_def by (intro no_undefined_bind) simp_all

lemma no_undefined_decode_key [simp]: "no_undefined (decode_key ipc wt key r d)"
  unfolding decode_key_def by (auto split: option.splits intro!: no_undefined_bind)

lemma no_undefined_decode_foreign [simp]: "no_undefined (decode_foreign ipc wt bs info d)"
  unfolding decode_foreign_def by (intro no_undefined_bind) (auto split: if_splits intro!: no_undefined_bind)

lemma no_undefined_decode [simp]: "no_undefined (decode_constraint_record ipc wt bs)"
  unfolding decode_constraint_record_def Let_def
  by (intro no_undefined_bind) (auto split: option.splits intro!: no_undefined_bind)

text \<open>A decoded record with an expression profile has an expression.\<close>

lemma decode_key_keeps:
  "decode_key ipc wt key r d = Inr d' \<Longrightarrow> d_check_profile d' = d_check_profile d \<and> v_check_sql (d_view d') = v_check_sql (d_view d)"
  by (auto simp: decode_key_def split: option.splits)

lemma decode_foreign_keeps:
  "decode_foreign ipc wt bs info d = Inr d' \<Longrightarrow> d_check_profile d' = d_check_profile d \<and> v_check_sql (d_view d') = v_check_sql (d_view d)"
  unfolding decode_foreign_def by (auto dest!: decode_key_keeps)

lemma decode_check_sets: "decode_check ipc wt bs d = Inr d' \<Longrightarrow> \<exists>sql. v_check_sql (d_view d') = Some sql"
  by (auto simp: decode_check_def)

lemma decoded_check_sql:
  assumes "decode_constraint_record ipc wt bs = Inr d" "d_check_profile d \<noteq> []"
  shows "v_check_sql (d_view d) \<noteq> None"
  using assms by (auto simp: decode_constraint_record_def Let_def dest!: decode_check_sets decode_foreign_keeps split: option.splits)

lemma no_undefined_check_record:
  assumes "d_check_profile d \<noteq> [] \<Longrightarrow> v_check_sql (d_view d) \<noteq> None"
    and "v_kind (d_view d) = ForeignKey \<Longrightarrow> v_references (d_view d) \<noteq> None"
  shows "no_undefined (check_record show_type os ow pre cols d st)"
proof -
  have "no_undefined (check_sql_check show_type wh cols d)" for wh
    using assms(1) unfolding check_sql_check_def
    by (intro no_undefined_bind) (auto simp: SCALAR_EXPRESSION_READ_def split: option.splits sum.splits sql_error.splits)
  moreover have "no_undefined (check_reference wh d)" if "v_kind (d_view d) = ForeignKey" for wh
    using assms(2) [OF that] unfolding check_reference_def require_identifier_def
    by (auto intro!: no_undefined_bind no_undefined_eachE split: option.splits)
  moreover have "no_undefined (check_key_columns wh cols k ps)" "no_undefined (check_not_null wh cols ps)"
    "no_undefined (check_paths wh ps)" "no_undefined (check_owner os ow wh r)" for wh k ps r
    unfolding check_key_columns_def check_not_null_def check_paths_def check_owner_def require_identifier_def Let_def
    by (intro no_undefined_bind no_undefined_eachE; simp)+
  moreover have "no_undefined (check_label wh l st)" "no_undefined (check_state_of pre r)" for wh l st r
    unfolding check_label_def check_state_of_def require_identifier_def
    by (auto intro!: no_undefined_bind split: option.splits)
  ultimately show ?thesis unfolding check_record_def check_kind_def Let_def
    by (cases "v_kind (d_view d)") (auto intro!: no_undefined_bind)
qed

lemma no_undefined_check_records:
  assumes "\<And>d. d \<in> set ds \<Longrightarrow> d_check_profile d \<noteq> [] \<Longrightarrow> v_check_sql (d_view d) \<noteq> None"
    and "\<And>d. d \<in> set ds \<Longrightarrow> v_kind (d_view d) = ForeignKey \<Longrightarrow> v_references (d_view d) \<noteq> None"
  shows "no_undefined (check_records show_type os ow pre cols ds st)"
  using assms
proof (induction ds arbitrary: st)
  case (Cons d ds)
  then show ?case by (auto intro!: no_undefined_bind no_undefined_check_record)
qed simp

lemma no_undefined_decode_all: "no_undefined (decode_all ipc wt pre n bss)"
proof (induction bss arbitrary: n)
  case (Cons bs bss)
  have "no_undefined (refail pre (decode_constraint_record ipc wt bs))"
    using no_undefined_decode [of ipc wt bs] by (auto simp: refail_def no_undefined_def split: sum.splits constraint_error.splits)
  with Cons show ?case by (auto simp: Let_def intro!: no_undefined_bind)
qed simp

text \<open>
  C33: The only undefined read. Checking a table's records reads an absent value only when some record is
  of kind foreign key and carries no foreign-key definition; then the reference is used without
  having been looked at. The expression of a check is never read when it is absent.
\<close>

theorem undefined_only_missing_reference:
  assumes "validate_constraint_records ipc wt show_type sp tab cols constraints = Inl UndefinedRead"
  shows "\<exists>bs \<in> set constraints. \<exists>d. decode_constraint_record ipc wt bs = Inr d \<and>
    v_kind (d_view d) = ForeignKey \<and> v_references (d_view d) = None"
proof (rule ccontr)
  assume none: "\<not> ?thesis"
  let ?pre = "table_prefix (path_string sp @ ''.'' @ tab)"
  have "no_undefined (check_records show_type (Some sp) tab ?pre cs ds empty_state)"
    if "decode_all ipc wt ?pre 0 constraints = Inr ds" for ds cs
  proof (rule no_undefined_check_records)
    fix d assume "d \<in> set ds"
    then obtain bs where bs: "bs \<in> set constraints" "decode_constraint_record ipc wt bs = Inr d"
      using mapE_Inr_set [of _ constraints ds d] \<open>decode_all ipc wt ?pre 0 constraints = Inr ds\<close> by (auto simp: decode_all_iff)
    show "v_check_sql (d_view d) \<noteq> None" if "d_check_profile d \<noteq> []" using decoded_check_sql bs(2) that by blast
    show "v_references (d_view d) \<noteq> None" if "v_kind (d_view d) = ForeignKey" using none bs that by auto
  qed
  then have "no_undefined (validate_constraint_records ipc wt show_type sp tab cols constraints)"
    unfolding validate_constraint_records_def validate_records_def Let_def
    by (auto intro!: no_undefined_bind simp: no_undefined_decode_all walk_served)
  with assms show False by simp
qed

text \<open>A foreign-key record whose definition has no \<^verbatim>\<open>foreign_key\<close>: it decodes.\<close>

definition bare_rows :: "batch list" where
  "bare_rows =
     (let ref = ref_row ''constraint'' [''main''] ''fk'' (Some ''t''); def = definition_row ''FOREIGN_KEY'' [[''a'']] None None None in
      [ref, def, info_row (demo_enc ref) (demo_enc def) ''ENFORCED'' ''ALL_ROWS'' None])"

definition bare_ipc :: "bytes \<Rightarrow> wire_error + batch option" where
  "bare_ipc bs = (case map_of (map (\<lambda>b. (demo_enc b, b)) bare_rows) bs of None \<Rightarrow> Inl (IpcError bs) | Some b \<Rightarrow> Inr (Some b))"


definition bare_record :: bytes where
  "bare_record = ''refdefinitionenforcementvalidationreferenced_constraint''"

definition bare_decoded :: decoded where
  "bare_decoded = \<lparr>d_view = \<lparr>v_schema_path = [''main''], v_table = ''t'', v_id = ''fk'', v_kind = ForeignKey, v_columns = [[''a'']],
       v_enforcement = Enforced, v_validation = AllRows, v_declared_name = None, v_check_sql = None, v_references = None\<rparr>,
     d_key_schema_path = [], d_key_owner = [], d_has_key = False, d_match = [], d_on_update = [], d_on_delete = [],
     d_check_profile = [], d_check_schema_path = [], d_default_context = False\<rparr>"

lemma bare_decodes: "decode_constraint_record bare_ipc wt bare_record = Inr bare_decoded"
proof -
  let ?r = "''kindschema_pathnameowner_table''" and ?d = "''kindcolumn_pathsdeclared_namecheck_expressionforeign_key''"
  have names: "demo_enc (ref_row k p n ow) = ?r" "demo_enc (definition_row k ps nm c f) = ?d"
    "demo_enc (info_row a b e v key) = bare_record" for k p n ow ps nm c f a b e v key
    by (simp_all add: demo_enc_def row_defs bare_record_def)
  have "bare_ipc bare_record = Inr (Some (info_row ?r ?d ''ENFORCED'' ''ALL_ROWS'' None))"
    "bare_ipc ?r = Inr (Some (ref_row ''constraint'' [''main''] ''fk'' (Some ''t'')))"
    "bare_ipc ?d = Inr (Some (definition_row ''FOREIGN_KEY'' [[''a'']] None None None))"
    by (simp_all add: bare_ipc_def bare_rows_def Let_def names) (simp_all add: bare_record_def)
  moreover have "bare_record \<noteq> []" by (simp add: bare_record_def)
  ultimately show ?thesis
    by (simp add: decode_constraint_record_def decode_record_def decode_ipc_def row_shape read_info read_ref read_definition wire_def
        kKinds_def kEnforcements_def kValidations_def valid_if_def Let_def bare_decoded_def)
qed

theorem undefined_only_missing_reference_witness:
  "validate_constraint_records bare_ipc (\<lambda>_. []) (\<lambda>_. []) [''main''] ''t'' demo_cols [bare_record] = Inl UndefinedRead \<and>
   (\<exists>bs \<in> set [bare_record]. \<exists>d. decode_constraint_record bare_ipc (\<lambda>_. []) bs = Inr d \<and>
      v_kind (d_view d) = ForeignKey \<and> v_references (d_view d) = None)"
proof -
  have "required_paths [bare_decoded] = {}" by (simp add: required_paths_def bare_decoded_def)
  moreover have "serve_schema demo_cols {} = [CField ''a'' CInt64 True None, CField ''b'' CInt64 True None]"
    by (simp add: serve_schema_def demo_cols_def serve_field.simps ordinary_struct_children_def row_id_def has_key_def)
  moreover have "length bare_record = 55" "bare_record \<noteq> []" by (simp_all add: bare_record_def)
  ultimately have "validate_constraint_records bare_ipc (\<lambda>_. []) (\<lambda>_. []) [''main''] ''t'' demo_cols [bare_record] = Inl UndefinedRead"
    by (simp add: validate_constraint_records_def validate_records_def bare_decodes refail_def record_bytes_limit_def valid_if_def
        check_record_def bare_decoded_def check_owner_def require_identifier_def identifier_ok_def empty_state_def check_label_def
        check_state_of_def check_paths_def check_kind_def check_key_columns_def top_level_served check_reference_def)
  from this undefined_only_missing_reference [OF this] show ?thesis by blast
qed

end
