(* ===== verification/Capabilities.thy ===== *)
theory Capabilities
  imports Constraint_Properties
begin

section \<open>Negotiation of catalog capabilities\<close>

text \<open>
  \<^verbatim>\<open>encode_catalog_capabilities\<close>, \<^verbatim>\<open>decode_catalog_capabilities\<close>, \<^verbatim>\<open>client_catalog_offer\<close> and \<^verbatim>\<open>select_catalog_capabilities\<close> of
  \<^verbatim>\<open>src/src/constraints.cpp\<close>. The record is read with Arrow's stream reader directly: the argument \<open>stream\<close> gives
  the first batch of the stream, whether its schema carries metadata, whether \<^verbatim>\<open>ValidateFull\<close> accepts it,
  and the bytes after the position the reader stopped at, or the text of its error.
\<close>

record profiles =
  p_read :: "string list"
  p_ddl :: "string list"
  p_write :: "string list"
  p_transaction :: "string list"

record stream_read =
  s_batch :: "batch option"
  s_metadata :: bool
  s_valid :: bool
  s_tail :: bytes

definition no_profiles :: profiles where
  "no_profiles = \<lparr>p_read = [], p_ddl = [], p_write = [], p_transaction = []\<rparr>"

definition CONSTRAINT_RECORDS_READ :: string where
  "CONSTRAINT_RECORDS_READ = ''vgi.constraint.records.read.v1''"

definition CONSTRAINT_CREATE :: string where
  "CONSTRAINT_CREATE = ''vgi.constraint.create.v1''"

definition CONSTRAINT_ENFORCE :: string where
  "CONSTRAINT_ENFORCE = ''vgi.constraint.enforce.v1''"

definition CatalogCapabilitiesSchema :: "field list" where
  "CatalogCapabilitiesSchema = [Field ''read'' (list_type TString) False, Field ''ddl'' (list_type TString) False,
     Field ''write'' (list_type TString) False, Field ''transaction'' (list_type TString) False]"

definition ClientCapabilitiesSchema :: "field list" where
  "ClientCapabilitiesSchema = [Field ''engine'' TString False, Field ''native_formats'' (list_type TString) False,
     Field ''catalogs'' (list_type TString) False, Field ''can_stream'' TBool False,
     Field ''filter_encodings'' (list_type TString) False, Field ''catalog'' TBinary True,
     Field ''query_pushdown'' (TStruct [Field ''encodings'' (list_type TString) False,
       Field ''semantic_profiles'' (list_type TString) False, Field ''engine_version'' TString False,
       Field ''max_query_bytes'' TInt64 False]) True]"

subsection \<open>Profile names\<close>

text \<open>
  The regular expression \<^verbatim>\<open>^[a-z][a-z0-9_]*(\.[a-z][a-z0-9_]*)*\.v[1-9][0-9]*$\<close>: dots separate the parts, and no part
  has one.
\<close>

fun split_dots :: "string \<Rightarrow> string list" where
  "split_dots [] = [[]]"
| "split_dots (c # s) =
     (if c = CHR ''.'' then [] # split_dots s
      else case split_dots s of part # rest \<Rightarrow> (c # part) # rest | [] \<Rightarrow> [[c]])"

definition word_part :: "string \<Rightarrow> bool" where
  "word_part s \<longleftrightarrow> (case s of [] \<Rightarrow> False | c # r \<Rightarrow> is_lower c \<and> list_all (\<lambda>x. is_lower x \<or> is_digit x \<or> x = CHR ''_'') r)"

definition version_part :: "string \<Rightarrow> bool" where
  "version_part s \<longleftrightarrow> (case s of v # d # r \<Rightarrow> v = CHR ''v'' \<and> is_digit d \<and> d \<noteq> CHR ''0'' \<and> list_all is_digit r | _ \<Rightarrow> False)"

definition profile_name :: "string \<Rightarrow> bool" where
  "profile_name s \<longleftrightarrow> (let parts = split_dots s in
     2 \<le> length parts \<and> list_all word_part (butlast parts) \<and> version_part (last parts))"

fun validate_each :: "string set \<Rightarrow> string list \<Rightarrow> constraint_error + unit" where
  "validate_each seen [] = Inr ()"
| "validate_each seen (p # ps) =
     bindE (valid_if (length p \<le> 256 \<and> profile_name p \<and> p \<notin> seen)
       (''invalid or duplicate catalog capability profile: '' @ p)) (\<lambda>_. validate_each (insert p seen) ps)"

definition validate_profiles :: "string list \<Rightarrow> constraint_error + unit" where
  "validate_profiles ps =
     bindE (valid_if (length ps \<le> 256) ''too many catalog capability profiles'') (\<lambda>_. validate_each {} ps)"

subsection \<open>Records\<close>

definition end_markers :: "bytes list" where
  "end_markers = [[], replicate 4 NUL, replicate 4 (CHR 0xFF) @ replicate 4 NUL]"

definition capability_record :: "(bytes \<Rightarrow> string + stream_read) \<Rightarrow> bytes \<Rightarrow> field list \<Rightarrow> constraint_error + batch" where
  "capability_record stream bs fs =
     bindE (valid_if (bs \<noteq> [] \<and> length bs \<le> record_bytes_limit) ''invalid catalog capability record size'') (\<lambda>_.
     case stream bs of
       Inl message \<Rightarrow> Inl (Invalid message)
     | Inr s \<Rightarrow>
         (case s_batch s of
            None \<Rightarrow> Inl (Invalid ''invalid catalog capability record'')
          | Some b \<Rightarrow>
              bindE (valid_if (num_rows b = 1 \<and> map fst (columns b) = fs \<and> \<not> s_metadata s \<and> s_valid s)
                ''invalid catalog capability record'') (\<lambda>_.
              bindE (eachE (\<lambda>(f, a). if nullable f then Inr () else
                bindE (wire (at0 a)) (\<lambda>c. valid_if (c \<noteq> Null) ''null required catalog capability field'')) (columns b)) (\<lambda>_.
              bindE (valid_if (s_tail s \<in> set end_markers) ''trailing catalog capability data'') (\<lambda>_.
              Inr b)))))"

definition encode_catalog_capabilities :: "(batch \<Rightarrow> bytes) \<Rightarrow> profiles \<Rightarrow> constraint_error + bytes" where
  "encode_catalog_capabilities enc p =
     bindE (eachE validate_profiles [p_read p, p_ddl p, p_write p, p_transaction p]) (\<lambda>_.
     bindE (build_record CatalogCapabilitiesSchema
       [set_string_list ''read'' (p_read p), set_string_list ''ddl'' (p_ddl p), set_string_list ''write'' (p_write p),
        set_string_list ''transaction'' (p_transaction p)]) (\<lambda>b.
     Inr (enc b)))"

definition decode_category :: "batch \<Rightarrow> string \<Rightarrow> constraint_error + string list" where
  "decode_category b category =
     bindE (wire (column (Some b) category)) (\<lambda>a.
     bindE (wire (at0 a)) (\<lambda>c.
     bindE (valid_if (c \<noteq> Null \<and> Null \<notin> set (elements c)) ''null catalog capability profile'') (\<lambda>_.
     bindE (wire (get_string_list (Some b) category)) (\<lambda>ps.
     bindE (validate_profiles ps) (\<lambda>_. Inr ps)))))"

definition decode_catalog_capabilities :: "(bytes \<Rightarrow> string + stream_read) \<Rightarrow> bytes \<Rightarrow> constraint_error + profiles" where
  "decode_catalog_capabilities stream bs =
     bindE (capability_record stream bs CatalogCapabilitiesSchema) (\<lambda>b.
     bindE (decode_category b ''read'') (\<lambda>r.
     bindE (decode_category b ''ddl'') (\<lambda>d.
     bindE (decode_category b ''write'') (\<lambda>w.
     bindE (decode_category b ''transaction'') (\<lambda>t.
     Inr \<lparr>p_read = r, p_ddl = d, p_write = w, p_transaction = t\<rparr>)))))"

definition client_catalog_offer :: "(bytes \<Rightarrow> string + stream_read) \<Rightarrow> bytes option \<Rightarrow> constraint_error + profiles" where
  "client_catalog_offer stream client =
     (case client of
        None \<Rightarrow> Inr no_profiles
      | Some bs \<Rightarrow>
          bindE (capability_record stream bs ClientCapabilitiesSchema) (\<lambda>b.
          bindE (wire (get_optional_binary (Some b) ''catalog'')) (\<lambda>catalog.
          case catalog of None \<Rightarrow> Inr no_profiles | Some c \<Rightarrow> decode_catalog_capabilities stream c)))"

subsection \<open>Selection\<close>

definition intersect :: "string list \<Rightarrow> string list \<Rightarrow> string list" where
  "intersect mine theirs = filter (\<lambda>p. p \<in> set theirs) mine"

definition drop_profile :: "string \<Rightarrow> string list \<Rightarrow> string list" where
  "drop_profile p ps = removeAll p ps"

definition select_catalog_capabilities :: "profiles \<Rightarrow> profiles \<Rightarrow> profiles" where
  "select_catalog_capabilities available offered =
     (let out = \<lparr>p_read = intersect (p_read available) (p_read offered), p_ddl = intersect (p_ddl available) (p_ddl offered),
                 p_write = intersect (p_write available) (p_write offered),
                 p_transaction = intersect (p_transaction available) (p_transaction offered)\<rparr>;
          out = (if CONSTRAINT_RECORDS_READ \<notin> set (p_read out)
                 then out\<lparr>p_read := drop_profile SCALAR_EXPRESSION_READ (p_read out),
                          p_ddl := drop_profile CONSTRAINT_CREATE (p_ddl out),
                          p_write := drop_profile CONSTRAINT_ENFORCE (p_write out)\<rparr>
                 else out)
      in if CONSTRAINT_ENFORCE \<notin> set (p_write out) then out\<lparr>p_ddl := drop_profile CONSTRAINT_CREATE (p_ddl out)\<rparr> else out)"

subsection \<open>What is selected\<close>

lemma profile_constants:
  "SCALAR_EXPRESSION_READ \<noteq> CONSTRAINT_RECORDS_READ" "CONSTRAINT_RECORDS_READ \<noteq> SCALAR_EXPRESSION_READ"
  by (simp_all add: SCALAR_EXPRESSION_READ_def CONSTRAINT_RECORDS_READ_def)

definition both_records :: "profiles \<Rightarrow> profiles \<Rightarrow> bool" where
  "both_records a b \<longleftrightarrow> CONSTRAINT_RECORDS_READ \<in> set (p_read a) \<inter> set (p_read b)"

definition both_enforce :: "profiles \<Rightarrow> profiles \<Rightarrow> bool" where
  "both_enforce a b \<longleftrightarrow> CONSTRAINT_ENFORCE \<in> set (p_write a) \<inter> set (p_write b)"

text \<open>
  C34: What an attachment selects, exactly. In every category the profiles both sides have, in the order of
  the worker's list; less the expression profile, the creation of constraints and their enforcement when the
  records profile is not common to both, and less the creation of constraints when their
  enforcement is not. So what is left is closed under these dependencies, and selecting again
  from it changes nothing.
\<close>

theorem selected_exactly:
  "select_catalog_capabilities a b =
      \<lparr>p_read = filter (\<lambda>p. p \<in> set (p_read b) \<and> (p = SCALAR_EXPRESSION_READ \<longrightarrow> both_records a b)) (p_read a),
       p_ddl = filter (\<lambda>p. p \<in> set (p_ddl b) \<and> (p = CONSTRAINT_CREATE \<longrightarrow> both_records a b \<and> both_enforce a b)) (p_ddl a),
       p_write = filter (\<lambda>p. p \<in> set (p_write b) \<and> (p = CONSTRAINT_ENFORCE \<longrightarrow> both_records a b)) (p_write a),
       p_transaction = filter (\<lambda>p. p \<in> set (p_transaction b)) (p_transaction a)\<rparr> \<and>
    select_catalog_capabilities (select_catalog_capabilities a b) b = select_catalog_capabilities a b"
proof -
  have exact: "select_catalog_capabilities a b =
      \<lparr>p_read = filter (\<lambda>p. p \<in> set (p_read b) \<and> (p = SCALAR_EXPRESSION_READ \<longrightarrow> both_records a b)) (p_read a),
       p_ddl = filter (\<lambda>p. p \<in> set (p_ddl b) \<and> (p = CONSTRAINT_CREATE \<longrightarrow> both_records a b \<and> both_enforce a b)) (p_ddl a),
       p_write = filter (\<lambda>p. p \<in> set (p_write b) \<and> (p = CONSTRAINT_ENFORCE \<longrightarrow> both_records a b)) (p_write a),
       p_transaction = filter (\<lambda>p. p \<in> set (p_transaction b)) (p_transaction a)\<rparr>" for a
    by (auto simp: select_catalog_capabilities_def intersect_def drop_profile_def both_records_def both_enforce_def Let_def
        removeAll_filter_not_eq profile_constants intro!: filter_cong)
  let ?s = "select_catalog_capabilities a b"
  have "both_records ?s b = both_records a b" "CONSTRAINT_ENFORCE \<in> set (p_write ?s) \<longleftrightarrow> both_enforce a b \<and> both_records a b"
    by (auto simp: exact both_records_def both_enforce_def profile_constants)
  then have "select_catalog_capabilities ?s b = ?s"
    unfolding exact [of ?s] by (auto simp: exact [of a] both_enforce_def intro!: filter_cong)
  with exact show ?thesis by blast
qed


definition demo_available :: profiles where
  "demo_available = \<lparr>p_read = [SCALAR_EXPRESSION_READ, CONSTRAINT_RECORDS_READ], p_ddl = [CONSTRAINT_CREATE],
     p_write = [CONSTRAINT_ENFORCE], p_transaction = []\<rparr>"

definition demo_offer :: profiles where
  "demo_offer = \<lparr>p_read = [CONSTRAINT_RECORDS_READ, SCALAR_EXPRESSION_READ], p_ddl = [CONSTRAINT_CREATE], p_write = [],
     p_transaction = []\<rparr>"

theorem selected_exactly_witness:
  "select_catalog_capabilities demo_available demo_offer =
     \<lparr>p_read = [SCALAR_EXPRESSION_READ, CONSTRAINT_RECORDS_READ], p_ddl = [], p_write = [], p_transaction = []\<rparr>"
  using selected_exactly [of demo_available demo_offer]
  by (simp add: demo_available_def demo_offer_def both_records_def both_enforce_def profile_constants)

subsection \<open>Records are read back\<close>

definition well_formed :: "string list \<Rightarrow> bool" where
  "well_formed ps \<longleftrightarrow> length ps \<le> 256 \<and> distinct ps \<and> (\<forall>p \<in> set ps. length p \<le> 256 \<and> profile_name p)"

lemma validate_each_iff:
  "validate_each seen ps = Inr () \<longleftrightarrow> distinct ps \<and> set ps \<inter> seen = {} \<and> (\<forall>p \<in> set ps. length p \<le> 256 \<and> profile_name p)"
  by (induction seen ps rule: validate_each.induct) auto

lemma validate_profiles_iff: "validate_profiles ps = Inr () \<longleftrightarrow> well_formed ps"
  by (auto simp: validate_profiles_def well_formed_def validate_each_iff)

definition capabilities_row :: "profiles \<Rightarrow> batch" where
  "capabilities_row p = row CatalogCapabilitiesSchema
     (map (\<lambda>vs. one (list_type TString) (VList (map VText vs))) [p_read p, p_ddl p, p_write p, p_transaction p])"

lemma build_capabilities:
  "build_record CatalogCapabilitiesSchema
     [set_string_list ''read'' r, set_string_list ''ddl'' d, set_string_list ''write'' w, set_string_list ''transaction'' t] =
   Inr (capabilities_row \<lparr>p_read = r, p_ddl = d, p_write = w, p_transaction = t\<rparr>)"
  by (simp add: build_defs CatalogCapabilitiesSchema_def capabilities_row_def)

lemma decode_categories:
  "decode_category (capabilities_row p) ''read'' = bindE (validate_profiles (p_read p)) (\<lambda>_. Inr (p_read p))"
  "decode_category (capabilities_row p) ''ddl'' = bindE (validate_profiles (p_ddl p)) (\<lambda>_. Inr (p_ddl p))"
  "decode_category (capabilities_row p) ''write'' = bindE (validate_profiles (p_write p)) (\<lambda>_. Inr (p_write p))"
  "decode_category (capabilities_row p) ''transaction'' = bindE (validate_profiles (p_transaction p)) (\<lambda>_. Inr (p_transaction p))"
  by (simp_all add: decode_category_def capabilities_row_def CatalogCapabilitiesSchema_def row_def column_def has_column_def
      GetColumnByName_def read_defs string_items_VText wire_def valid_if_def image_iff)

text \<open>
  Capabilities are read back: a record that was written holds only well-formed, distinct profile
  names, at most 256 in a category, and reading it gives the four lists in their order.
\<close>

theorem capabilities_round_trip:
  assumes "encode_catalog_capabilities enc p = Inr bs"
    and "bs \<noteq> [] \<and> length bs \<le> record_bytes_limit \<and>
      stream bs = Inr \<lparr>s_batch = Some (capabilities_row p), s_metadata = False, s_valid = True, s_tail = []\<rparr>"
  shows "decode_catalog_capabilities stream bs = Inr p \<and>
    well_formed (p_read p) \<and> well_formed (p_ddl p) \<and> well_formed (p_write p) \<and> well_formed (p_transaction p)"
proof -
  from assms(1) have wf: "validate_profiles (p_read p) = Inr ()" "validate_profiles (p_ddl p) = Inr ()"
    "validate_profiles (p_write p) = Inr ()" "validate_profiles (p_transaction p) = Inr ()"
    by (auto simp: encode_catalog_capabilities_def)
  have "capability_record stream bs CatalogCapabilitiesSchema = Inr (capabilities_row p)"
    using assms(2) by (simp add: capability_record_def capabilities_row_def row_def CatalogCapabilitiesSchema_def end_markers_def
        at0_def wire_def valid_if_def)
  then show ?thesis
    using wf by (simp add: decode_catalog_capabilities_def decode_categories) (simp add: validate_profiles_iff)
qed

theorem capabilities_round_trip_witness:
  "\<exists>bs stream. encode_catalog_capabilities demo_enc demo_available = Inr bs \<and> decode_catalog_capabilities stream bs = Inr demo_available"
proof -
  have names: "profile_name ''vgi.expression.duckdb.scalar.v1''" "profile_name ''vgi.constraint.records.read.v1''"
    "profile_name ''vgi.constraint.create.v1''" "profile_name ''vgi.constraint.enforce.v1''"
    by code_simp+
  have "eachE validate_profiles [p_read demo_available, p_ddl demo_available, p_write demo_available, p_transaction demo_available] = Inr ()"
    by (simp add: demo_available_def validate_profiles_iff well_formed_def names SCALAR_EXPRESSION_READ_def
        CONSTRAINT_RECORDS_READ_def CONSTRAINT_CREATE_def CONSTRAINT_ENFORCE_def)
  then have enc: "encode_catalog_capabilities demo_enc demo_available = Inr (demo_enc (capabilities_row demo_available))"
    by (simp add: encode_catalog_capabilities_def build_capabilities) (simp add: capabilities_row_def)
  have "demo_enc (capabilities_row demo_available) = ''readddlwritetransaction''"
    by (simp add: demo_enc_def capabilities_row_def row_def CatalogCapabilitiesSchema_def)
  with capabilities_round_trip [OF enc,
      of "\<lambda>_. Inr \<lparr>s_batch = Some (capabilities_row demo_available), s_metadata = False, s_valid = True, s_tail = []\<rparr>"] enc
  show ?thesis by (auto simp: record_bytes_limit_def)
qed

text \<open>Whatever a client sends, an offer that is accepted is well formed in the same sense.\<close>

lemma decode_category_well_formed: "decode_category b k = Inr ps \<Longrightarrow> well_formed ps"
  by (auto simp: decode_category_def validate_profiles_iff)

lemma offer_well_formed:
  assumes "client_catalog_offer stream client = Inr p"
  shows "well_formed (p_read p) \<and> well_formed (p_ddl p) \<and> well_formed (p_write p) \<and> well_formed (p_transaction p)"
proof -
  have "well_formed []" by (simp add: well_formed_def)
  with assms show ?thesis
    by (auto simp: client_catalog_offer_def decode_catalog_capabilities_def no_profiles_def
        dest!: decode_category_well_formed split: option.splits)
qed

end
