(* ===== verification/Column_Metadata.thy ===== *)
theory Column_Metadata
  imports Constraint_Checks
begin

section \<open>Metadata of columns\<close>

text \<open>
  \<^verbatim>\<open>src/src/column_metadata.h\<close> and \<^verbatim>\<open>src/src/column_expressions.h\<close>: the checks on the metadata of a table's fields, at
  any depth of their types. Arrow's UTF-8 check and base64, its stream reader and the JSON parser
  are the record \<open>column_library\<close>: \<open>l_tags\<close> gives the object keys in the order the parser reports them and
  the document or the text of its error, \<open>l_expression\<close> what the reader finds in the bytes of an expression.
\<close>

datatype tag_document = TagObject "(string \<times> string option) list" | NotAnObject

record expression_stream =
  x_row :: "batch option"
  x_valid :: bool
  x_more :: bool
  x_at_end :: bool

record column_library =
  l_utf8 :: "string \<Rightarrow> bool"
  l_tags :: "string \<Rightarrow> string list \<times> (string + tag_document)"
  l_base64_decode :: "string \<Rightarrow> bytes"
  l_base64_encode :: "bytes \<Rightarrow> string"
  l_expression :: "bytes \<Rightarrow> string + expression_stream"

subsection \<open>Comments and tags\<close>

definition check_tags :: "column_library \<Rightarrow> string \<Rightarrow> constraint_error + unit" where
  "check_tags lib v =
     (case l_tags lib v of (keys, doc) \<Rightarrow>
        bindE (valid_if (distinct keys) ''duplicate column tag key'') (\<lambda>_.
        case doc of
          Inl message \<Rightarrow> Inl (Runtime message)
        | Inr NotAnObject \<Rightarrow> Inl (Invalid ''column tags must be a JSON object of strings'')
        | Inr (TagObject m) \<Rightarrow>
            eachE (\<lambda>(k, text). valid_if (text \<noteq> None) ''column tag values must be strings'') m))"

fun check_entries :: "column_library \<Rightarrow> string set \<Rightarrow> (string \<times> string) list \<Rightarrow> constraint_error + unit" where
  "check_entries lib seen [] = Inr ()"
| "check_entries lib seen ((key, v) # rest) =
     bindE (valid_if (key \<notin> seen) ''duplicate column metadata key'') (\<lambda>_.
     bindE (if key \<noteq> ''comment'' \<and> key \<noteq> ''tags'' then Inr ()
            else bindE (valid_if (l_utf8 lib v) ''column metadata must be UTF-8'') (\<lambda>_.
              if key = ''tags'' then check_tags lib v else Inr ())) (\<lambda>_.
     check_entries lib (insert key seen) rest))"

definition metadata_entries :: "cfield \<Rightarrow> (string \<times> string) list" where
  "metadata_entries f = (case c_metadata f of None \<Rightarrow> [] | Some m \<Rightarrow> m)"

text \<open>\<^verbatim>\<open>validate_column_field\<close> and \<^verbatim>\<open>validate_column_type\<close> call each other.\<close>

fun validate_column_field :: "column_library \<Rightarrow> cfield \<Rightarrow> constraint_error + unit"
and validate_column_type :: "column_library \<Rightarrow> ctype \<Rightarrow> constraint_error + unit"
and validate_column_fields :: "column_library \<Rightarrow> cfield list \<Rightarrow> constraint_error + unit" where
  "validate_column_field lib (CField n t nb m) =
     bindE (check_entries lib {} (case m of None \<Rightarrow> [] | Some es \<Rightarrow> es)) (\<lambda>_. validate_column_type lib t)"
| "validate_column_type lib (CDictionary t) = validate_column_type lib t"
| "validate_column_type lib (CExtension t) = validate_column_type lib t"
| "validate_column_type lib (CStruct fs) = validate_column_fields lib fs"
| "validate_column_type lib (CNested fs) = validate_column_fields lib fs"
| "validate_column_type lib t = Inr ()"
| "validate_column_fields lib [] = Inr ()"
| "validate_column_fields lib (f # fs) =
     bindE (validate_column_field lib f) (\<lambda>_. validate_column_fields lib fs)"

definition validate_column_metadata :: "column_library \<Rightarrow> cfield list \<Rightarrow> constraint_error + unit" where
  "validate_column_metadata lib cols = validate_column_fields lib cols"

subsection \<open>Generated columns\<close>

definition GENERATED_COLUMN_KEY :: string where
  "GENERATED_COLUMN_KEY = ''vgi.column.generated.v1''"

definition GENERATION_COLUMN_KEY :: string where
  "GENERATION_COLUMN_KEY = ''vgi.column.generation.v1''"

definition generated_text :: "column_library \<Rightarrow> string \<Rightarrow> nat \<Rightarrow> constraint_error + unit" where
  "generated_text lib v limit =
     valid_if (v \<noteq> [] \<and> length v \<le> limit \<and> NUL \<notin> set v \<and> l_utf8 lib v) ''invalid generated expression text''"

definition check_context :: "column_library \<Rightarrow> arr \<Rightarrow> cell \<Rightarrow> constraint_error + unit" where
  "check_context lib a c =
     (let children = map snd (struct_cells a c); string_at = (\<lambda>i. if i < length children then text_of (children ! i) else []) in
      bindE (eachE (\<lambda>x. valid_if (x \<noteq> Null) ''required expression context is NULL'') children) (\<lambda>_.
      bindE (generated_text lib (string_at 0) 256) (\<lambda>_.
      bindE (generated_text lib (string_at 1) 256) (\<lambda>_.
      valid_if ((string_at 2 = ''asc'' \<or> string_at 2 = ''desc'') \<and>
          string_at 3 \<in> {''nulls_first'', ''nulls_last'', ''nulls_first_on_asc_last_on_desc'', ''nulls_last_on_asc_first_on_desc''})
        ''invalid expression evaluation context''))))"

definition check_expression_row :: "column_library \<Rightarrow> path \<Rightarrow> batch \<Rightarrow> constraint_error + unit" where
  "check_expression_row lib owner row =
     bindE (eachE (\<lambda>(f, a). bindE (wire (at0 a)) (\<lambda>c. valid_if (c \<noteq> Null) ''required expression field is NULL'')) (columns row)) (\<lambda>_.
     bindE (wire (get_string (Some row) ''sql'')) (\<lambda>sql.
     bindE (generated_text lib sql (1024 * 1024)) (\<lambda>_.
     bindE (if list_all (\<lambda>c. c \<in> set '' '' \<or> c \<in> {CHR 0x09, CHR 0x0D, CHR 0x0A}) sql then Inr True
            else bindE (wire (get_string (Some row) ''profile'')) (\<lambda>p. Inr (p \<noteq> ''vgi.expression.duckdb.scalar.v1''))) (\<lambda>bad.
     bindE (valid_if (\<not> bad) ''unsupported generated profile or empty SQL'') (\<lambda>_.
     bindE (wire (get_string_list (Some row) ''schema_path'')) (\<lambda>path.
     bindE (valid_if (length path \<le> 32 \<and> path = owner) ''generated expression owner differs from table schema'') (\<lambda>_.
     bindE (eachE (\<lambda>part. generated_text lib part 4096) path) (\<lambda>_.
     bindE (wire (column (Some row) ''evaluation_context'')) (\<lambda>context.
     bindE (wire (at0 context)) (\<lambda>c. check_context lib context c))))))))))"

definition expression_limit :: nat where
  "expression_limit = 8 * 1024 * 1024"

definition validate_generated_expression :: "column_library \<Rightarrow> string \<Rightarrow> path \<Rightarrow> constraint_error + unit" where
  "validate_generated_expression lib encoded owner =
     bindE (valid_if (encoded \<noteq> [] \<and> length encoded \<le> 4 * ((expression_limit + 2) div 3)) ''invalid expression size'') (\<lambda>_.
     let bs = l_base64_decode lib encoded in
     bindE (valid_if (bs \<noteq> [] \<and> length bs \<le> expression_limit \<and> l_base64_encode lib bs = encoded)
       ''expression requires canonical base64 IPC'') (\<lambda>_.
     case l_expression lib bs of
       Inl message \<Rightarrow> Inl (Invalid message)
     | Inr x \<Rightarrow>
         (case x_row x of
            None \<Rightarrow> Inl (Invalid ''invalid SqlExpression record schema'')
          | Some row \<Rightarrow>
              bindE (valid_if (num_rows row = 1 \<and> map fst (columns row) = SqlExpressionSchema) ''invalid SqlExpression record schema'') (\<lambda>_.
              bindE (valid_if (x_valid x) ''invalid expression buffers'') (\<lambda>_.
              bindE (check_expression_row lib owner row) (\<lambda>_.
              valid_if (\<not> x_more x \<and> x_at_end x) ''expression requires exactly one complete IPC batch''))))))"

text \<open>The checks on one field's metadata in \<^verbatim>\<open>validate_column_expressions\<close>.\<close>

definition unknown_version :: "string \<Rightarrow> bool" where
  "unknown_version key \<longleftrightarrow>
     starts_with key ''vgi.column.generated.'' \<and> key \<noteq> GENERATED_COLUMN_KEY \<or>
     starts_with key ''vgi.column.generation.'' \<and> key \<noteq> GENERATION_COLUMN_KEY"

definition check_expression_entries ::
    "column_library \<Rightarrow> path \<Rightarrow> bool \<Rightarrow> (string \<times> string) list \<Rightarrow> constraint_error + unit" where
  "check_expression_entries lib owner allow_generated m =
     (let has = (\<lambda>key. key \<in> fst ` set m); get = (\<lambda>key. the (map_of m key)) in
      bindE (eachE (\<lambda>(key, v). valid_if (\<not> unknown_version key) ''unknown generated metadata version'') m) (\<lambda>_.
      bindE (valid_if (\<not> has ''generated_expression'')
        ''legacy generated_expression metadata cannot be read here; declare vgi.column.generated.v1 with vgi::generated_expression_metadata()'') (\<lambda>_.
      bindE (valid_if (has GENERATED_COLUMN_KEY = has GENERATION_COLUMN_KEY)
        ''generated expression and category must occur together'') (\<lambda>_.
      if \<not> has GENERATED_COLUMN_KEY then Inr ()
      else
        bindE (valid_if (get GENERATION_COLUMN_KEY = ''virtual'') ''only VIRTUAL generated columns are supported'') (\<lambda>_.
        bindE (valid_if (\<not> has ''default'' \<and> \<not> has ''vgi.column.default.v1'') ''generated column cannot have a default'') (\<lambda>_.
        bindE (validate_generated_expression lib (get GENERATED_COLUMN_KEY) owner) (\<lambda>_.
        valid_if allow_generated ''generated columns unsupported by this catalog'')))))))"

fun expression_field :: "column_library \<Rightarrow> path \<Rightarrow> bool \<Rightarrow> cfield \<Rightarrow> constraint_error + unit"
and expression_type :: "column_library \<Rightarrow> path \<Rightarrow> bool \<Rightarrow> ctype \<Rightarrow> constraint_error + unit"
and expression_fields :: "column_library \<Rightarrow> path \<Rightarrow> bool \<Rightarrow> cfield list \<Rightarrow> constraint_error + unit" where
  "expression_field lib owner allow (CField n t nb m) =
     bindE (case m of None \<Rightarrow> Inr () | Some es \<Rightarrow> check_expression_entries lib owner allow es) (\<lambda>_.
     expression_type lib owner allow t)"
| "expression_type lib owner allow (CDictionary t) = expression_type lib owner allow t"
| "expression_type lib owner allow (CExtension t) = expression_type lib owner allow t"
| "expression_type lib owner allow (CStruct fs) = expression_fields lib owner allow fs"
| "expression_type lib owner allow (CNested fs) = expression_fields lib owner allow fs"
| "expression_type lib owner allow t = Inr ()"
| "expression_fields lib owner allow [] = Inr ()"
| "expression_fields lib owner allow (f # fs) =
     bindE (expression_field lib owner allow f) (\<lambda>_. expression_fields lib owner allow fs)"

definition validate_column_expressions ::
    "column_library \<Rightarrow> cfield list \<Rightarrow> path \<Rightarrow> bool \<Rightarrow> constraint_error + unit" where
  "validate_column_expressions lib cols owner allow_generated = expression_fields lib owner allow_generated cols"

text \<open>The SQL of the generated columns of a checked schema; empty for a physical column.\<close>

definition generated_expression_sql ::
    "column_library \<Rightarrow> (bytes \<Rightarrow> wire_error + batch option) \<Rightarrow> string \<Rightarrow> constraint_error + string" where
  "generated_expression_sql lib ipc encoded =
     wire (bindE (decode_ipc ipc (l_base64_decode lib encoded)) (\<lambda>b. get_string b ''sql''))"

definition generated_column_sql ::
    "column_library \<Rightarrow> (bytes \<Rightarrow> wire_error + batch option) \<Rightarrow> cfield list \<Rightarrow> constraint_error + string list" where
  "generated_column_sql lib ipc cols =
     mapE (\<lambda>f. if has_key f GENERATED_COLUMN_KEY
               then generated_expression_sql lib ipc (the (map_of (metadata_entries f) GENERATED_COLUMN_KEY)) else Inr []) cols"


subsection \<open>What an accepted schema is free of\<close>

text \<open>All fields of a schema, at any depth.\<close>

fun all_of_field :: "cfield \<Rightarrow> cfield list"
and all_of_type :: "ctype \<Rightarrow> cfield list"
and all_of_fields :: "cfield list \<Rightarrow> cfield list" where
  "all_of_field (CField n t nb m) = CField n t nb m # all_of_type t"
| "all_of_type (CDictionary t) = all_of_type t"
| "all_of_type (CExtension t) = all_of_type t"
| "all_of_type (CStruct fs) = all_of_fields fs"
| "all_of_type (CNested fs) = all_of_fields fs"
| "all_of_type t = []"
| "all_of_fields [] = []"
| "all_of_fields (f # fs) = all_of_field f @ all_of_fields fs"

lemma validate_column_iff:
  "validate_column_field lib f = Inr () \<longleftrightarrow> (\<forall>g \<in> set (all_of_field f). check_entries lib {} (metadata_entries g) = Inr ())"
  "validate_column_type lib t = Inr () \<longleftrightarrow> (\<forall>g \<in> set (all_of_type t). check_entries lib {} (metadata_entries g) = Inr ())"
  "validate_column_fields lib fs = Inr () \<longleftrightarrow> (\<forall>g \<in> set (all_of_fields fs). check_entries lib {} (metadata_entries g) = Inr ())"
  by (induction f and t and fs rule: all_of_field_all_of_type_all_of_fields.induct) (auto simp: metadata_entries_def)

lemma expression_iff:
  "expression_field lib ow al f = Inr () \<longleftrightarrow> (\<forall>g \<in> set (all_of_field f). \<forall>m. c_metadata g = Some m \<longrightarrow> check_expression_entries lib ow al m = Inr ())"
  "expression_type lib ow al t = Inr () \<longleftrightarrow> (\<forall>g \<in> set (all_of_type t). \<forall>m. c_metadata g = Some m \<longrightarrow> check_expression_entries lib ow al m = Inr ())"
  "expression_fields lib ow al fs = Inr () \<longleftrightarrow> (\<forall>g \<in> set (all_of_fields fs). \<forall>m. c_metadata g = Some m \<longrightarrow> check_expression_entries lib ow al m = Inr ())"
  by (induction f and t and fs rule: all_of_field_all_of_type_all_of_fields.induct) (auto split: option.splits)

lemma check_entries_distinct:
  "check_entries lib seen es = Inr () \<Longrightarrow> distinct (map fst es) \<and> set (map fst es) \<inter> seen = {}"
  by (induction lib seen es rule: check_entries.induct) auto

lemma metadata_keys_distinct:
  assumes "validate_column_metadata lib cols = Inr ()" "g \<in> set (all_of_fields cols)"
  shows "distinct (map fst (metadata_entries g))"
  using assms check_entries_distinct validate_column_iff(3) unfolding validate_column_metadata_def by blast

text \<open>Where generated columns are not allowed, no field at any depth is one.\<close>

lemma no_generated_entries:
  "check_expression_entries lib ow False m = Inr () \<Longrightarrow>
     GENERATED_COLUMN_KEY \<notin> fst ` set m \<and> GENERATION_COLUMN_KEY \<notin> fst ` set m \<and> ''generated_expression'' \<notin> fst ` set m"
  by (auto simp: check_expression_entries_def Let_def split: if_splits)

lemma no_generated_columns:
  assumes "validate_column_expressions lib cols ow False = Inr ()" "g \<in> set (all_of_fields cols)"
  shows "\<not> has_key g GENERATED_COLUMN_KEY \<and> \<not> has_key g GENERATION_COLUMN_KEY"
proof (cases "c_metadata g")
  case (Some m)
  then have "check_expression_entries lib ow False m = Inr ()"
    using assms expression_iff(3) unfolding validate_column_expressions_def by blast
  with no_generated_entries Some show ?thesis by (simp add: has_key_def)
qed (simp add: has_key_def)

end
