(* ===== verification/Ordered_Map.thy ===== *)
theory Ordered_Map
  imports Prelude
begin

section \<open>Maps ordered by key\<close>

text \<open>
  \<^verbatim>\<open>std::map<std::string, V>\<close>: an association list in the order of the keys, unsigned bytes compared
  lexicographically, with no key twice. The locale \<open>keyed_store\<close> is what its clients use of it.
\<close>

locale keyed_store =
  fixes get :: "'m \<Rightarrow> string \<Rightarrow> 'v option"
    and put :: "string \<Rightarrow> 'v \<Rightarrow> 'm \<Rightarrow> 'm"
    and del :: "string \<Rightarrow> 'm \<Rightarrow> 'm"
    and entries :: "'m \<Rightarrow> (string \<times> 'v) list"
    and inv :: "'m \<Rightarrow> bool"
  assumes get_put: "get (put k v m) k' = (if k' = k then Some v else get m k')"
    and get_del: "get (del k m) k' = (if k' = k then None else get m k')"
    and inv_put: "inv m \<Longrightarrow> inv (put k v m)"
    and inv_del: "inv m \<Longrightarrow> inv (del k m)"
    and entries_get: "inv m \<Longrightarrow> (k, v) \<in> set (entries m) \<longleftrightarrow> get m k = Some v"
begin

lemma entries_put:
  assumes "inv m"
  shows "set (entries (put k v m)) = insert (k, v) {e \<in> set (entries m). fst e \<noteq> k}"
  using assms by (auto simp: entries_get inv_put get_put split: if_splits)

lemma entries_del:
  assumes "inv m"
  shows "set (entries (del k m)) = {e \<in> set (entries m). fst e \<noteq> k}"
  using assms by (auto simp: entries_get inv_del get_del split: if_splits)

text \<open>A property of every entry survives a change to one of them.\<close>

lemma all_put: "inv m \<Longrightarrow> (\<forall>(k', v') \<in> set (entries m). P k' v') \<Longrightarrow> P k v \<Longrightarrow> \<forall>(k', v') \<in> set (entries (put k v m)). P k' v'"
  by (auto simp: entries_put)

lemma all_del: "inv m \<Longrightarrow> (\<forall>(k', v') \<in> set (entries m). P k' v') \<Longrightarrow> \<forall>(k', v') \<in> set (entries (del k m)). P k' v'"
  by (auto simp: entries_del)

end

subsection \<open>The association list\<close>

fun om_put :: "string \<Rightarrow> 'v \<Rightarrow> (string \<times> 'v) list \<Rightarrow> (string \<times> 'v) list" where
  "om_put k v [] = [(k, v)]"
| "om_put k v ((k', v') # m) =
     (if k = k' then (k, v) # m else if string_le k k' then (k, v) # (k', v') # m else (k', v') # om_put k v m)"

definition om_del :: "string \<Rightarrow> (string \<times> 'v) list \<Rightarrow> (string \<times> 'v) list" where
  "om_del k m = filter (\<lambda>e. fst e \<noteq> k) m"

definition string_less :: "string \<Rightarrow> string \<Rightarrow> bool" where
  "string_less a b \<longleftrightarrow> string_le a b \<and> a \<noteq> b"

definition om_inv :: "(string \<times> 'v) list \<Rightarrow> bool" where
  "om_inv m \<longleftrightarrow> sorted_wrt string_less (map fst m)"

lemma string_le_refl [simp]: "string_le a a"
  by (induction a) auto

lemma string_le_antisym: "string_le a b \<Longrightarrow> string_le b a \<Longrightarrow> a = b"
  by (induction a b rule: string_le.induct) (auto simp: neq_Nil_conv elim: string_le.elims)

lemma string_le_trans: "string_le a b \<Longrightarrow> string_le b c \<Longrightarrow> string_le a c"
proof (induction a b arbitrary: c rule: string_le.induct)
  case (3 x s y t)
  then show ?case by (cases c) auto
qed auto

lemma string_le_total: "string_le a b \<or> string_le b a"
  by (induction a b rule: string_le.induct) auto

lemma string_less_trans: "string_less a b \<Longrightarrow> string_less b c \<Longrightarrow> string_less a c"
  using string_le_trans string_le_antisym unfolding string_less_def by blast

lemma map_of_om_put: "map_of (om_put k v m) k' = (if k' = k then Some v else map_of m k')"
  by (induction k v m rule: om_put.induct) auto

lemma map_of_om_del: "map_of (om_del k m) k' = (if k' = k then None else map_of m k')"
  by (induction m) (auto simp: om_del_def)

lemma set_om_put_keys: "fst ` set (om_put k v m) = insert k (fst ` set m)"
  by (induction k v m rule: om_put.induct) auto

lemma om_inv_put: "om_inv m \<Longrightarrow> om_inv (om_put k v m)"
proof (induction k v m rule: om_put.induct)
  case (2 k v k' v' m)
  consider "k = k'" | "k \<noteq> k'" "string_le k k'" | "k \<noteq> k'" "\<not> string_le k k'" by blast
  then show ?case
  proof cases
    case 2
    then have "string_less k k'" by (simp add: string_less_def)
    with 2 \<open>om_inv ((k', v') # m)\<close> show ?thesis by (auto simp: om_inv_def intro: string_less_trans)
  next
    case 3
    then have "string_less k' k" using string_le_total by (auto simp: string_less_def)
    moreover have "\<forall>x \<in> fst ` set m. string_less k' x" "om_inv m" using \<open>om_inv ((k', v') # m)\<close> by (auto simp: om_inv_def)
    ultimately show ?thesis using 3 "2.IH" set_om_put_keys [of k v m] by (simp add: om_inv_def)
  qed (use \<open>om_inv ((k', v') # m)\<close> in \<open>simp add: om_inv_def\<close>)
qed (simp add: om_inv_def)

lemma om_inv_del: "om_inv m \<Longrightarrow> om_inv (om_del k m)"
  by (induction m) (auto simp: om_inv_def om_del_def)

lemma om_distinct: "om_inv m \<Longrightarrow> distinct (map fst m)"
  by (induction m) (auto simp: om_inv_def string_less_def)

interpretation om: keyed_store map_of om_put om_del "\<lambda>m. m" om_inv
proof (unfold_locales, goal_cases)
  case (5 m k v)
  then show ?case using map_of_eq_Some_iff [OF om_distinct] by metis
qed (simp_all add: map_of_om_put map_of_om_del om_inv_put om_inv_del)

text \<open>Erasing several keys, and erasing the keys that satisfy a condition.\<close>

definition om_del_all :: "string list \<Rightarrow> (string \<times> 'v) list \<Rightarrow> (string \<times> 'v) list" where
  "om_del_all ks m = fold om_del ks m"

lemma om_del_all_eq: "om_del_all ks m = filter (\<lambda>e. fst e \<notin> set ks) m"
  unfolding om_del_all_def by (induction ks arbitrary: m) (auto simp: om_del_def intro: filter_cong)

lemma om_inv_filter: "om_inv m \<Longrightarrow> om_inv (filter P m)"
  by (induction m) (auto simp: om_inv_def)

text \<open>\<^verbatim>\<open>emplace\<close>: the first value of a key stays.\<close>

fun om_of_list :: "(string \<times> 'v) list \<Rightarrow> (string \<times> 'v) list \<Rightarrow> (string \<times> 'v) list" where
  "om_of_list [] m = m"
| "om_of_list ((k, v) # es) m = om_of_list es (if map_of m k = None then om_put k v m else m)"

lemma om_inv_of_list: "om_inv m \<Longrightarrow> om_inv (om_of_list es m)"
  by (induction es m rule: om_of_list.induct) (auto simp: om_inv_put)

lemma om_inv_Nil [simp]: "om_inv []"
  by (simp add: om_inv_def)

end
