(* ===== verification/Memory_Catalog.thy ===== *)
theory Memory_Catalog
  imports Catalog_Contents Capabilities Column_Metadata Ordered_Map
begin

section \<open>The in-memory catalog\<close>

text \<open>
  \<^verbatim>\<open>src/src/memory_catalog.cpp\<close>: schemas, tables and views created by DDL, kept per attachment. The maps are
  ordered maps; \<open>attaches\<close> is the map of attachments and every operation takes and returns it. Each
  operation holds the catalog's mutex from its first look at the state to its last change, so it is
  one step. What is random, sealed or decoded by a library is in the record \<open>memory_env\<close>.
\<close>

record memory_env =
  m_lib :: catalog_library
  m_columns :: column_library
  m_capabilities :: "bytes \<Rightarrow> string + stream_read"
  m_empty :: "dtype \<Rightarrow> arr"
  m_seal :: "bytes \<Rightarrow> bytes"
  m_token :: bytes

record memory_options =
  mo_name :: string
  mo_comment :: "string option"
  mo_unversioned :: bool
  mo_supports_catalog_contents :: bool
  mo_handler :: "contents_handler option"
  mo_etag :: etag_mode

record mobject =
  o_name :: string
  o_item :: bytes

record mschema =
  ms_path :: path
  ms_comment :: "string option"
  ms_tags :: "(string \<times> string) list"
  ms_tables :: "(string \<times> mobject) list"
  ms_views :: "(string \<times> mobject) list"

record mstate =
  st_version :: int
  st_constraints :: bool
  st_schemas :: "(string \<times> mschema) list"

type_synonym attaches = "(string \<times> mstate) list"

subsection \<open>Reading the parameters\<close>

fun map_cells :: "cell \<Rightarrow> (cell \<times> cell) list" where
  "map_cells (VMap es) = es" | "map_cells _ = []"

definition view_map :: "batch option \<Rightarrow> string \<Rightarrow> constraint_error + (string \<times> string) list" where
  "view_map b name =
     bindE (wire (column b name)) (\<lambda>a.
     case arr_type a of
       TMap k v \<Rightarrow>
         bindE (wire (at0 a)) (\<lambda>c.
         if c = Null then Inr []
         else bindE (valid_if (is_string (field_type k) \<and> is_string (field_type v)) ''view metadata must be a string map'') (\<lambda>_.
           bindE (mapE (\<lambda>(x, y).
             bindE (valid_if (x \<noteq> Null \<and> y \<noteq> Null) ''view metadata cannot contain null entries'') (\<lambda>_.
             Inr (text_of x, text_of y))) (map_cells c)) (\<lambda>es.
           Inr (om_of_list es []))))
     | _ \<Rightarrow> Inl (Invalid ''view metadata must be a string map''))"

definition on_conflict_replaces :: "string \<Rightarrow> string \<Rightarrow> string \<Rightarrow> constraint_error + bool" where
  "on_conflict_replaces kind name on_conflict =
     (let action = upper on_conflict in
      if action = ''REPLACE'' then Inr True
      else if action = ''IGNORE'' then Inr False
      else Inl (Invalid (kind @ '' with name '' @ CHR 0x22 # name @ CHR 0x22 # '' already exists'')))"

definition value_or :: "'a option \<Rightarrow> 'a \<Rightarrow> 'a" where
  "value_or v d = (case v of None \<Rightarrow> d | Some x \<Rightarrow> x)"

definition unwrap :: "(bytes \<Rightarrow> wire_error + batch option) \<Rightarrow> batch option \<Rightarrow> constraint_error + batch option" where
  "unwrap ipc params =
     (case params of
        None \<Rightarrow> Inr None
      | Some b \<Rightarrow>
          if GetFieldIndex (map fst (columns b)) ''request'' \<noteq> None \<and>
             GetFieldIndex (map fst (columns b)) ''attach_opaque_data'' = None
          then bindE (wire (get_ipc ipc params ''request'')) (\<lambda>inner.
            Inr (case inner of None \<Rightarrow> params | Some i \<Rightarrow> inner))
          else Inr params)"

text \<open>\<^verbatim>\<open>catalog_of\<close>: what stands before the first NUL, if something does.\<close>

definition catalog_of :: "bytes \<Rightarrow> string option" where
  "catalog_of data = (if NUL \<notin> set data \<or> takeWhile (\<lambda>c. c \<noteq> NUL) data = [] then None else Some (takeWhile (\<lambda>c. c \<noteq> NUL) data))"

subsection \<open>State\<close>

definition state_of :: "memory_options \<Rightarrow> string \<Rightarrow> attaches \<Rightarrow> constraint_error + mstate" where
  "state_of opts attach as =
     (case map_of as attach of
        None \<Rightarrow> Inl (Invalid (mo_name opts @ '': not attached (its state lives in the worker process that attached it)''))
      | Some st \<Rightarrow> Inr st)"

definition reported_version :: "memory_options \<Rightarrow> mstate \<Rightarrow> int" where
  "reported_version opts st = (if mo_unversioned opts then 0 else st_version st)"

definition bump :: "mstate \<Rightarrow> mstate" where
  "bump st = st\<lparr>st_version := st_version st + 1\<rparr>"

definition sorted_schemas :: "mstate \<Rightarrow> mschema list" where
  "sorted_schemas st = sort_key (\<lambda>s. length (ms_path s)) (map snd (st_schemas st))"

definition SchemaInfoSchema :: "field list" where
  "SchemaInfoSchema = [Field ''comment'' TString True, Field ''tags'' (map_type TString) False,
     Field ''path'' (list_type TString) False, Field ''estimated_object_count'' (map_type TInt64) True,
     Field ''options'' TBinary True]"

definition build_filled ::
    "(dtype \<Rightarrow> arr) \<Rightarrow> field list \<Rightarrow> (result_builder \<Rightarrow> wire_error + result_builder) list \<Rightarrow> constraint_error + batch" where
  "build_filled ev fs setters =
     wire (bindE (set_all setters (ResultBuilder fs)) (\<lambda>b. bindE (fill_defaults ev b) finish))"

definition schema_item :: "memory_env \<Rightarrow> mschema \<Rightarrow> constraint_error + bytes" where
  "schema_item env s =
     bindE (build_filled (m_empty env) SchemaInfoSchema
       [set_string_list ''path'' (ms_path s), set_optional_string ''comment'' (ms_comment s), set_string_map ''tags'' (ms_tags s)]) (\<lambda>b.
     Inr (k_encode (m_lib env) b))"

definition snapshot_schema :: "memory_env \<Rightarrow> mschema \<Rightarrow> constraint_error + schema_contents" where
  "snapshot_schema env s =
     bindE (schema_item env s) (\<lambda>item.
     Inr \<lparr>sc_path = ms_path s, sc_schema = item, sc_tables = map (o_item \<circ> snd) (ms_tables s),
          sc_views = map (o_item \<circ> snd) (ms_views s), sc_scalar_functions = [], sc_aggregate_functions = [],
          sc_table_functions = [], sc_scalar_macros = [], sc_table_macros = [], sc_indexes = []\<rparr>)"

definition snapshot :: "memory_env \<Rightarrow> memory_options \<Rightarrow> string \<Rightarrow> attaches \<Rightarrow> constraint_error + schema_contents list" where
  "snapshot env opts attach as =
     bindE (state_of opts attach as) (\<lambda>st. mapE (snapshot_schema env) (sorted_schemas st))"

subsection \<open>Schemas\<close>

definition missing_schema :: "path \<Rightarrow> string" where
  "missing_schema p = ''Schema '' @ path_display p @ '' does not exist''"

definition schema_create :: "memory_options \<Rightarrow> string \<Rightarrow> batch option \<Rightarrow> attaches \<Rightarrow> constraint_error + attaches" where
  "schema_create opts attach params as =
     bindE (wire (get_schema_path params ''path'')) (\<lambda>p.
     bindE (valid_if (p \<noteq> []) ''schema path is empty'') (\<lambda>_.
     bindE (state_of opts attach as) (\<lambda>st.
     bindE (if map_of (st_schemas st) (path_key p) = None then Inr True
            else bindE (wire (get_optional_enum params ''on_conflict'')) (\<lambda>a.
              on_conflict_replaces ''Schema'' (path_display p) (value_or a []))) (\<lambda>store.
     if \<not> store then Inr as
     else
       bindE (valid_if (length p \<le> 1 \<or> map_of (st_schemas st) (path_key (butlast p)) \<noteq> None) (missing_schema (butlast p))) (\<lambda>_.
       bindE (wire (get_optional_string params ''comment'')) (\<lambda>comment.
       bindE (view_map params ''tags'') (\<lambda>tags.
       Inr (om_put attach (bump (st\<lparr>st_schemas := om_put (path_key p)
         \<lparr>ms_path = p, ms_comment = comment, ms_tags = tags, ms_tables = [], ms_views = []\<rparr> (st_schemas st)\<rparr>)) as)))))))) "

text \<open>The keys of the schemas below a key.\<close>

definition is_below :: "string \<Rightarrow> string \<Rightarrow> bool" where
  "is_below key other \<longleftrightarrow> length key < length other \<and> take (length key) other = key \<and> other ! length key = NUL"

definition children_keys :: "string \<Rightarrow> mstate \<Rightarrow> string list" where
  "children_keys key st = filter (is_below key) (map fst (st_schemas st))"

definition schema_drop :: "memory_options \<Rightarrow> string \<Rightarrow> batch option \<Rightarrow> attaches \<Rightarrow> constraint_error + attaches" where
  "schema_drop opts attach params as =
     bindE (wire (get_schema_path params ''path'')) (\<lambda>p.
     bindE (state_of opts attach as) (\<lambda>st.
     case map_of (st_schemas st) (path_key p) of
       None \<Rightarrow>
         bindE (wire (get_optional_bool params ''ignore_not_found'')) (\<lambda>ignore.
         if value_or ignore False then Inr as else Inl (Invalid (missing_schema p)))
     | Some found \<Rightarrow>
         let children = children_keys (path_key p) st;
             is_empty = (ms_tables found = [] \<and> ms_views found = [] \<and> children = []) in
         bindE (if is_empty then Inr True
                else bindE (wire (get_optional_bool params ''cascade'')) (\<lambda>c. Inr (value_or c False))) (\<lambda>ok.
         bindE (valid_if ok (''Schema '' @ path_display p @ '' is not empty; use CASCADE'')) (\<lambda>_.
         Inr (om_put attach (bump (st\<lparr>st_schemas := om_del (path_key p) (om_del_all children (st_schemas st))\<rparr>)) as)))))"

subsection \<open>Objects\<close>

definition objects_of :: "bool \<Rightarrow> mschema \<Rightarrow> (string \<times> mobject) list" where
  "objects_of view s = (if view then ms_views s else ms_tables s)"

definition with_objects :: "bool \<Rightarrow> (string \<times> mobject) list \<Rightarrow> mschema \<Rightarrow> mschema" where
  "with_objects view os s = (if view then s\<lparr>ms_views := os\<rparr> else s\<lparr>ms_tables := os\<rparr>)"

definition put_object ::
    "memory_options \<Rightarrow> string \<Rightarrow> path \<Rightarrow> string \<Rightarrow> string \<Rightarrow> string \<Rightarrow> bool \<Rightarrow> bytes \<Rightarrow> attaches \<Rightarrow> constraint_error + attaches" where
  "put_object opts attach p name kind on_conflict view item as =
     bindE (state_of opts attach as) (\<lambda>st.
     case map_of (st_schemas st) (path_key p) of
       None \<Rightarrow> Inl (Invalid (missing_schema p))
     | Some s \<Rightarrow>
         let objects = objects_of view s; key = lower name in
         bindE (if map_of objects key = None then Inr True else on_conflict_replaces kind name on_conflict) (\<lambda>store.
         if \<not> store then Inr as
         else Inr (om_put attach (bump (st\<lparr>st_schemas := om_put (path_key p)
           (with_objects view (om_put key \<lparr>o_name = name, o_item = item\<rparr> objects) s) (st_schemas st)\<rparr>)) as)))"

definition drop_object ::
    "memory_options \<Rightarrow> string \<Rightarrow> path \<Rightarrow> string \<Rightarrow> string \<Rightarrow> bool \<Rightarrow> bool \<Rightarrow> attaches \<Rightarrow> constraint_error + attaches" where
  "drop_object opts attach p name kind ignore_not_found view as =
     bindE (state_of opts attach as) (\<lambda>st.
     let absent = (if ignore_not_found then Inr as else Inl (Invalid (kind @ '' with name '' @ name @ '' does not exist''))) in
     case map_of (st_schemas st) (path_key p) of
       None \<Rightarrow> absent
     | Some s \<Rightarrow>
         let objects = objects_of view s in
         if map_of objects (lower name) = None then absent
         else Inr (om_put attach (bump (st\<lparr>st_schemas := om_put (path_key p)
           (with_objects view (om_del (lower name) objects) s) (st_schemas st)\<rparr>)) as))"

end
