(* ===== verification/Memory_Serve.thy ===== *)
theory Memory_Serve
  imports Memory_Catalog
begin

section \<open>Serving the in-memory catalog\<close>

text \<open>
  \<^verbatim>\<open>MemoryCatalog::serve\<close> of \<^verbatim>\<open>src/src/memory_catalog.cpp\<close>, one definition per group of methods. A call returns
  a payload, nothing (a void method) or an exception, and the attachments as it leaves them.
\<close>

type_synonym served = "(constraint_error + batch option) \<times> attaches"

text \<open>A call that changes nothing unless it returns.\<close>

definition committed :: "constraint_error + attaches \<Rightarrow> attaches \<Rightarrow> served" where
  "committed r as = (case r of Inl e \<Rightarrow> (Inl e, as) | Inr as' \<Rightarrow> (Inr None, as'))"

definition answered :: "constraint_error + batch \<Rightarrow> attaches \<Rightarrow> served" where
  "answered r as = (bindE r (\<lambda>b. Inr (Some b)), as)"

subsection \<open>Payloads\<close>

definition ItemsResultSchema :: "field list" where
  "ItemsResultSchema = [Field ''items'' (list_type TBinary) False]"

definition CatalogVersionResultSchema :: "field list" where
  "CatalogVersionResultSchema = [Field ''version'' TInt64 False]"

definition CatalogTransactionBeginResultSchema :: "field list" where
  "CatalogTransactionBeginResultSchema = [Field ''transaction_opaque_data'' TBinary True]"

definition CatalogAttachResultSchema :: "field list" where
  "CatalogAttachResultSchema = [Field ''attach_opaque_data'' TBinary False, Field ''supports_transactions'' TBool False,
     Field ''supports_time_travel'' TBool False, Field ''catalog_version_frozen'' TBool False,
     Field ''catalog_version'' TInt64 False, Field ''attach_opaque_data_required'' TBool False,
     Field ''default_schema'' TString True, Field ''settings'' (list_type TBinary) False,
     Field ''secret_types'' (list_type TBinary) False, Field ''attach_catalogs'' (list_type TBinary) False,
     Field ''comment'' TString True, Field ''tags'' (map_type TString) False,
     Field ''supports_column_statistics'' TBool False, Field ''global_functions'' (list_type TBinary) False,
     Field ''global_function_prefix'' TString False, Field ''resolved_data_version'' TString True,
     Field ''resolved_implementation_version'' TString True, Field ''supports_catalog_contents'' TBool False,
     Field ''catalog_capabilities'' TBinary True, Field ''selected_capabilities'' TBinary True,
     Field ''query_pushdown'' (TStruct [Field ''encoding'' TString False, Field ''semantic_profiles'' (list_type TString) False,
       Field ''execution_modes'' (list_type TString) False, Field ''backend_engine'' TString False,
       Field ''backend_version'' TString False, Field ''capability_revision'' TString False,
       Field ''default_evaluation_context'' (TStruct QueryEvaluationContextSchema) False,
       Field ''max_query_bytes'' TInt64 False]) True]"

definition TableInfoSchema :: "field list" where
  "TableInfoSchema = [Field ''comment'' TString True, Field ''tags'' (map_type TString) False, Field ''name'' TString False,
     Field ''schema_path'' (list_type TString) False, Field ''columns'' TBinary False,
     Field ''constraints'' (list_type TBinary) False, Field ''definition_revision'' TBinary True,
     Field ''write_result_modes'' (map_type TString) False, Field ''supports_column_statistics'' TBool False,
     Field ''scan_function'' TBinary True, Field ''insert_function'' TBinary True, Field ''update_function'' TBinary True,
     Field ''delete_function'' TBinary True, Field ''cardinality_estimate'' TInt64 True, Field ''cardinality_max'' TInt64 True,
     Field ''column_statistics'' TBinary True, Field ''bind_result'' TBinary True,
     Field ''required_filters'' (list_type (list_type (list_type TString))) False, Field ''options'' TBinary True,
     Field ''layout'' TBinary True]"

definition ViewInfoSchema :: "field list" where
  "ViewInfoSchema = [Field ''comment'' TString True, Field ''tags'' (map_type TString) False, Field ''name'' TString False,
     Field ''schema_path'' (list_type TString) False, Field ''definition'' TString False,
     Field ''column_comments'' (map_type TString) False, Field ''aliases'' (list_type TString) False,
     Field ''security'' TString False]"

definition items_payload :: "bytes list \<Rightarrow> constraint_error + batch" where
  "items_payload its = build_record ItemsResultSchema [set_binary_list ''items'' its]"

subsection \<open>Construction and the listing of catalogs\<close>

text \<open>The constructor: a catalog without a name is refused, a new one has no attachment.\<close>

definition MemoryCatalog :: "memory_options \<Rightarrow> constraint_error + attaches" where
  "MemoryCatalog opts = bindE (valid_if (mo_name opts \<noteq> []) ''MemoryCatalog: name is required'') (\<lambda>_. Inr [])"

definition CatalogInfoSchema :: "field list" where
  "CatalogInfoSchema = [Field ''name'' TString False, Field ''implementation_version'' TString True,
     Field ''data_version_spec'' TString True, Field ''attach_option_specs'' (list_type TBinary) False,
     Field ''releases'' (list_type (TStruct [Field ''version'' TString False,
       Field ''released_at'' (TOther ''timestamp[us, tz=UTC]'') True, Field ''summary'' TString False,
       Field ''notes_url'' TString True])) False,
     Field ''source_url'' TString True]"

definition catalog_info :: "memory_env \<Rightarrow> memory_options \<Rightarrow> constraint_error + bytes" where
  "catalog_info env opts =
     bindE (build_filled (m_empty env) CatalogInfoSchema [set_string ''name'' (mo_name opts)]) (\<lambda>b.
     Inr (k_encode (m_lib env) b))"

subsection \<open>Attaching\<close>

definition memory_catalog_capabilities :: profiles where
  "memory_catalog_capabilities =
     \<lparr>p_read = [CONSTRAINT_RECORDS_READ], p_ddl = [CONSTRAINT_CREATE], p_write = [CONSTRAINT_ENFORCE], p_transaction = []\<rparr>"

definition attach_name :: "memory_env \<Rightarrow> memory_options \<Rightarrow> bytes" where
  "attach_name env opts = mo_name opts @ replicate 3 NUL @ m_token env @ [NUL]"

definition new_state :: "bool \<Rightarrow> mstate" where
  "new_state constraints = \<lparr>st_version = 1, st_constraints = constraints,
     st_schemas = [(path_key [''main''], \<lparr>ms_path = [''main''], ms_comment = None, ms_tags = [], ms_tables = [], ms_views = []\<rparr>)]\<rparr>"

definition attach_payload :: "memory_env \<Rightarrow> memory_options \<Rightarrow> profiles \<Rightarrow> int \<Rightarrow> constraint_error + batch" where
  "attach_payload env opts selected version =
     bindE (encode_catalog_capabilities (k_encode (m_lib env)) memory_catalog_capabilities) (\<lambda>available_bytes.
     bindE (encode_catalog_capabilities (k_encode (m_lib env)) selected) (\<lambda>selected_bytes.
     build_filled (m_empty env) CatalogAttachResultSchema
       [set_binary ''attach_opaque_data'' (m_seal env (attach_name env opts)), set_int64 ''catalog_version'' version,
        set_bool ''catalog_version_frozen'' False, set_bool ''attach_opaque_data_required'' True,
        set_string ''default_schema'' ''main'', set_bool ''supports_catalog_contents'' (mo_supports_catalog_contents opts),
        set_binary ''catalog_capabilities'' available_bytes, set_binary ''selected_capabilities'' selected_bytes,
        set_optional_string ''comment'' (mo_comment opts)]))"

definition attach_selected :: "memory_env \<Rightarrow> memory_options \<Rightarrow> batch option \<Rightarrow> constraint_error + profiles" where
  "attach_selected env opts params =
     bindE (unwrap (k_ipc (m_lib env)) params) (\<lambda>request.
     bindE (wire (get_string request ''name'')) (\<lambda>name.
     bindE (valid_if (name = mo_name opts) (''Unknown catalog: '' @ between_quotes name @ ''. Available: '' @ mo_name opts)) (\<lambda>_.
     bindE (wire (get_optional_binary request ''client_capabilities'')) (\<lambda>client.
     bindE (client_catalog_offer (m_capabilities env) client) (\<lambda>offer.
     Inr (select_catalog_capabilities memory_catalog_capabilities offer))))))"

definition attach :: "memory_env \<Rightarrow> memory_options \<Rightarrow> batch option \<Rightarrow> attaches \<Rightarrow> served" where
  "attach env opts params as =
     (case attach_selected env opts params of
        Inl e \<Rightarrow> (Inl e, as)
      | Inr selected \<Rightarrow>
          let st = new_state (p_ddl selected \<noteq> []) in
          answered (attach_payload env opts selected (reported_version opts st)) (om_put (attach_name env opts) st as))"

subsection \<open>Reading\<close>

definition contents :: "memory_env \<Rightarrow> memory_options \<Rightarrow> string \<Rightarrow> batch option \<Rightarrow> attaches \<Rightarrow> constraint_error + batch" where
  "contents env opts who params as =
     bindE (state_of opts who as) (\<lambda>st.
     bindE (wire (get_optional_string params ''if_none_match'')) (\<lambda>tag.
     let version = reported_version opts st in
     bindE (answer_catalog_contents (m_lib env) (mo_handler opts) (mo_etag opts)
       \<lparr>cc_catalog_name = mo_name opts, cc_catalog_version = version, cc_if_none_match = tag,
        cc_contents = snapshot env opts who as\<rparr>) (\<lambda>answer.
     encode_catalog_contents version answer)))"

definition list_schemas :: "memory_env \<Rightarrow> memory_options \<Rightarrow> string \<Rightarrow> attaches \<Rightarrow> constraint_error + batch" where
  "list_schemas env opts who as =
     bindE (state_of opts who as) (\<lambda>st.
     bindE (mapE (schema_item env) (sorted_schemas st)) items_payload)"

definition schema_get :: "memory_env \<Rightarrow> memory_options \<Rightarrow> string \<Rightarrow> batch option \<Rightarrow> attaches \<Rightarrow> constraint_error + batch" where
  "schema_get env opts who params as =
     bindE (state_of opts who as) (\<lambda>st.
     bindE (wire (get_schema_path params ''path'')) (\<lambda>p.
     case map_of (st_schemas st) (path_key p) of
       None \<Rightarrow> items_payload []
     | Some s \<Rightarrow> bindE (schema_item env s) (\<lambda>item. items_payload [item])))"

definition schema_objects :: "memory_options \<Rightarrow> string \<Rightarrow> bool \<Rightarrow> batch option \<Rightarrow> attaches \<Rightarrow> constraint_error + batch" where
  "schema_objects opts who view params as =
     bindE (state_of opts who as) (\<lambda>st.
     bindE (wire (get_schema_path params ''path'')) (\<lambda>p.
     case map_of (st_schemas st) (path_key p) of
       None \<Rightarrow> items_payload []
     | Some s \<Rightarrow> items_payload (map (o_item \<circ> snd) (objects_of view s))))"

definition object_get :: "memory_options \<Rightarrow> string \<Rightarrow> bool \<Rightarrow> batch option \<Rightarrow> attaches \<Rightarrow> constraint_error + batch" where
  "object_get opts who view params as =
     bindE (state_of opts who as) (\<lambda>st.
     bindE (wire (get_schema_path params ''schema_path'')) (\<lambda>p.
     case map_of (st_schemas st) (path_key p) of
       None \<Rightarrow> items_payload []
     | Some s \<Rightarrow>
         bindE (wire (get_string params ''name'')) (\<lambda>name.
         items_payload (case map_of (objects_of view s) (lower name) of None \<Rightarrow> [] | Some ob \<Rightarrow> [o_item ob]))))"

subsection \<open>Tables\<close>

fun plain_field :: "cfield \<Rightarrow> constraint_error + unit"
and plain_fields :: "cfield list \<Rightarrow> constraint_error + unit"
and plain_children :: "ctype \<Rightarrow> constraint_error + unit" where
  "plain_field (CField n t nb m) =
     (if is_extension t \<or> list_ex (\<lambda>e. starts_with (fst e) ''ARROW:extension:'' \<or> starts_with (fst e) ''vgi.logical_type.'')
           (case m of None \<Rightarrow> [] | Some es \<Rightarrow> es)
      then Inl (Unsupported (''catalog_table_create: the in-memory catalog cannot store logical-type column '' @ n @
        '' (UUID, JSON and other extension types)''))
      else plain_children t)"
| "plain_fields [] = Inr ()"
| "plain_fields (f # fs) = bindE (plain_field f) (\<lambda>_. plain_fields fs)"
| "plain_children (CStruct fs) = plain_fields fs"
| "plain_children (CNested fs) = plain_fields fs"
| "plain_children t = Inr ()"

definition null_at :: "batch option \<Rightarrow> string \<Rightarrow> constraint_error + bool" where
  "null_at b name = bindE (wire (column b name)) (\<lambda>a. bindE (wire (at0 a)) (\<lambda>c. Inr (c = Null)))"

definition not_null_column :: "(bytes \<Rightarrow> wire_error + batch option) \<Rightarrow> cfield list \<Rightarrow> bytes \<Rightarrow> constraint_error + string" where
  "not_null_column ipc cols bs =
     bindE (wire (decode_ipc ipc bs)) (\<lambda>definition.
     bindE (valid_if (case definition of None \<Rightarrow> False
         | Some b \<Rightarrow> num_rows b = 1 \<and> map fst (columns b) = ConstraintDefinitionSchema)
       ''catalog_table_create: malformed constraint definition'') (\<lambda>_.
     bindE (wire (get_enum definition ''kind'')) (\<lambda>kind.
     bindE (if kind \<noteq> ''NOT_NULL''
            then Inl (Unsupported (''catalog_table_create: the in-memory catalog supports only NOT NULL constraints; '' @ kind @
              '' (PRIMARY KEY, UNIQUE, CHECK, FOREIGN KEY) cannot be enforced by it'')) else Inr ()) (\<lambda>_.
     bindE (null_at definition ''check_expression'') (\<lambda>no_check.
     bindE (if \<not> no_check then Inr False else null_at definition ''foreign_key'') (\<lambda>no_foreign.
     bindE (if \<not> no_foreign then Inr False else null_at definition ''declared_name'') (\<lambda>no_name.
     bindE (if \<not> no_name then Inl (Unsupported ''catalog_table_create: named or expression NOT NULL is unsupported'') else Inr ()) (\<lambda>_.
     bindE (wire (column definition ''column_paths'')) (\<lambda>outer.
     bindE (wire (at0 outer)) (\<lambda>paths.
     case elements paths of
       [p] \<Rightarrow>
         (case elements p of
            [c] \<Rightarrow>
              bindE (valid_if (length (GetAllFieldIndices cols (text_of c)) = 1)
                (''catalog_table_create: NOT NULL column '' @ text_of c @ '' is not a column of the table'')) (\<lambda>_.
              Inr (text_of c))
          | _ \<Rightarrow> Inl (Unsupported ''catalog_table_create: NOT NULL must name one top-level column''))
     | _ \<Rightarrow> Inl (Unsupported ''catalog_table_create: NOT NULL must name one top-level column'')))))))))))"

fun not_null_loop :: "(bytes \<Rightarrow> wire_error + batch option) \<Rightarrow> cfield list \<Rightarrow> string list \<Rightarrow> bytes list \<Rightarrow> constraint_error + string list" where
  "not_null_loop ipc cols out [] = Inr out"
| "not_null_loop ipc cols out (bs # rest) =
     bindE (not_null_column ipc cols bs) (\<lambda>name.
     not_null_loop ipc cols (if name \<in> set out then out else out @ [name]) rest)"

definition not_null_columns :: "(bytes \<Rightarrow> wire_error + batch option) \<Rightarrow> bytes list \<Rightarrow> cfield list \<Rightarrow> constraint_error + string list" where
  "not_null_columns ipc definitions cols = not_null_loop ipc cols [] definitions"

definition not_null_spec :: "path \<Rightarrow> string \<Rightarrow> string \<Rightarrow> constraint_spec" where
  "not_null_spec p name c = \<lparr>cs_schema_path = p, cs_table = name, cs_id = ''not_null:'' @ c, cs_kind = NotNull, cs_columns = [[c]],
     cs_enforcement = Some Enforced, cs_validation = Some AllRows, cs_declared_name = None, cs_check_sql = None,
     cs_references = None\<rparr>"

definition refuse_metadata :: "batch option \<Rightarrow> constraint_error + unit" where
  "refuse_metadata params =
     eachE (\<lambda>name.
       bindE (case params of None \<Rightarrow> Inr True
              | Some b \<Rightarrow> if GetFieldIndex (map fst (columns b)) name = None then Inr True else null_at params name) (\<lambda>absent.
       if absent then Inr ()
       else Inl (Unsupported ''catalog_table_create: table metadata/options/layout profiles are not supported'')))
     [''comment'', ''tags'', ''options'', ''layout'']"

definition table_item :: "memory_env \<Rightarrow> string \<Rightarrow> path \<Rightarrow> bytes \<Rightarrow> cfield list \<Rightarrow> bytes list \<Rightarrow> constraint_error + bytes" where
  "table_item env name p sent cols records =
     bindE (served_columns (k_ipc (m_lib env)) (k_what (m_lib env)) cols records) (\<lambda>served.
     bindE (build_filled (m_empty env) TableInfoSchema
       [set_string ''name'' name, set_string_list ''schema_path'' p,
        set_binary ''columns'' (if served = cols then sent else k_schema_bytes (m_lib env) served),
        set_binary_list ''constraints'' records,
        if records = [] then set_null ''definition_revision'' else set_binary ''definition_revision'' (m_token env)]) (\<lambda>b.
     Inr (k_encode (m_lib env) b)))"

definition table_create :: "memory_env \<Rightarrow> memory_options \<Rightarrow> string \<Rightarrow> batch option \<Rightarrow> attaches \<Rightarrow> constraint_error + attaches" where
  "table_create env opts who params as =
     (let lib = m_lib env in
      bindE (refuse_metadata params) (\<lambda>_.
      bindE (wire (get_string params ''name'')) (\<lambda>name.
      bindE (wire (get_schema_path params ''schema_path'')) (\<lambda>p.
      bindE (wire (get_binary params ''columns'')) (\<lambda>sent.
      bindE (valid_if (sent \<noteq> []) ''catalog_table_create: missing columns schema'') (\<lambda>_.
      bindE (wire (k_schema lib sent)) (\<lambda>cols.
      bindE (validate_column_metadata (m_columns env) cols) (\<lambda>_.
      bindE (validate_column_expressions (m_columns env) cols p False) (\<lambda>_.
      bindE (plain_fields (filter (\<lambda>f. \<not> row_id f) cols)) (\<lambda>_.
      bindE (wire (get_binary_list params ''constraint_definitions'')) (\<lambda>definitions.
      bindE (if definitions = [] then Inr ()
             else bindE (state_of opts who as) (\<lambda>st.
               if st_constraints st then Inr ()
               else Inl (Unsupported ''catalog_table_create: constraint definitions need the negotiated vgi.constraint.create.v1 profile''))) (\<lambda>_.
      bindE (not_null_columns (k_ipc lib) definitions cols) (\<lambda>names.
      bindE (mapE (\<lambda>c. constraint_record (k_encode lib) (not_null_spec p name c)) names) (\<lambda>records.
      bindE (validate_constraint_records (k_ipc lib) (k_what lib) (k_show_type lib) p name cols records) (\<lambda>_.
      bindE (table_item env name p sent cols records) (\<lambda>item.
      bindE (wire (get_optional_enum params ''on_conflict'')) (\<lambda>a.
      put_object opts who p name ''Table'' (value_or a []) False item as)))))))))))))))))"

subsection \<open>Views\<close>

definition view_create :: "memory_env \<Rightarrow> memory_options \<Rightarrow> string \<Rightarrow> batch option \<Rightarrow> attaches \<Rightarrow> constraint_error + attaches" where
  "view_create env opts who params as =
     bindE (wire (get_string params ''security'')) (\<lambda>security.
     bindE (if security = ''regular'' then Inr () else Inl (Runtime ''view security mode is unsupported'')) (\<lambda>_.
     bindE (wire (get_string params ''name'')) (\<lambda>name.
     bindE (wire (get_schema_path params ''schema_path'')) (\<lambda>p.
     bindE (view_map params ''column_comments'') (\<lambda>comments.
     bindE (eachE (\<lambda>(k, v). valid_if (k \<noteq> [] \<and> NUL \<notin> set k) ''view column comments require raw output identifiers'') comments) (\<lambda>_.
     bindE (wire (get_string params ''definition'')) (\<lambda>sql.
     bindE (wire (get_string_list params ''aliases'')) (\<lambda>aliases.
     bindE (wire (get_optional_string params ''comment'')) (\<lambda>comment.
     bindE (view_map params ''tags'') (\<lambda>tags.
     bindE (build_filled (m_empty env) ViewInfoSchema
       [set_string ''name'' name, set_string_list ''schema_path'' p, set_string ''definition'' sql, set_string_list ''aliases'' aliases,
        set_string ''security'' ''regular'', set_optional_string ''comment'' comment, set_string_map ''tags'' tags,
        set_string_map ''column_comments'' comments]) (\<lambda>info.
     bindE (wire (get_optional_enum params ''on_conflict'')) (\<lambda>a.
     put_object opts who p name ''View'' (value_or a []) True (k_encode (m_lib env) info) as))))))))))))"

text \<open>The item of a view with one of its fields replaced.\<close>

definition updated_view ::
    "memory_env \<Rightarrow> string option \<Rightarrow> string option \<Rightarrow> bytes \<Rightarrow> constraint_error + bytes" where
  "updated_view env col comment item =
     bindE (wire (decode_ipc (k_ipc (m_lib env)) item)) (\<lambda>decoded.
     bindE (case col of
         None \<Rightarrow> Inr (''comment'', set_optional_string ''comment'' comment)
       | Some c \<Rightarrow>
           bindE (view_map decoded ''column_comments'') (\<lambda>old.
           Inr (''column_comments'', set_string_map ''column_comments''
             (case comment of Some text \<Rightarrow> om_put c text old | None \<Rightarrow> om_del c old)))) (\<lambda>(name, setter).
     bindE (build_filled (m_empty env) ViewInfoSchema [setter]) (\<lambda>replacement.
     case (decoded, GetColumnByName replacement name) of
       (Some b, Some a) \<Rightarrow> bindE (set_column b name a) (\<lambda>updated. Inr (k_encode (m_lib env) updated))
     | _ \<Rightarrow> Inl UndefinedRead)))"

definition comment_set :: "memory_env \<Rightarrow> memory_options \<Rightarrow> string \<Rightarrow> bool \<Rightarrow> batch option \<Rightarrow> attaches \<Rightarrow> constraint_error + attaches" where
  "comment_set env opts who is_column params as =
     bindE (if \<not> is_column then Inr None
            else bindE (wire (get_string_list params ''column_path'')) (\<lambda>cp.
              case cp of
                [c] \<Rightarrow> if c \<noteq> [] \<and> NUL \<notin> set c then Inr (Some c)
                       else Inl (Invalid ''view column comments require one raw output identifier'')
              | _ \<Rightarrow> Inl (Invalid ''view column comments require one raw output identifier''))) (\<lambda>col.
     bindE (wire (get_string params ''name'')) (\<lambda>name.
     bindE (wire (get_schema_path params ''schema_path'')) (\<lambda>p.
     bindE (wire (get_optional_string params ''comment'')) (\<lambda>comment.
     bindE (wire (get_bool params ''ignore_not_found'')) (\<lambda>ignore.
     bindE (state_of opts who as) (\<lambda>st.
     case Option.bind (map_of (st_schemas st) (path_key p)) (\<lambda>s. Option.bind (map_of (ms_views s) (lower name)) (\<lambda>v. Some (s, v))) of
       None \<Rightarrow> if ignore then Inr as else Inl (Invalid (''View with name '' @ name @ '' does not exist''))
     | Some (s, v) \<Rightarrow>
         bindE (updated_view env col comment (o_item v)) (\<lambda>item.
         Inr (om_put who (bump (st\<lparr>st_schemas := om_put (path_key p)
           (s\<lparr>ms_views := om_put (lower name) (v\<lparr>o_item := item\<rparr>) (ms_views s)\<rparr>) (st_schemas st)\<rparr>)) as))))))))"

subsection \<open>The router of one call\<close>

definition object_drop :: "memory_options \<Rightarrow> string \<Rightarrow> bool \<Rightarrow> batch option \<Rightarrow> attaches \<Rightarrow> constraint_error + attaches" where
  "object_drop opts who view params as =
     bindE (wire (get_schema_path params ''schema_path'')) (\<lambda>p.
     bindE (wire (get_string params ''name'')) (\<lambda>name.
     bindE (wire (get_optional_bool params ''ignore_not_found'')) (\<lambda>ignore.
     drop_object opts who p name (if view then ''View'' else ''Table'') (value_or ignore False) view as)))"

definition create_schema :: "memory_options \<Rightarrow> string \<Rightarrow> batch option \<Rightarrow> attaches \<Rightarrow> constraint_error + attaches" where
  "create_schema opts who params as =
     bindE (wire (get_optional_binary params ''options'')) (\<lambda>options.
     if options \<noteq> None then Inl (Unsupported ''catalog_schema_create requires negotiated vgi.schema.options.create.v1'')
     else schema_create opts who params as)"

definition empty_methods :: "string list" where
  "empty_methods = [''catalog_schema_contents_functions'', ''catalog_schema_contents_macros'', ''catalog_schema_contents_indexes'',
     ''catalog_macro_get'', ''catalog_index_get'', ''catalog_copy_from_formats'']"

definition serve_call :: "memory_env \<Rightarrow> memory_options \<Rightarrow> string \<Rightarrow> string \<Rightarrow> batch option \<Rightarrow> attaches \<Rightarrow> served" where
  "serve_call env opts method who params as =
     (if method = ''catalog_detach'' then (Inr None, om_del who as)
      else if method = ''catalog_version'' then
        answered (bindE (state_of opts who as) (\<lambda>st.
          build_record CatalogVersionResultSchema [set_int64 ''version'' (reported_version opts st)])) as
      else if method = ''catalog_contents'' then answered (contents env opts who params as) as
      else if method = ''catalog_transaction_begin'' then
        answered (build_filled (m_empty env) CatalogTransactionBeginResultSchema []) as
      else if method = ''catalog_transaction_commit'' \<or> method = ''catalog_transaction_rollback'' then (Inr None, as)
      else if method = ''catalog_schemas'' then answered (list_schemas env opts who as) as
      else if method = ''catalog_schema_get'' then answered (schema_get env opts who params as) as
      else if method = ''catalog_schema_contents_tables'' then answered (schema_objects opts who False params as) as
      else if method = ''catalog_schema_contents_views'' then answered (schema_objects opts who True params as) as
      else if method = ''catalog_table_get'' then answered (object_get opts who False params as) as
      else if method = ''catalog_view_get'' then answered (object_get opts who True params as) as
      else if method \<in> set empty_methods then answered (items_payload []) as
      else if method = ''catalog_schema_create'' then committed (create_schema opts who params as) as
      else if method = ''catalog_schema_drop'' then committed (schema_drop opts who params as) as
      else if method = ''catalog_table_create'' then committed (table_create env opts who params as) as
      else if method = ''catalog_table_drop'' then committed (object_drop opts who False params as) as
      else if method = ''catalog_view_drop'' then committed (object_drop opts who True params as) as
      else if method = ''catalog_view_comment_set'' then committed (comment_set env opts who False params as) as
      else if method = ''catalog_view_column_comment_set'' then committed (comment_set env opts who True params as) as
      else if method = ''catalog_view_create'' then committed (view_create env opts who params as) as
      else (Inl (Invalid (mo_name opts @ '': '' @ method @ '' is not supported by an in-memory catalog'')), as))"

definition serve :: "memory_env \<Rightarrow> memory_options \<Rightarrow> string \<Rightarrow> batch option \<Rightarrow> attaches \<Rightarrow> served" where
  "serve env opts method raw_params as =
     (if method = ''catalog_attach'' then attach env opts raw_params as
      else case bindE (unwrap (k_ipc (m_lib env)) raw_params) (\<lambda>params.
          bindE (wire (get_binary params ''attach_opaque_data'')) (\<lambda>who. Inr (params, who))) of
        Inl e \<Rightarrow> (Inl e, as)
      | Inr (params, who) \<Rightarrow> serve_call env opts method who params as)"

end
