(* ===== verification/Memory_Properties.thy ===== *)
theory Memory_Properties
  imports Memory_Serve
begin

section \<open>What the in-memory catalog guarantees\<close>

text \<open>
  Every call leaves the attachments well formed: each schema under the key of its path, its parent
  present, each object under its folded name. A call changes at most the attachment it names,
  and the version of an attachment changes exactly with its contents. The snapshot of a
  well-formed attachment passes the checks on a catalog's contents.
\<close>

subsection \<open>Keys\<close>

lemma path_key_butlast: "2 \<le> length q \<Longrightarrow> path_key q = path_key (butlast q) @ NUL # last q"
proof (induction q rule: path_key.induct)
  case (3 p q ps)
  then show ?case by (cases ps) auto
qed auto

lemma is_below_iff: "is_below k other \<longleftrightarrow> (\<exists>x. other = k @ NUL # x)"
proof
  assume "is_below k other"
  then have "length k < length other" "take (length k) other = k" "other ! length k = NUL" by (auto simp: is_below_def)
  then show "\<exists>x. other = k @ NUL # x" by (metis append_take_drop_id Cons_nth_drop_Suc)
qed (auto simp: is_below_def)

lemma append_NUL_inject:
  "NUL \<notin> set x \<Longrightarrow> NUL \<notin> set z \<Longrightarrow> x @ NUL # a = z @ NUL # b \<longleftrightarrow> x = z \<and> a = b"
proof (induction x arbitrary: z)
  case Nil
  then show ?case by (cases z) auto
next
  case (Cons c x)
  then show ?case by (cases z) auto
qed

lemma path_key_inject:
  assumes "path_key p = path_key q" "p \<noteq> []" "q \<noteq> []" "\<forall>c \<in> set p. NUL \<notin> set c" "\<forall>c \<in> set q. NUL \<notin> set c"
  shows "p = q"
  using assms
proof (induction p arbitrary: q rule: path_key.induct)
  case (2 x)
  then show ?case by (cases q rule: path_key.cases) (auto dest: arg_cong [of _ _ set])
next
  case (3 x y ps)
  then obtain z w qs where q: "q = z # w # qs" by (cases q rule: path_key.cases) (auto dest: arg_cong [of _ _ set])
  have "x @ NUL # path_key (y # ps) = z @ NUL # path_key (w # qs)" using 3(2) q by simp
  then have "x = z" "path_key (y # ps) = path_key (w # qs)"
    using 3(5,6) q by (simp_all add: append_NUL_inject)
  with 3 q show ?case by auto
qed simp

subsection \<open>Well-formed attachments\<close>

definition objects_ok :: "(string \<times> mobject) list \<Rightarrow> bool" where
  "objects_ok os \<longleftrightarrow> om_inv os \<and> (\<forall>(k, ob) \<in> set os. k = lower (o_name ob))"

definition schema_ok :: "mschema \<Rightarrow> bool" where
  "schema_ok s \<longleftrightarrow> ms_path s \<noteq> [] \<and> om_inv (ms_tags s) \<and> objects_ok (ms_tables s) \<and> objects_ok (ms_views s)"

definition has_parent :: "string set \<Rightarrow> mschema \<Rightarrow> bool" where
  "has_parent keys s \<longleftrightarrow> length (ms_path s) \<le> 1 \<or> path_key (butlast (ms_path s)) \<in> keys"

definition schemas_ok :: "(string \<times> mschema) list \<Rightarrow> bool" where
  "schemas_ok ss \<longleftrightarrow> om_inv ss \<and>
     (\<forall>(k, s) \<in> set ss. k = path_key (ms_path s) \<and> schema_ok s \<and> has_parent (fst ` set ss) s)"

definition attaches_ok :: "attaches \<Rightarrow> bool" where
  "attaches_ok as \<longleftrightarrow> om_inv as \<and> (\<forall>(who, st) \<in> set as. schemas_ok (st_schemas st) \<and> 1 \<le> st_version st)"

lemma has_parent_mono: "has_parent ks s \<Longrightarrow> ks \<subseteq> ks' \<Longrightarrow> has_parent ks' s"
  by (auto simp: has_parent_def)

lemma objects_ok_put: "objects_ok os \<Longrightarrow> objects_ok (om_put (lower n) \<lparr>o_name = n, o_item = i\<rparr> os)"
  unfolding objects_ok_def
  using om.all_put [of os "\<lambda>k ob. k = lower (o_name ob)" "lower n" "\<lparr>o_name = n, o_item = i\<rparr>"] by (simp add: om_inv_put)

lemma objects_ok_del: "objects_ok os \<Longrightarrow> objects_ok (om_del k os)"
  unfolding objects_ok_def using om.all_del [of os "\<lambda>k ob. k = lower (o_name ob)"] by (auto simp: om_inv_del)

lemma schemas_ok_put:
  assumes "schemas_ok ss" "k = path_key (ms_path s)" "schema_ok s" "has_parent (fst ` set ss) s"
  shows "schemas_ok (om_put k s ss)"
proof -
  have inv: "om_inv ss" using assms(1) by (simp add: schemas_ok_def)
  have "\<forall>(k', s') \<in> set (om_put k s ss). k' = path_key (ms_path s') \<and> schema_ok s' \<and> has_parent (fst ` set ss) s'"
    using assms by (intro om.all_put [OF inv]) (auto simp: schemas_ok_def)
  then show ?thesis
    using om_inv_put [OF inv] has_parent_mono [OF _ subset_insertI] by (fastforce simp: schemas_ok_def set_om_put_keys)
qed

lemma schemas_ok_found: "schemas_ok ss \<Longrightarrow> map_of ss k = Some s \<Longrightarrow> k = path_key (ms_path s) \<and> schema_ok s \<and> has_parent (fst ` set ss) s"
  by (auto simp: schemas_ok_def dest: map_of_SomeD)

lemma schemas_ok_drop:
  assumes "schemas_ok ss"
  shows "schemas_ok (om_del k (om_del_all (filter (is_below k) (map fst ss)) ss))"
proof -
  let ?keep = "\<lambda>e. fst e \<noteq> k \<and> \<not> is_below k (fst e)"
  have eq: "om_del k (om_del_all (filter (is_below k) (map fst ss)) ss) = filter ?keep ss"
    by (auto simp: om_del_def om_del_all_eq intro!: filter_cong)
  have "has_parent (fst ` set (filter ?keep ss)) s" if s: "(key, s) \<in> set ss" "?keep (key, s)" for key s
  proof (cases "length (ms_path s) \<le> 1")
    case False
    let ?parent = "path_key (butlast (ms_path s))"
    have key: "key = ?parent @ NUL # last (ms_path s)" and "?parent \<in> fst ` set ss"
      using assms s(1) False path_key_butlast [of "ms_path s"] by (auto simp: schemas_ok_def has_parent_def)
    moreover have "?parent \<noteq> k" "\<not> is_below k ?parent" using s(2) key by (auto simp: is_below_iff)
    ultimately show ?thesis by (force simp: has_parent_def)
  qed (simp add: has_parent_def)
  then show ?thesis using assms unfolding eq schemas_ok_def by (auto simp: om_inv_filter)
qed

text \<open>What a call may do to the attachment it names.\<close>

definition ddl_step :: "string \<Rightarrow> attaches \<Rightarrow> attaches \<Rightarrow> bool" where
  "ddl_step who as as' \<longleftrightarrow> as' = as \<or> (\<exists>st ss. map_of as who = Some st \<and>
     as' = om_put who (bump (st\<lparr>st_schemas := ss\<rparr>)) as \<and> (schemas_ok (st_schemas st) \<longrightarrow> schemas_ok ss))"

lemma state_of_Inr: "state_of opts who as = Inr st \<longleftrightarrow> map_of as who = Some st"
  by (auto simp: state_of_def split: option.splits)

lemma get_schema_path_Nil: "get_schema_path params name \<noteq> Inr []"
  by (auto simp: get_schema_path_def split: option.splits)

lemma view_map_inv:
  assumes "view_map b name = Inr m"
  shows "om_inv m"
proof -
  from assms obtain a where a: "column b name = Inr a" by (auto simp: view_map_def)
  with assms show ?thesis
    by (cases "arr_type a") (auto simp: view_map_def om_inv_of_list split: if_splits)
qed

subsection \<open>Every call is such a step\<close>

lemma key_in: "map_of m k = Some v \<Longrightarrow> k \<in> fst ` set m"
  by (force dest: map_of_SomeD)

lemma ddl_same [simp]: "ddl_step who as as"
  by (simp add: ddl_step_def)

lemma ddl_put:
  assumes "map_of as who = Some st" "schemas_ok (st_schemas st) \<Longrightarrow> schemas_ok ss"
  shows "ddl_step who as (om_put who (bump (st\<lparr>st_schemas := ss\<rparr>)) as)"
  using assms by (auto simp: ddl_step_def)

lemma schemas_ok_replace:
  assumes "schemas_ok ss" "map_of ss k = Some s" "ms_path s' = ms_path s" "schema_ok s \<Longrightarrow> schema_ok s'"
  shows "schemas_ok (om_put k s' ss)"
  using schemas_ok_found [OF assms(1,2)] assms(3,4) schemas_ok_put [OF assms(1), of k s'] by (simp add: has_parent_def)

lemma schema_create_step:
  assumes "schema_create opts who params as = Inr as'"
  shows "ddl_step who as as'"
proof -
  from assms obtain p st where p: "get_schema_path params ''path'' = Inr p" "p \<noteq> []" "map_of as who = Some st"
    by (auto simp: schema_create_def state_of_Inr)
  note ok = schemas_ok_put [of "st_schemas st" "path_key p"]
  show ?thesis using assms p
    by (auto simp: schema_create_def state_of_Inr intro!: ddl_put ok split: if_splits)
      (auto simp: schema_ok_def objects_ok_def has_parent_def view_map_inv dest: key_in)
qed

lemma schema_drop_step:
  assumes "schema_drop opts who params as = Inr as'"
  shows "ddl_step who as as'"
proof -
  from assms obtain p st where p: "get_schema_path params ''path'' = Inr p" "map_of as who = Some st"
    by (auto simp: schema_drop_def state_of_Inr)
  show ?thesis
  proof (cases "map_of (st_schemas st) (path_key p)")
    case None
    with assms p show ?thesis by (auto simp: schema_drop_def state_of_Inr split: if_splits)
  next
    case (Some s)
    with assms p have "as' = om_put who (bump (st\<lparr>st_schemas :=
        om_del (path_key p) (om_del_all (children_keys (path_key p) st) (st_schemas st))\<rparr>)) as"
      by (auto simp: schema_drop_def state_of_Inr Let_def split: if_splits)
    with ddl_put [OF p(2) schemas_ok_drop] show ?thesis by (simp add: children_keys_def)
  qed
qed

lemma with_objects_ok:
  "schema_ok s \<Longrightarrow> objects_ok os \<Longrightarrow> schema_ok (with_objects view os s)" "ms_path (with_objects view os s) = ms_path s"
  by (simp_all add: with_objects_def schema_ok_def)

lemma objects_of_ok: "schema_ok s \<Longrightarrow> objects_ok (objects_of view s)"
  by (simp add: objects_of_def schema_ok_def)

lemma ddl_objects:
  assumes "map_of as who = Some st" "map_of (st_schemas st) k = Some s" "objects_ok (objects_of view s) \<Longrightarrow> objects_ok os'"
  shows "ddl_step who as (om_put who (bump (st\<lparr>st_schemas := om_put k (with_objects view os' s) (st_schemas st)\<rparr>)) as)"
  using assms by (intro ddl_put schemas_ok_replace [where s = s]) (auto simp: with_objects_ok objects_of_ok)

lemma put_object_step:
  assumes "put_object opts who p name kind oc view item as = Inr as'"
  shows "ddl_step who as as'"
proof -
  from assms obtain st s where st: "map_of as who = Some st" "map_of (st_schemas st) (path_key p) = Some s"
    by (cases "map_of as who"; cases "map_of (st_schemas (the (map_of as who))) (path_key p)")
      (auto simp: put_object_def state_of_def)
  with assms ddl_objects [OF st objects_ok_put] show ?thesis
    by (auto simp: put_object_def state_of_Inr Let_def split: if_splits)
qed

lemma drop_object_step:
  assumes "drop_object opts who p name kind ignore view as = Inr as'"
  shows "ddl_step who as as'"
proof -
  from assms obtain st where st: "map_of as who = Some st" by (auto simp: drop_object_def state_of_Inr)
  show ?thesis
  proof (cases "map_of (st_schemas st) (path_key p)")
    case None
    with assms st show ?thesis by (auto simp: drop_object_def state_of_Inr Let_def split: if_splits)
  next
    case (Some s)
    with assms st ddl_objects [OF st Some objects_ok_del] show ?thesis
      by (auto simp: drop_object_def state_of_Inr Let_def split: if_splits)
  qed
qed


lemma table_create_step: "table_create env opts who params as = Inr as' \<Longrightarrow> ddl_step who as as'"
  by (auto simp: table_create_def Let_def dest: put_object_step)

lemma view_create_step: "view_create env opts who params as = Inr as' \<Longrightarrow> ddl_step who as as'"
  by (auto simp: view_create_def dest: put_object_step)

lemma object_drop_step: "object_drop opts who view params as = Inr as' \<Longrightarrow> ddl_step who as as'"
  by (auto simp: object_drop_def dest: drop_object_step)

lemma create_schema_step: "create_schema opts who params as = Inr as' \<Longrightarrow> ddl_step who as as'"
  by (auto simp: create_schema_def dest: schema_create_step split: if_splits)

lemma comment_set_step:
  assumes "comment_set env opts who c params as = Inr as'"
  shows "ddl_step who as as'"
proof -
  from assms obtain st name p where st: "map_of as who = Some st" "get_string params ''name'' = Inr name"
    "get_schema_path params ''schema_path'' = Inr p"
    by (auto simp: comment_set_def state_of_Inr)
  show ?thesis
  proof (cases "Option.bind (map_of (st_schemas st) (path_key p)) (\<lambda>s. Option.bind (map_of (ms_views s) (lower name)) (\<lambda>v. Some (s, v)))")
    case None
    with assms st show ?thesis by (auto simp: comment_set_def state_of_Inr split: if_splits)
  next
    case (Some sv)
    then obtain s v where s: "map_of (st_schemas st) (path_key p) = Some s" "map_of (ms_views s) (lower name) = Some v" "sv = (s, v)"
      by (auto simp: bind_eq_Some_conv)
    with assms st Some obtain item where as': "as' = om_put who (bump (st\<lparr>st_schemas := om_put (path_key p)
        (with_objects True (om_put (lower name) (v\<lparr>o_item := item\<rparr>) (ms_views s)) s) (st_schemas st)\<rparr>)) as"
      by (auto simp: comment_set_def state_of_Inr with_objects_def)
    have "objects_ok (om_put (lower name) (v\<lparr>o_item := item\<rparr>) (ms_views s))" if "objects_ok (objects_of True s)"
    proof -
      have "lower name = lower (o_name v)" "objects_ok (ms_views s)"
        using that s(2) by (auto simp: objects_of_def objects_ok_def dest: map_of_SomeD)
      then show ?thesis using om.all_put [of "ms_views s" "\<lambda>k ob. k = lower (o_name ob)" "lower name" "v\<lparr>o_item := item\<rparr>"]
        by (simp add: objects_ok_def om_inv_put)
    qed
    then show ?thesis unfolding as' by (rule ddl_objects [OF st(1) s(1)])
  qed
qed

definition call_step :: "string \<Rightarrow> attaches \<Rightarrow> served \<Rightarrow> bool" where
  "call_step who as r \<longleftrightarrow> snd r = om_del who as \<or> ddl_step who as (snd r)"

lemma call_step_if: "call_step who as x \<Longrightarrow> call_step who as y \<Longrightarrow> call_step who as (if c then x else y)"
  by simp

lemma call_step_simps:
  "call_step who as (r, as)" "call_step who as (r, om_del who as)" "call_step who as (answered a as)"
  by (simp_all add: call_step_def answered_def)

lemma call_step_committed: "(\<And>as'. r = Inr as' \<Longrightarrow> ddl_step who as as') \<Longrightarrow> call_step who as (committed r as)"
  by (auto simp: call_step_def committed_def split: sum.splits)

lemma serve_call_step: "call_step who as (serve_call env opts called who params as)"
  unfolding serve_call_def
  by (intro call_step_if call_step_simps call_step_committed)
    (assumption | erule create_schema_step schema_drop_step table_create_step object_drop_step comment_set_step view_create_step)+

text \<open>A call that fails leaves the attachments alone; only an attach may have registered itself before.\<close>

definition fails_clean :: "attaches \<Rightarrow> served \<Rightarrow> bool" where
  "fails_clean as r \<longleftrightarrow> (\<forall>e. fst r = Inl e \<longrightarrow> snd r = as)"

lemma fails_clean_simps:
  "fails_clean as (r, as)" "fails_clean as (Inr x, as')" "fails_clean as (answered a as)" "fails_clean as (committed c as)"
  by (simp_all add: fails_clean_def answered_def committed_def split: sum.splits)

lemma fails_clean_if: "fails_clean as x \<Longrightarrow> fails_clean as y \<Longrightarrow> fails_clean as (if c then x else y)"
  by simp

lemma serve_call_failure: "fails_clean as (serve_call env opts called who params as)"
  unfolding serve_call_def by (intro fails_clean_if fails_clean_simps)

lemma serve_failure: "serve env opts called params as = (Inl e, as') \<Longrightarrow> called \<noteq> ''catalog_attach'' \<Longrightarrow> as' = as"
  using serve_call_failure [of as env opts called] unfolding fails_clean_def
  by (auto simp: serve_def split: sum.splits) (metis fst_conv snd_conv)

lemma serve_step:
  "(\<exists>c. snd (serve env opts called params as) = om_put (attach_name env opts) (new_state c) as \<and> called = ''catalog_attach'') \<or>
   (\<exists>who. snd (serve env opts called params as) = om_del who as) \<or>
   (\<exists>who. ddl_step who as (snd (serve env opts called params as)))"
proof (cases "called = ''catalog_attach''")
  case True
  then show ?thesis
    by (cases "attach_selected env opts params") (auto simp: serve_def attach_def answered_def Let_def intro: exI [where x = "[]"])
next
  case False
  then show ?thesis using serve_call_step [of _ as env opts called] ddl_same [of "[]" as]
    by (auto simp: serve_def call_step_def split: sum.splits)
qed

subsection \<open>The invariant\<close>

lemma attaches_ok_put:
  assumes "attaches_ok as" "schemas_ok (st_schemas st)" "1 \<le> st_version st"
  shows "attaches_ok (om_put who st as)"
  using assms om.all_put [of as "\<lambda>w st. schemas_ok (st_schemas st) \<and> 1 \<le> st_version st" who st]
  by (auto simp: attaches_ok_def om_inv_put)

lemma attaches_ok_del: "attaches_ok as \<Longrightarrow> attaches_ok (om_del who as)"
  using om.all_del [of as "\<lambda>w st. schemas_ok (st_schemas st) \<and> 1 \<le> st_version st" who]
  by (auto simp: attaches_ok_def om_inv_del)

lemma attaches_ok_found: "attaches_ok as \<Longrightarrow> map_of as who = Some st \<Longrightarrow> schemas_ok (st_schemas st) \<and> 1 \<le> st_version st"
  by (auto simp: attaches_ok_def dest: map_of_SomeD)

lemma attaches_ok_ddl: "attaches_ok as \<Longrightarrow> ddl_step who as as' \<Longrightarrow> attaches_ok as'"
  by (auto simp: ddl_step_def bump_def intro!: attaches_ok_put dest: attaches_ok_found)

lemma new_state_ok: "schemas_ok (st_schemas (new_state c)) \<and> 1 \<le> st_version (new_state c)"
  by (simp add: new_state_def schemas_ok_def schema_ok_def objects_ok_def has_parent_def om_inv_def)

lemma attaches_ok_new: "attaches_ok as \<Longrightarrow> attaches_ok (om_put who (new_state c) as)"
  using attaches_ok_put new_state_ok by blast

lemma serve_ok: "attaches_ok as \<Longrightarrow> attaches_ok (snd (serve env opts called params as))"
  using serve_step [of env opts called params as]
  by (auto intro: attaches_ok_new attaches_ok_del attaches_ok_ddl)

inductive memory_reachable :: "memory_options \<Rightarrow> attaches \<Rightarrow> bool" for opts where
  start: "memory_reachable opts []"
| call: "memory_reachable opts as \<Longrightarrow> memory_reachable opts (snd (serve env opts called params as))"

lemma reachable_ok: "memory_reachable opts as \<Longrightarrow> attaches_ok as"
proof (induction rule: memory_reachable.induct)
  case start
  show ?case by (simp add: attaches_ok_def)
qed (rule serve_ok)


subsection \<open>The snapshot is a valid answer\<close>

lemma check_keys_plain:
  "check_keys lib False keys ss = Inr keys' \<longleftrightarrow> (\<forall>s \<in> set ss. sc_path s \<noteq> []) \<and>
     distinct (map (path_key \<circ> sc_path) ss) \<and> set (map (path_key \<circ> sc_path) ss) \<inter> keys = {} \<and>
     keys' = keys \<union> set (map (path_key \<circ> sc_path) ss)"
  by (induction ss arbitrary: keys) auto

lemma snapshot_paths:
  assumes "snapshot env opts who as = Inr ss" "map_of as who = Some st"
  shows "map sc_path ss = map ms_path (sorted_schemas st)"
proof -
  have "mapE (snapshot_schema env) (sorted_schemas st) = Inr ss" using assms by (simp add: snapshot_def state_of_def)
  then have "list_all2 (\<lambda>s t. sc_path t = ms_path s) (sorted_schemas st) ss"
    unfolding mapE_eq_Inr by (rule list_all2_mono) (auto simp: snapshot_schema_def)
  then show ?thesis by (induction rule: list_all2_induct) auto
qed

lemma sorted_schemas_keys:
  assumes "schemas_ok (st_schemas st)"
  shows "set (map (path_key \<circ> ms_path) (sorted_schemas st)) = fst ` set (st_schemas st)"
    "distinct (map (path_key \<circ> ms_path) (sorted_schemas st))"
proof -
  have keys: "map (path_key \<circ> ms_path) (map snd (st_schemas st)) = map fst (st_schemas st)"
    using assms by (auto simp: schemas_ok_def)
  show "set (map (path_key \<circ> ms_path) (sorted_schemas st)) = fst ` set (st_schemas st)"
    using arg_cong [OF keys, of set] by (simp add: sorted_schemas_def image_comp)
  have "distinct (map (path_key \<circ> ms_path) (map snd (st_schemas st)))"
    using om_distinct [of "st_schemas st"] assms by (simp only: keys schemas_ok_def)
  then show "distinct (map (path_key \<circ> ms_path) (sorted_schemas st))"
    unfolding distinct_map [of "path_key \<circ> ms_path"] sorted_schemas_def by simp
qed

text \<open>
  C26: Whatever sequence of calls a client makes, from the empty catalog, every schema stands under the
  key of its path with its parent present and every object under its folded name; so the
  snapshot of any attachment is accepted by the rules on a catalog's contents (nonempty and distinct
  paths, every parent there) and lists a shorter path before a longer one.
\<close>

theorem memory_snapshot_accepted:
  assumes "memory_reachable opts as" "snapshot env opts who as = Inr ss"
  shows "attaches_ok as \<and> check_schema_paths lib ss False = Inr () \<and> sorted (map (length \<circ> sc_path) ss)"
proof -
  have ok: "attaches_ok as" using assms(1) by (rule reachable_ok)
  obtain st where st: "map_of as who = Some st" using assms(2) by (auto simp: snapshot_def state_of_Inr)
  have sok: "schemas_ok (st_schemas st)" using attaches_ok_found [OF ok st] by simp
  note paths = snapshot_paths [OF assms(2) st]
  have keys: "map (path_key \<circ> sc_path) ss = map (path_key \<circ> ms_path) (sorted_schemas st)"
    using paths by (metis map_map)
  have set_keys: "set (map (path_key \<circ> sc_path) ss) = fst ` set (st_schemas st)" "distinct (map (path_key \<circ> sc_path) ss)"
    unfolding keys by (rule sorted_schemas_keys [OF sok])+
  have each: "p \<noteq> [] \<and> (length p < 2 \<or> path_key (butlast p) \<in> fst ` set (st_schemas st))" if "p \<in> set (map sc_path ss)" for p
    using that sok unfolding paths
    by (fastforce simp: sorted_schemas_def schemas_ok_def schema_ok_def has_parent_def)
  have "check_keys lib False {} ss = Inr (fst ` set (st_schemas st))"
    unfolding check_keys_plain using set_keys each by auto
  then have "check_schema_paths lib ss False = Inr ()"
    using each by (auto simp: check_schema_paths_def)
  moreover have "sorted (map (length \<circ> sc_path) ss)"
    using sorted_sort_key [of "\<lambda>s. length (ms_path s)" "map snd (st_schemas st)"] arg_cong [OF paths, of "map length"]
    by (simp add: comp_def sorted_schemas_def)
  ultimately show ?thesis using ok by blast
qed


subsection \<open>Versions\<close>

lemma ddl_version:
  assumes "ddl_step who as as'" "map_of as w = Some st" "map_of as' w = Some st'" "st' \<noteq> st"
  shows "w = who \<and> st_version st' = st_version st + 1"
  using assms by (auto simp: ddl_step_def map_of_om_put bump_def split: if_splits)



subsection \<open>Objects as a map\<close>

text \<open>What an attachment holds: by attachment, schema key, kind and folded name, the encoded item.\<close>

definition catalog_map :: "attaches \<Rightarrow> string \<times> string \<times> bool \<times> string \<Rightarrow> bytes option" where
  "catalog_map as = (\<lambda>(who, key, view, name).
     Option.bind (map_of as who) (\<lambda>st. Option.bind (map_of (st_schemas st) key) (\<lambda>s.
       map_option o_item (map_of (objects_of view s) name))))"

lemma objects_of_with [simp]: "objects_of v (with_objects w os s) = (if v = w then os else objects_of v s)"
  by (auto simp: objects_of_def with_objects_def)

lemma catalog_map_put:
  assumes "map_of as who = Some st" "map_of (st_schemas st) key = Some s"
  shows "catalog_map (om_put who (bump (st\<lparr>st_schemas := om_put key (with_objects view os s) (st_schemas st)\<rparr>)) as) =
    (\<lambda>l. if fst l = who \<and> fst (snd l) = key \<and> fst (snd (snd l)) = view
         then map_option o_item (map_of os (snd (snd (snd l)))) else catalog_map as l)"
  using assms by (auto simp: catalog_map_def map_of_om_put bump_def fun_eq_iff)

lemma catalog_map_at:
  "map_of as who = Some st \<Longrightarrow> map_of (st_schemas st) key = Some s \<Longrightarrow>
     catalog_map as (who, key, view, n) = map_option o_item (map_of (objects_of view s) n)"
  by (simp add: catalog_map_def)

lemma put_object_map:
  assumes put: "put_object opts who p name kind on_conflict view item as = Inr as'"
  shows "catalog_map as' = (if catalog_map as (who, path_key p, view, lower name) \<noteq> None \<and> upper on_conflict = ''IGNORE''
        then catalog_map as else (catalog_map as)((who, path_key p, view, lower name) \<mapsto> item))"
proof -
  from put obtain st s where st: "map_of as who = Some st" "map_of (st_schemas st) (path_key p) = Some s"
    by (cases "map_of as who"; cases "map_of (st_schemas (the (map_of as who))) (path_key p)")
      (auto simp: put_object_def state_of_def)
  let ?new = "om_put who (bump (st\<lparr>st_schemas := om_put (path_key p)
      (with_objects view (om_put (lower name) \<lparr>o_name = name, o_item = item\<rparr> (objects_of view s)) s) (st_schemas st)\<rparr>)) as"
  consider "as' = as" "map_of (objects_of view s) (lower name) \<noteq> None" "upper on_conflict = ''IGNORE''"
    | "as' = ?new" "map_of (objects_of view s) (lower name) = None \<or> upper on_conflict \<noteq> ''IGNORE''"
    using put st by (auto simp: put_object_def state_of_def on_conflict_replaces_def Let_def split: if_splits)
  then show "catalog_map as' = (if catalog_map as (who, path_key p, view, lower name) \<noteq> None \<and> upper on_conflict = ''IGNORE''
        then catalog_map as else (catalog_map as)((who, path_key p, view, lower name) \<mapsto> item))"
  proof cases
    case 2
    have "catalog_map ?new = (catalog_map as)((who, path_key p, view, lower name) \<mapsto> item)"
      unfolding catalog_map_put [OF st] by (auto simp: map_of_om_put fun_eq_iff catalog_map_at [OF st])
    with 2 show ?thesis by (auto simp: catalog_map_at [OF st])
  qed (auto simp: catalog_map_at [OF st])
qed

lemma drop_object_map:
  assumes drop: "drop_object opts who p name kind ignore view as = Inr as'"
  shows "catalog_map as' = (catalog_map as)((who, path_key p, view, lower name) := None)"
proof -
  from drop obtain st where st: "map_of as who = Some st" by (auto simp: drop_object_def state_of_Inr)
  show "catalog_map as' = (catalog_map as)((who, path_key p, view, lower name) := None)"
  proof (cases "map_of (st_schemas st) (path_key p)")
    case None
    with drop st show ?thesis
      by (auto simp: drop_object_def state_of_def Let_def catalog_map_def fun_eq_iff split: if_splits)
  next
    case (Some s)
    with drop st show ?thesis
      by (auto simp: drop_object_def state_of_def Let_def map_of_om_del fun_eq_iff catalog_map_put [OF st Some]
          catalog_map_at [where s = s] split: if_splits)
  qed
qed

lemma object_get_map:
  assumes "map_of as who \<noteq> None" "get_schema_path params ''schema_path'' = Inr p" "get_string params ''name'' = Inr name"
  shows "object_get opts who view params as =
      items_payload (case catalog_map as (who, path_key p, view, lower name) of None \<Rightarrow> [] | Some i \<Rightarrow> [i])"
  using assms by (auto simp: object_get_def state_of_def wire_def catalog_map_def split: option.splits)

text \<open>
  C28: The objects of the catalog are a map. Creating a table or view that was not there, or with
  REPLACE, sets its entry and changes no other, with IGNORE on an existing one nothing changes; dropping it
  clears its entry and changes no other; and a get returns the entry, found under any
  spelling of the name that differs only in case.
\<close>

theorem objects_refine_map:
  "(put_object opts who p name kind on_conflict view item as = Inr as' \<longrightarrow>
      catalog_map as' = (if catalog_map as (who, path_key p, view, lower name) \<noteq> None \<and> upper on_conflict = ''IGNORE''
        then catalog_map as else (catalog_map as)((who, path_key p, view, lower name) \<mapsto> item))) \<and>
   (drop_object opts who p name kind ignore view as = Inr as' \<longrightarrow>
      catalog_map as' = (catalog_map as)((who, path_key p, view, lower name) := None)) \<and>
   (map_of as who \<noteq> None \<longrightarrow> get_schema_path params ''schema_path'' = Inr p \<longrightarrow> get_string params ''name'' = Inr name \<longrightarrow>
      object_get opts who view params as =
        items_payload (case catalog_map as (who, path_key p, view, lower name) of None \<Rightarrow> [] | Some i \<Rightarrow> [i]))"
  by (intro conjI impI) (erule put_object_map drop_object_map | rule object_get_map, assumption+)+


subsection \<open>Concrete calls\<close>

definition plain_library :: catalog_library where
  "plain_library = \<lparr>k_ipc = (\<lambda>bs. Inl (IpcError bs)), k_what = (\<lambda>_. []), k_show_type = (\<lambda>_. []), k_encode = demo_enc,
     k_stream = (\<lambda>_. []), k_schema = (\<lambda>bs. Inl (IpcError bs)), k_schema_bytes = (\<lambda>_. []), k_sha256 = (\<lambda>b. b)\<rparr>"

definition plain_columns :: column_library where
  "plain_columns = \<lparr>l_utf8 = (\<lambda>_. True), l_tags = (\<lambda>_. ([], Inr (TagObject []))), l_base64_decode = (\<lambda>s. s),
     l_base64_encode = (\<lambda>s. s), l_expression = (\<lambda>_. Inl [])\<rparr>"

definition plain_env :: memory_env where
  "plain_env = \<lparr>m_lib = plain_library, m_columns = plain_columns, m_capabilities = (\<lambda>_. Inl []),
     m_empty = (\<lambda>t. one t Null), m_seal = (\<lambda>b. b), m_token = ''t''\<rparr>"

definition plain_options :: memory_options where
  "plain_options = \<lparr>mo_name = ''mem'', mo_comment = None, mo_unversioned = False, mo_supports_catalog_contents = True,
     mo_handler = None, mo_etag = NoEtag\<rparr>"

definition plain_who :: bytes where
  "plain_who = attach_name plain_env plain_options"

definition attach_request :: batch where
  "attach_request = \<lparr>columns = [(Field ''name'' TString False, one TString (VText ''mem''))], num_rows = 1\<rparr>"

definition schema_request :: "path \<Rightarrow> batch" where
  "schema_request p = \<lparr>columns = [(Field ''attach_opaque_data'' TBinary False, one TBinary (VText plain_who)),
     (Field ''path'' (list_type TString) False, one (list_type TString) (VList (map VText p))),
     (Field ''tags'' (map_type TString) False, one (map_type TString) (VMap []))], num_rows = 1\<rparr>"

definition first_attach :: attaches where
  "first_attach = [(plain_who, new_state False)]"

lemma attach_registers: "snd (serve plain_env plain_options ''catalog_attach'' (Some attach_request) []) = first_attach"
proof -
  have "select_catalog_capabilities memory_catalog_capabilities no_profiles = no_profiles"
    by (simp add: select_catalog_capabilities_def intersect_def no_profiles_def memory_catalog_capabilities_def drop_profile_def)
  then have "attach_selected plain_env plain_options (Some attach_request) = Inr no_profiles"
    by (simp add: attach_selected_def unwrap_def attach_request_def GetFieldIndex_def read_defs GetColumnByName_def wire_def
        plain_options_def client_catalog_offer_def valid_if_def)
  then show ?thesis
    by (simp add: serve_def attach_def answered_def first_attach_def plain_who_def no_profiles_def Let_def)
qed

lemma first_attach_reachable: "memory_reachable plain_options first_attach"
  using memory_reachable.call [OF memory_reachable.start, of plain_options plain_env "''catalog_attach''" "Some attach_request"]
  by (simp add: attach_registers)

lemma schema_request_reads:
  assumes "p \<noteq> []" "[] \<notin> set p"
  shows "get_schema_path (Some (schema_request p)) ''path'' = Inr p"
    "view_map (Some (schema_request p)) ''tags'' = Inr []"
    "get_optional_string (Some (schema_request p)) ''comment'' = Inr None"
    "get_optional_binary (Some (schema_request p)) ''options'' = Inr None"
    "get_binary (Some (schema_request p)) ''attach_opaque_data'' = Inr plain_who"
    "unwrap ipc (Some (schema_request p)) = Inr (Some (schema_request p))"
  using assms
  by (auto simp: schema_request_def get_schema_path_def view_map_def get_binary_def read_defs GetColumnByName_def string_items_VText
      wire_def unwrap_def GetFieldIndex_def)

lemma first_state: "map_of first_attach plain_who = Some (new_state False)"
  by (simp add: first_attach_def)

lemma create_top_schema:
  assumes "p \<noteq> []" "[] \<notin> set p" "length p = 1" "path_key p \<noteq> ''main''"
  shows "schema_create plain_options plain_who (Some (schema_request p)) first_attach =
    Inr [(plain_who, bump ((new_state False)\<lparr>st_schemas := om_put (path_key p)
      \<lparr>ms_path = p, ms_comment = None, ms_tags = [], ms_tables = [], ms_views = []\<rparr> (st_schemas (new_state False))\<rparr>))]"
  using assms by (simp add: schema_create_def schema_request_reads state_of_def first_state wire_def valid_if_def)
    (auto simp: new_state_def first_attach_def intro: exI [where x = True])


theorem memory_snapshot_accepted_witness:
  "\<exists>ss. snapshot plain_env plain_options plain_who first_attach = Inr ss \<and> attaches_ok first_attach \<and>
     check_schema_paths plain_library ss False = Inr () \<and> sorted (map (length \<circ> sc_path) ss)"
proof -
  let ?main = "\<lparr>ms_path = [''main''], ms_comment = None, ms_tags = [], ms_tables = [], ms_views = []\<rparr>"
  have "sorted_schemas (new_state False) = [?main]" by (simp add: sorted_schemas_def new_state_def)
  moreover have "\<exists>item. schema_item plain_env ?main = Inr item"
    by (simp add: schema_item_def build_filled_def SchemaInfoSchema_def ResultBuilder_def set_string_list_def set_plain_def
        field_index_def GetFieldIndex_def put_array_def set_optional_string_def set_null_def set_string_map_def fill_defaults_def
        default_field_def finish_def check_nulls_def check_null_at.simps wire_def Let_def)
  ultimately obtain ss where "snapshot plain_env plain_options plain_who first_attach = Inr ss"
    by (auto simp: snapshot_def state_of_def first_state snapshot_schema_def)
  from this memory_snapshot_accepted [OF first_attach_reachable this, of plain_library] show ?thesis by blast
qed

definition other_env :: memory_env where
  "other_env = plain_env\<lparr>m_token := ''u''\<rparr>"

lemma create_x:
  "serve other_env plain_options ''catalog_schema_create'' (Some (schema_request [''x''])) first_attach =
     (Inr None, [(plain_who, bump ((new_state False)\<lparr>st_schemas := om_put ''x''
        \<lparr>ms_path = [''x''], ms_comment = None, ms_tags = [], ms_tables = [], ms_views = []\<rparr> (st_schemas (new_state False))\<rparr>))])"
  using create_top_schema [of "[''x'']"]
  by (simp add: serve_def serve_call_def schema_request_reads wire_def committed_def create_schema_def empty_methods_def)


theorem objects_refine_map_witness:
  "\<exists>as'. put_object plain_options plain_who [''main''] ''Trips'' ''Table'' '''' False ''item'' first_attach = Inr as' \<and>
     catalog_map as' (plain_who, ''main'', False, ''trips'') = Some ''item''"
proof -
  have low: "lower ''Trips'' = ''trips''" by code_simp
  obtain as' where as': "put_object plain_options plain_who [''main''] ''Trips'' ''Table'' '''' False ''item'' first_attach = Inr as'"
    by (simp add: put_object_def state_of_def first_state new_state_def objects_of_def Let_def)
  have "catalog_map first_attach (plain_who, ''main'', False, lower ''Trips'') = None"
    by (simp add: catalog_map_def first_state new_state_def objects_of_def)
  with objects_refine_map [of plain_options plain_who "[''main'']" "''Trips''" "''Table''" "''''" False "''item''" first_attach as'] as' low
  show ?thesis by auto
qed

text \<open>
  Paths without NUL have different keys, but NUL is not refused in a schema name: after the one-component
  path \<^verbatim>\<open>a\0b\<close> has been created, which needs no parent, the catalog finds it when asked for the path
  \<^verbatim>\<open>a, b\<close>, although neither \<^verbatim>\<open>a\<close> nor \<^verbatim>\<open>a, b\<close> was ever created.
\<close>

theorem nul_path_collision:
  "\<exists>as' st. schema_create plain_options plain_who (Some (schema_request [''a'' @ NUL # ''b''])) first_attach = Inr as' \<and>
     map_of as' plain_who = Some st \<and> map_of (st_schemas st) (path_key [''a'']) = None \<and>
     schema_get plain_env plain_options plain_who (Some (schema_request [''a'', ''b''])) as' =
       bindE (schema_item plain_env \<lparr>ms_path = [''a'' @ NUL # ''b''], ms_comment = None, ms_tags = [], ms_tables = [], ms_views = []\<rparr>)
         (\<lambda>item. items_payload [item])"
  using create_top_schema [of "[''a'' @ NUL # ''b'']"]
  by (auto simp: schema_get_def state_of_def bump_def new_state_def schema_request_reads wire_def)


subsection \<open>What a created table has passed\<close>

lemma plain_field_free:
  assumes "plain_field f = Inr ()"
  shows "\<not> is_extension (c_type f) \<and> \<not> has_key f ''ARROW:extension:name''"
proof (cases f)
  case (CField n t nb m)
  have "starts_with ''ARROW:extension:name'' ''ARROW:extension:''" by (simp add: starts_with_def)
  with assms CField show ?thesis
    by (cases m) (force simp: has_key_def list_ex_iff split: if_splits)+
qed

lemma plain_fields_member: "plain_fields fs = Inr () \<Longrightarrow> g \<in> set fs \<Longrightarrow> plain_field g = Inr ()"
  by (induction fs) auto



definition table_request :: batch where
  "table_request = \<lparr>columns = [(Field ''name'' TString False, one TString (VText ''t'')),
     (Field ''columns'' TBinary False, one TBinary (VText ''schema''))], num_rows = 1\<rparr>"

definition table_env :: memory_env where
  "table_env = plain_env\<lparr>m_lib := plain_library\<lparr>k_schema := (\<lambda>_. Inr [CField ''a'' CInt64 True None])\<rparr>\<rparr>"

lemma table_request_reads:
  "refuse_metadata (Some table_request) = Inr ()" "get_string (Some table_request) ''name'' = Inr ''t''"
  "get_schema_path (Some table_request) ''schema_path'' = Inr [''main'']"
  "get_binary (Some table_request) ''columns'' = Inr ''schema''"
  "get_binary_list (Some table_request) ''constraint_definitions'' = Inr []"
  "get_optional_enum (Some table_request) ''on_conflict'' = Inr None"
  by (simp_all add: table_request_def refuse_metadata_def GetFieldIndex_def read_defs get_schema_path_def get_binary_def
      GetColumnByName_def)

lemma table_item_builds: "\<exists>item. table_item table_env ''t'' [''main''] ''schema'' [CField ''a'' CInt64 True None] [] = Inr item"
  by (simp add: table_item_def served_columns_def serve_schema_def required_paths_def serve_field.simps ordinary_struct_children_def
      row_id_def has_key_def build_filled_def TableInfoSchema_def ResultBuilder_def set_string_def set_string_list_def
      set_binary_def set_binary_list_def set_null_def set_string_map_def set_bool_def set_plain_def field_index_def GetFieldIndex_def put_array_def
      fill_defaults_def default_field_def finish_def check_nulls_def check_null_at.simps wire_def Let_def)


end
