(* ===== verification/Numeric.thy ===== *)
theory Numeric
  imports Prelude Complex_Main
begin

section \<open>Result types of arithmetic\<close>

text \<open>
  \<^verbatim>\<open>src/src/numeric.cpp\<close>: the type a sum is answered in, decided when a function is bound. An Arrow type is a
  constructor of \<open>ntype\<close> with its parameters (precision and scale of a decimal, unit and zone of a
  temporal type). The cast and the addition of whole arrays are Arrow's and are arguments of
  \<open>double_first\<close> and \<open>add_two\<close>.
\<close>

datatype ntype =
    INT8 | INT16 | INT32 | INT64 | UINT8 | UINT16 | UINT32 | UINT64
  | HALF_FLOAT | FLOAT | DOUBLE
  | DECIMAL128 int int | DECIMAL256 int int
  | DATE32 | DATE64 | TIME32 string | TIME64 string | TIMESTAMP string string | DURATION string
  | INTERVAL_MONTHS | INTERVAL_DAY_TIME | INTERVAL_MONTH_DAY_NANO
  | OTHER string

text \<open>The width of an integer type and whether it is signed.\<close>

fun int_info :: "ntype \<Rightarrow> (nat \<times> bool) option" where
  "int_info INT8 = Some (8, True)"
| "int_info INT16 = Some (16, True)"
| "int_info INT32 = Some (32, True)"
| "int_info INT64 = Some (64, True)"
| "int_info UINT8 = Some (8, False)"
| "int_info UINT16 = Some (16, False)"
| "int_info UINT32 = Some (32, False)"
| "int_info UINT64 = Some (64, False)"
| "int_info t = None"

definition is_integer_type :: "ntype \<Rightarrow> bool" where
  "is_integer_type t \<longleftrightarrow> int_info t \<noteq> None"

definition is_floating_type :: "ntype \<Rightarrow> bool" where
  "is_floating_type t \<longleftrightarrow> t = HALF_FLOAT \<or> t = FLOAT \<or> t = DOUBLE"

fun is_decimal_type :: "ntype \<Rightarrow> bool" where
  "is_decimal_type (DECIMAL128 p s) = True"
| "is_decimal_type (DECIMAL256 p s) = True"
| "is_decimal_type t = False"

fun is_temporal_type :: "ntype \<Rightarrow> bool" where
  "is_temporal_type DATE32 = True"
| "is_temporal_type DATE64 = True"
| "is_temporal_type (TIME32 u) = True"
| "is_temporal_type (TIME64 u) = True"
| "is_temporal_type (TIMESTAMP u z) = True"
| "is_temporal_type (DURATION u) = True"
| "is_temporal_type INTERVAL_MONTHS = True"
| "is_temporal_type INTERVAL_DAY_TIME = True"
| "is_temporal_type INTERVAL_MONTH_DAY_NANO = True"
| "is_temporal_type t = False"

definition is_addable_type :: "ntype \<Rightarrow> bool" where
  "is_addable_type t \<longleftrightarrow> is_integer_type t \<or> is_floating_type t \<or> is_decimal_type t \<or> is_temporal_type t"

definition is_multipliable_type :: "ntype \<Rightarrow> bool" where
  "is_multipliable_type t \<longleftrightarrow> is_integer_type t \<or> is_floating_type t \<or> is_decimal_type t"

subsection \<open>The common type and its promotion\<close>

text \<open>\<open>show_type\<close> is the text Arrow prints for a type.\<close>

definition common_numeric :: "(ntype \<Rightarrow> string) \<Rightarrow> ntype \<Rightarrow> ntype \<Rightarrow> string + ntype" where
  "common_numeric show_type a b =
     (if a = b then Inr a
      else if is_floating_type a \<or> is_floating_type b then Inr DOUBLE
      else case (a, b) of
        (DECIMAL128 p s, DECIMAL128 q r) \<Rightarrow>
          let scale = max s r; integer_digits = max (p - s) (q - r) in
          Inr (DECIMAL128 (min (integer_digits + scale) 38) scale)
      | _ \<Rightarrow>
          (case (int_info a, int_info b) of
             (Some (wa, sa), Some (wb, sb)) \<Rightarrow>
               if sa = sb then Inr (if wa \<ge> wb then a else b)
               else Inr (if (if sa then wb else wa) \<ge> 64 then DOUBLE else INT64)
           | (None, None) \<Rightarrow> Inl (''no common numeric type for '' @ show_type a @ '' and '' @ show_type b)
           | (Some _, None) \<Rightarrow> Inr b
           | (None, Some _) \<Rightarrow> Inr a))"

fun promote_known :: "ntype \<Rightarrow> ntype" where
  "promote_known INT8 = INT16"
| "promote_known INT16 = INT32"
| "promote_known INT32 = INT64"
| "promote_known INT64 = INT64"
| "promote_known UINT8 = UINT16"
| "promote_known UINT16 = UINT32"
| "promote_known UINT32 = UINT64"
| "promote_known UINT64 = UINT64"
| "promote_known HALF_FLOAT = DOUBLE"
| "promote_known FLOAT = DOUBLE"
| "promote_known DOUBLE = DOUBLE"
| "promote_known (DECIMAL128 p s) = DECIMAL128 (min (p + 1) 38) s"
| "promote_known t = t"

text \<open>An argument the engine has not typed yet, a null pointer in the code, is \<open>None\<close>.\<close>

definition promote_for_addition :: "ntype option \<Rightarrow> ntype" where
  "promote_for_addition t =
     (case t of None \<Rightarrow> INT64 | Some t \<Rightarrow> if is_temporal_type t then t else promote_known t)"

definition common_type_for_addition :: "(ntype \<Rightarrow> string) \<Rightarrow> ntype option \<Rightarrow> ntype option \<Rightarrow> string + ntype" where
  "common_type_for_addition show_type a b =
     (case (a, b) of
        (None, _) \<Rightarrow> Inr (promote_for_addition b)
      | (_, None) \<Rightarrow> Inr (promote_for_addition a)
      | (Some x, Some y) \<Rightarrow> bindE (common_numeric show_type x y) (\<lambda>t. Inr (promote_for_addition (Some t))))"

subsection \<open>Adding columns\<close>

text \<open>
  A column is its type and its values, whatever they are; a batch is a list of columns and \<open>None\<close> a null
  batch. The record holds Arrow's checked cast to a type and its \<^verbatim>\<open>add\<close> kernel, with the message of
  the status when they fail.
\<close>

record 'v column =
  col_type :: ntype
  col_values :: "'v list"

record 'v arithmetic =
  n_cast :: "ntype \<Rightarrow> 'v column \<Rightarrow> string + 'v column"
  n_add :: "'v column \<Rightarrow> 'v column \<Rightarrow> string + 'v column"
  n_show :: "ntype \<Rightarrow> string"

definition cast_or_throw :: "'v arithmetic \<Rightarrow> 'v column \<Rightarrow> ntype \<Rightarrow> string + 'v column" where
  "cast_or_throw ar c t =
     (if col_type c = t then Inr c
      else case n_cast ar t c of
        Inl why \<Rightarrow> Inl (''cast '' @ n_show ar (col_type c) @ '' -> '' @ n_show ar t @ '': '' @ why)
      | Inr d \<Rightarrow> Inr d)"

definition add_arrays :: "'v arithmetic \<Rightarrow> 'v column \<Rightarrow> 'v column \<Rightarrow> string \<Rightarrow> string + 'v column" where
  "add_arrays ar a b what = (case n_add ar a b of Inl why \<Rightarrow> Inl (what @ '': '' @ why) | Inr c \<Rightarrow> Inr c)"

definition bound_output_type :: "ntype list option \<Rightarrow> string \<Rightarrow> string + ntype" where
  "bound_output_type output what =
     (case output of
        Some [t] \<Rightarrow> Inr t
      | Some ts \<Rightarrow> Inl (what @ '': expects a one-column output schema, got '' @ show_nat (length ts) @ '' columns'')
      | None \<Rightarrow> Inl (what @ '': expects a one-column output schema, got none''))"

definition input_column :: "'v column list option \<Rightarrow> nat \<Rightarrow> string \<Rightarrow> string + 'v column" where
  "input_column batch index what =
     (case batch of
        Some cs \<Rightarrow>
          if index < length cs then Inr (cs ! index)
          else Inl (what @ '': expects at least '' @ show_nat (index + 1) @ '' input column(s), got '' @ show_nat (length cs))
      | None \<Rightarrow> Inl (what @ '': expects at least '' @ show_nat (index + 1) @ '' input column(s), got 0''))"

definition double_first :: "'v arithmetic \<Rightarrow> ntype list option \<Rightarrow> 'v column list option \<Rightarrow> string + 'v column" where
  "double_first ar output batch =
     bindE (bound_output_type output ''double_first'') (\<lambda>t.
     bindE (input_column batch 0 ''double_first'') (\<lambda>first.
     case t of
       DECIMAL128 p s \<Rightarrow>
         bindE (cast_or_throw ar first (DECIMAL256 75 s)) (\<lambda>widened.
         bindE (add_arrays ar widened widened ''double'') (\<lambda>summed.
         cast_or_throw ar summed t))
     | _ \<Rightarrow>
         bindE (cast_or_throw ar first t) (\<lambda>c.
         bindE (add_arrays ar c c ''double'') (\<lambda>summed.
         cast_or_throw ar summed t))))"

definition add_two :: "'v arithmetic \<Rightarrow> ntype list option \<Rightarrow> 'v column list option \<Rightarrow> string + 'v column" where
  "add_two ar output batch =
     bindE (bound_output_type output ''add_two'') (\<lambda>t.
     bindE (bindE (input_column batch 0 ''add_two'') (\<lambda>c. cast_or_throw ar c t)) (\<lambda>a.
     bindE (bindE (input_column batch 1 ''add_two'') (\<lambda>c. cast_or_throw ar c t)) (\<lambda>b.
     bindE (add_arrays ar a b ''add'') (\<lambda>summed.
     cast_or_throw ar summed t))))"


subsection \<open>What the chosen type holds\<close>

definition lowest :: "ntype \<Rightarrow> int" where
  "lowest t = (case int_info t of Some (w, True) \<Rightarrow> - (2 ^ (w - 1)) | _ \<Rightarrow> 0)"

definition highest :: "ntype \<Rightarrow> int" where
  "highest t = (case int_info t of None \<Rightarrow> 0 | Some (w, True) \<Rightarrow> 2 ^ (w - 1) - 1 | Some (w, False) \<Rightarrow> 2 ^ w - 1)"

definition int_values :: "ntype \<Rightarrow> int set" where
  "int_values t = {lowest t .. highest t}"

definition width :: "ntype \<Rightarrow> nat" where
  "width t = (case int_info t of None \<Rightarrow> 0 | Some (w, _) \<Rightarrow> w)"

lemma int_cases:
  assumes "is_integer_type t"
  obtains "t = INT8" | "t = INT16" | "t = INT32" | "t = INT64" | "t = UINT8" | "t = UINT16" | "t = UINT32" | "t = UINT64"
  using assms by (cases t) (auto simp: is_integer_type_def)

lemma int_limits:
  "lowest INT8 = -128" "highest INT8 = 127" "lowest INT16 = -32768" "highest INT16 = 32767"
  "lowest INT32 = -2147483648" "highest INT32 = 2147483647"
  "lowest INT64 = -9223372036854775808" "highest INT64 = 9223372036854775807"
  "lowest UINT8 = 0" "highest UINT8 = 255" "lowest UINT16 = 0" "highest UINT16 = 65535"
  "lowest UINT32 = 0" "highest UINT32 = 4294967295" "lowest UINT64 = 0" "highest UINT64 = 18446744073709551615"
  by (simp_all add: lowest_def highest_def)

lemma sums_in_values:
  assumes "is_integer_type a" "is_integer_type b"
  shows "(\<forall>x \<in> int_values a. \<forall>y \<in> int_values b. x + y \<in> int_values t) \<longleftrightarrow>
    lowest t \<le> lowest a + lowest b \<and> highest a + highest b \<le> highest t"
proof -
  have "lowest a \<le> highest a" "lowest b \<le> highest b"
    using assms by (auto elim!: int_cases simp: int_limits)
  then have "lowest a \<in> int_values a" "highest a \<in> int_values a" "lowest b \<in> int_values b" "highest b \<in> int_values b"
    by (simp_all add: int_values_def)
  then show ?thesis by (fastforce simp: int_values_def)
qed

lemma integer_result:
  assumes "is_integer_type a" "is_integer_type b"
  shows "\<exists>t. common_type_for_addition show_type (Some a) (Some b) = Inr t \<and>
    (if UINT64 \<in> {a, b} \<and> {a, b} \<inter> {INT8, INT16, INT32, INT64} \<noteq> {} then t = DOUBLE
     else is_integer_type t \<and>
       (lowest t \<le> lowest a + lowest b \<and> highest a + highest b \<le> highest t \<longleftrightarrow> width a < 64 \<and> width b < 64))"
  using assms
  by (elim int_cases; simp add: common_type_for_addition_def common_numeric_def promote_for_addition_def
      is_floating_type_def is_integer_type_def width_def int_limits ex_bool_eq)

text \<open>
  C40: The result type of adding two integers. A UINT64 with a signed type is answered in DOUBLE; every other
  pair in an integer type, and that type holds all sums exactly when both arguments are narrower than 64 bits. So the
  headroom the header promises ends at 64 bits: the sum of two INT64 or two UINT64 may overflow its result type.
\<close>

theorem integer_sum_fits_iff:
  assumes "is_integer_type a" "is_integer_type b"
  shows "\<exists>t. common_type_for_addition show_type (Some a) (Some b) = Inr t \<and>
    (if UINT64 \<in> {a, b} \<and> {a, b} \<inter> {INT8, INT16, INT32, INT64} \<noteq> {} then t = DOUBLE
     else is_integer_type t \<and>
       ((\<forall>x \<in> int_values a. \<forall>y \<in> int_values b. x + y \<in> int_values t) \<longleftrightarrow> width a < 64 \<and> width b < 64))"
  unfolding sums_in_values [OF assms] using assms by (rule integer_result)

theorem integer_sum_fits_iff_witness:
  "\<exists>t. common_type_for_addition (\<lambda>_. []) (Some INT32) (Some UINT32) = Inr t \<and>
     (\<forall>x \<in> int_values INT32. \<forall>y \<in> int_values UINT32. x + y \<in> int_values t)"
  using integer_sum_fits_iff [of INT32 UINT32 "\<lambda>_. []"] by (auto simp: is_integer_type_def width_def)


text \<open>A decimal of precision \<open>p\<close> and scale \<open>s\<close>: at most \<open>p\<close> digits, the last of them worth \<open>10\<close> to the minus \<open>s\<close>.\<close>

definition decimal_holds :: "int \<Rightarrow> int \<Rightarrow> real \<Rightarrow> bool" where
  "decimal_holds p s x \<longleftrightarrow> (\<exists>n :: int. x = of_int n * 10 powi (- s) \<and> \<bar>n\<bar> < 10 ^ nat p)"

lemma decimal_widen:
  assumes "decimal_holds p s x" "s \<le> r" "0 \<le> p" "p - s + r \<le> q"
  shows "decimal_holds q r x"
proof -
  obtain n :: int where n: "x = of_int n * 10 powi (- s)" "\<bar>n\<bar> < 10 ^ nat p" using assms(1) by (auto simp: decimal_holds_def)
  let ?k = "nat (r - s)"
  have "10 powi (- s) = (10 :: real) ^ ?k * 10 powi (- r)"
    using assms(2) by (simp flip: power_int_of_nat add: power_int_add [symmetric])
  then have "x = of_int (n * 10 ^ ?k) * 10 powi (- r)" using n(1) by simp
  moreover have "\<bar>n * 10 ^ ?k\<bar> < 10 ^ nat q"
  proof -
    have "\<bar>n * 10 ^ ?k\<bar> < 10 ^ nat p * 10 ^ ?k" using n(2) by (simp add: abs_mult)
    also have "\<dots> = 10 ^ (nat p + ?k)" by (simp add: power_add)
    also have "\<dots> \<le> 10 ^ nat q" using assms(2-4) by (intro power_increasing) auto
    finally show ?thesis .
  qed
  ultimately show ?thesis unfolding decimal_holds_def by blast
qed

lemma decimal_sum:
  assumes "decimal_holds p s x" "decimal_holds p s y" "0 \<le> p"
  shows "decimal_holds (p + 1) s (x + y)"
proof -
  obtain n m :: int where n: "x = of_int n * 10 powi (- s)" "\<bar>n\<bar> < 10 ^ nat p"
    and m: "y = of_int m * 10 powi (- s)" "\<bar>m\<bar> < 10 ^ nat p" using assms by (auto simp: decimal_holds_def)
  have "\<bar>n + m\<bar> < 10 ^ nat (p + 1)" using n(2) m(2) assms(3) by (simp add: nat_add_distrib)
  then show ?thesis unfolding decimal_holds_def using n(1) m(1) by (intro exI [of _ "n + m"]) (simp add: distrib_right)
qed

text \<open>
  The result type of adding two decimals. It is a decimal of a precision Arrow allows, with the larger scale;
  and when the digits of the wider integer part and of the larger scale are fewer than 38 together, it holds every
  sum exactly.
\<close>

theorem decimal_sum_fits:
  assumes "1 \<le> p" "p \<le> 38" "1 \<le> q" "q \<le> 38"
  shows "\<exists>n. common_type_for_addition show_type (Some (DECIMAL128 p s)) (Some (DECIMAL128 q r)) = Inr (DECIMAL128 n (max s r)) \<and>
    1 \<le> n \<and> n \<le> 38 \<and>
    (max (p - s) (q - r) + max s r < 38 \<longrightarrow>
      (\<forall>x y. decimal_holds p s x \<longrightarrow> decimal_holds q r y \<longrightarrow> decimal_holds n (max s r) (x + y)))"
proof -
  let ?d = "max (p - s) (q - r) + max s r" and ?n = "min (min (max (p - s) (q - r) + max s r) 38 + 1) 38"
  have t: "common_type_for_addition show_type (Some (DECIMAL128 p s)) (Some (DECIMAL128 q r)) = Inr (DECIMAL128 ?n (max s r))"
    using assms by (auto simp: common_type_for_addition_def common_numeric_def promote_for_addition_def is_floating_type_def Let_def)
  have d: "p \<le> ?d" "q \<le> ?d" by (auto simp: max_def)
  have "decimal_holds ?n (max s r) (x + y)" if "?d < 38" "decimal_holds p s x" "decimal_holds q r y" for x y
  proof -
    have "decimal_holds ?d (max s r) x" "decimal_holds ?d (max s r) y"
      using decimal_widen [OF that(2), of "max s r" ?d] decimal_widen [OF that(3), of "max s r" ?d] assms by auto
    from decimal_sum [OF this] that(1) d assms show ?thesis by simp
  qed
  with t d assms show ?thesis by (intro exI [of _ ?n]) auto
qed

theorem decimal_sum_fits_witness:
  "common_type_for_addition (\<lambda>_. []) (Some (DECIMAL128 10 2)) (Some (DECIMAL128 4 3)) = Inr (DECIMAL128 12 3) \<and>
     decimal_holds 12 3 (99999999.99 + 9.999)"
proof -
  have a: "decimal_holds 10 2 99999999.99" "decimal_holds 4 3 9.999"
    unfolding decimal_holds_def
    by (rule exI [of _ 9999999999], simp add: power_int_def power2_eq_square)
      (rule exI [of _ 9999], simp add: power_int_def power3_eq_cube)
  from decimal_sum_fits [of 10 4 "\<lambda>_. []" 2 3] obtain n where
    n: "common_type_for_addition (\<lambda>_. []) (Some (DECIMAL128 10 2)) (Some (DECIMAL128 4 3)) = Inr (DECIMAL128 n 3)"
    "\<forall>x y. decimal_holds 10 2 x \<longrightarrow> decimal_holds 4 3 y \<longrightarrow> decimal_holds n 3 (x + y)" by auto
  moreover have "n = 12" using n(1) by (simp add: common_type_for_addition_def common_numeric_def promote_for_addition_def is_floating_type_def)
  ultimately show ?thesis using a by blast
qed


text \<open>
  A whole number beside a decimal is answered in the decimal type, one digit wider: the sum of an INT64 and a
  DECIMAL(4,2) is a DECIMAL(5,2), which does not hold 1000.
\<close>

lemma integer_beside_decimal:
  assumes "is_integer_type a"
  shows "common_type_for_addition show_type (Some a) (Some (DECIMAL128 p s)) = Inr (DECIMAL128 (min (p + 1) 38) s)"
  using assms
  by (elim int_cases) (simp_all add: common_type_for_addition_def common_numeric_def promote_for_addition_def is_floating_type_def)

lemma integer_beside_decimal_narrow: "\<not> decimal_holds 5 2 1000"
proof
  assume "decimal_holds 5 2 1000"
  then obtain n :: int where n: "(1000 :: real) = of_int n * 10 powi (- 2)" "\<bar>n\<bar> < 10 ^ nat 5" by (auto simp: decimal_holds_def)
  then have "real_of_int n = 100000" by (simp add: power_int_def power2_eq_square field_simps)
  then have "n = 100000" by linarith
  with n(2) show False by simp
qed

text \<open>The type \<^verbatim>\<open>double_first\<close> adds in: a decimal is widened first, so that the cast back is what fails.\<close>

definition sum_type :: "ntype \<Rightarrow> ntype" where
  "sum_type t = (case t of DECIMAL128 p s \<Rightarrow> DECIMAL256 75 s | _ \<Rightarrow> t)"

lemma double_first_wide:
  "double_first ar output batch =
     bindE (bound_output_type output ''double_first'') (\<lambda>t.
     bindE (input_column batch 0 ''double_first'') (\<lambda>first.
     bindE (cast_or_throw ar first (sum_type t)) (\<lambda>c.
     bindE (add_arrays ar c c ''double'') (\<lambda>summed. cast_or_throw ar summed t))))"
  unfolding double_first_def sum_type_def
  by (intro bindE_cong refl) (simp split: ntype.split)

text \<open>
  Both sums answer in the bound type: the last step is a cast to it, and Arrow's cast returns the type it was
  asked for.
\<close>

lemma sum_in_bound_type:
  assumes "\<And>t c d. n_cast ar t c = Inr d \<Longrightarrow> col_type d = t"
    and "double_first ar output batch = Inr c \<or> add_two ar output batch = Inr c"
  shows "output = Some [col_type c]"
proof -
  have cast: "col_type d = t" if "cast_or_throw ar c t = Inr d" for c t d
    using that assms(1) by (auto simp: cast_or_throw_def split: if_splits sum.splits)
  have bound: "output = Some [t]" if "bound_output_type output what = Inr t" for what t
    using that by (auto simp: bound_output_type_def split: option.splits list.splits)
  from assms(2) show ?thesis
  proof
    assume "double_first ar output batch = Inr c"
    then obtain t d where "bound_output_type output ''double_first'' = Inr t" "cast_or_throw ar d t = Inr c"
      by (auto simp: double_first_wide)
    then show ?thesis using bound cast by metis
  next
    assume "add_two ar output batch = Inr c"
    then obtain t d where "bound_output_type output ''add_two'' = Inr t" "cast_or_throw ar d t = Inr c"
      by (auto simp: add_two_def)
    then show ?thesis using bound cast by metis
  qed
qed

end
