(* ===== verification/Arguments.thy ===== *)
theory Arguments
  imports Wire_Result Ordered_Map
begin

section \<open>The arguments of a call\<close>

text \<open>
  \<^verbatim>\<open>src/src/arguments.cpp\<close>. The arguments of a call arrive as one batch: a struct column \<^verbatim>\<open>args\<close> whose children are
  named \<^verbatim>\<open>positional_<n>\<close> or \<^verbatim>\<open>named_<name>\<close>, or a column per argument. A null pointer is \<open>None\<close>. Sizes are 64-bit:
  the vector of positional arguments is sized by the highest index plus one, which is written out with its
  wrap-around, and a write past its end is the error \<open>OutOfRange\<close>. Arrow's stream reader and its cast are arguments.
\<close>

datatype arguments_error = ArgWire wire_error | LengthError | OutOfRange

record arguments =
  positional_args :: "arr option list"
  positional_fields :: "field option list"
  named_args :: "(string \<times> arr) list"

definition no_arguments :: arguments where
  "no_arguments = \<lparr>positional_args = [], positional_fields = [], named_args = []\<rparr>"

subsection \<open>Positional names\<close>

text \<open>\<^verbatim>\<open>std::from_chars\<close> into a \<^verbatim>\<open>size_t\<close> that must use all characters: digits only, below \<open>2\<close> to the \<open>64\<close>.\<close>

definition from_chars :: "string \<Rightarrow> nat option" where
  "from_chars s = (if s \<noteq> [] \<and> list_all is_digit s \<and> dec_value s < 2 ^ 64 then Some (dec_value s) else None)"

definition positional_prefix :: string where
  "positional_prefix = ''positional_''"

definition positional_index :: "string \<Rightarrow> nat option" where
  "positional_index name =
     (if length name \<le> length positional_prefix \<or> \<not> starts_with name positional_prefix then None
      else from_chars (drop (length positional_prefix) name))"

subsection \<open>Parsing\<close>

text \<open>
  The children of a struct column: each field with the array of its values. The slots of a child below a null
  struct are null, and a child that is itself a dictionary array is read without its dictionary.
\<close>

definition child_values :: "nat \<Rightarrow> cell \<Rightarrow> cell" where
  "child_values i c = (case c of VStruct cs \<Rightarrow> if i < length cs then cs ! i else Null | _ \<Rightarrow> Null)"

definition struct_children :: "arr \<Rightarrow> (field \<times> arr) list option" where
  "struct_children a =
     (case arr_type a of
        TStruct fs \<Rightarrow>
          Some (map (\<lambda>(i, f). (f, \<lparr>arr_type = field_type f, arr_cells = map (child_values i) (arr_cells a), arr_dictionary = []\<rparr>))
            (enumerate 0 fs))
      | _ \<Rightarrow> None)"

fun add_named :: "(field \<times> arr) list \<Rightarrow> (string \<times> arr) list \<Rightarrow> (string \<times> arr) list" where
  "add_named [] m = m"
| "add_named ((f, a) # rest) m =
     (let name = field_name f in
      add_named rest
       (if positional_index name \<noteq> None then om_put name a m
        else if starts_with name ''named_'' then om_put name a (om_put (drop (length ''named_'') name) a m)
        else om_put name a m))"

text \<open>The entries with a positional name, with their index, in the order of the children.\<close>

definition positional_entries :: "(field \<times> arr) list \<Rightarrow> (nat \<times> field \<times> arr) list" where
  "positional_entries cs =
     List.map_filter (\<lambda>(f, a). map_option (\<lambda>i. (i, f, a)) (positional_index (field_name f))) cs"

text \<open>
  \<^verbatim>\<open>assign(highest + 1, nullptr)\<close> in 64 bits, then one write per entry. A vector of shared pointers has at most
  \<open>max_elements\<close> elements; a longer one is a \<^verbatim>\<open>std::length_error\<close>.
\<close>

definition max_elements :: nat where
  "max_elements = 2 ^ 59 - 1"

definition seats :: "(nat \<times> 'a) list \<Rightarrow> nat" where
  "seats es = (foldl (\<lambda>h e. max h (fst e)) 0 es + 1) mod 2 ^ 64"

fun place :: "(nat \<times> 'a) list \<Rightarrow> 'a option list \<Rightarrow> arguments_error + 'a option list" where
  "place [] xs = Inr xs"
| "place ((i, x) # es) xs = (if i < length xs then place es (xs[i := Some x]) else Inl OutOfRange)"

definition seat :: "(nat \<times> 'a) list \<Rightarrow> arguments_error + 'a option list" where
  "seat es =
     (if es = [] then Inr []
      else if seats es > max_elements then Inl LengthError
      else place es (replicate (seats es) None))"

definition parse_struct :: "(field \<times> arr) list \<Rightarrow> arguments_error + arguments" where
  "parse_struct cs =
     (let es = positional_entries cs in
      bindE (seat (map (\<lambda>(i, f, a). (i, a)) es)) (\<lambda>arrays.
      bindE (seat (map (\<lambda>(i, f, a). (i, f)) es)) (\<lambda>fs.
      Inr \<lparr>positional_args = arrays, positional_fields = fs, named_args = add_named cs []\<rparr>)))"

definition parse_columns :: "(field \<times> arr) list \<Rightarrow> arguments" where
  "parse_columns cs =
     \<lparr>positional_args = map (Some \<circ> snd) cs, positional_fields = map (Some \<circ> fst) cs,
      named_args = foldl (\<lambda>m (f, a). om_put (field_name f) a m) [] cs\<rparr>"

definition parse_arguments :: "(bytes \<Rightarrow> wire_error + batch option) \<Rightarrow> bytes \<Rightarrow> arguments_error + arguments" where
  "parse_arguments ipc bs =
     (if bs = [] then Inr no_arguments
      else case decode_ipc ipc bs of
        Inl e \<Rightarrow> Inl (ArgWire e)
      | Inr None \<Rightarrow> Inr no_arguments
      | Inr (Some b) \<Rightarrow>
          (case columns b of
             [(f, a)] \<Rightarrow>
               if field_name f = ''args''
               then (case struct_children a of None \<Rightarrow> Inr no_arguments | Some cs \<Rightarrow> parse_struct cs)
               else Inr (parse_columns (columns b))
           | cs \<Rightarrow> Inr (parse_columns cs)))"

subsection \<open>Reading\<close>

definition positional :: "arguments \<Rightarrow> nat \<Rightarrow> arr option" where
  "positional args i = (if i < length (positional_args args) then positional_args args ! i else None)"

definition named :: "arguments \<Rightarrow> string \<Rightarrow> arr option" where
  "named args name = map_of (named_args args) name"

definition present_null :: "arr option \<Rightarrow> bool" where
  "present_null a = (case a of None \<Rightarrow> False | Some a \<Rightarrow> arr_cells a \<noteq> [] \<and> hd (arr_cells a) = Null)"

definition positional_is_null :: "arguments \<Rightarrow> nat \<Rightarrow> bool" where
  "positional_is_null args i = present_null (positional args i)"

definition named_is_null :: "arguments \<Rightarrow> string \<Rightarrow> bool" where
  "named_is_null args name = present_null (named args name)"

definition positional_field :: "arguments \<Rightarrow> nat \<Rightarrow> field option" where
  "positional_field args i = (if i < length (positional_fields args) then positional_fields args ! i else None)"

definition positional_type :: "arguments \<Rightarrow> nat \<Rightarrow> dtype option" where
  "positional_type args i = map_option field_type (positional_field args i)"

definition cast_scalar :: "(arr \<Rightarrow> dtype \<Rightarrow> arr option) \<Rightarrow> arr option \<Rightarrow> dtype \<Rightarrow> arr option" where
  "cast_scalar cast a t =
     (case a of
        None \<Rightarrow> None
      | Some a \<Rightarrow>
          if arr_cells a = [] \<or> hd (arr_cells a) = Null then None
          else if arr_type a = t then Some a else cast a t)"

text \<open>The typed reads: the value of the first slot after the cast.\<close>

definition scalar_of :: "(arr \<Rightarrow> dtype \<Rightarrow> arr option) \<Rightarrow> dtype \<Rightarrow> arr option \<Rightarrow> cell option" where
  "scalar_of cast t a = map_option (\<lambda>c. hd (arr_cells c)) (cast_scalar cast a t)"

definition const_int64 :: "(arr \<Rightarrow> dtype \<Rightarrow> arr option) \<Rightarrow> arguments \<Rightarrow> nat \<Rightarrow> cell option" where
  "const_int64 cast args i = scalar_of cast TInt64 (positional args i)"

definition const_double :: "(arr \<Rightarrow> dtype \<Rightarrow> arr option) \<Rightarrow> arguments \<Rightarrow> nat \<Rightarrow> cell option" where
  "const_double cast args i = scalar_of cast TDouble (positional args i)"

definition const_string :: "(arr \<Rightarrow> dtype \<Rightarrow> arr option) \<Rightarrow> arguments \<Rightarrow> nat \<Rightarrow> cell option" where
  "const_string cast args i = scalar_of cast TString (positional args i)"

definition const_bool :: "(arr \<Rightarrow> dtype \<Rightarrow> arr option) \<Rightarrow> arguments \<Rightarrow> nat \<Rightarrow> cell option" where
  "const_bool cast args i = scalar_of cast TBool (positional args i)"

definition named_int64 :: "(arr \<Rightarrow> dtype \<Rightarrow> arr option) \<Rightarrow> arguments \<Rightarrow> string \<Rightarrow> cell option" where
  "named_int64 cast args name = scalar_of cast TInt64 (named args name)"

definition named_double :: "(arr \<Rightarrow> dtype \<Rightarrow> arr option) \<Rightarrow> arguments \<Rightarrow> string \<Rightarrow> cell option" where
  "named_double cast args name = scalar_of cast TDouble (named args name)"

definition named_bool :: "(arr \<Rightarrow> dtype \<Rightarrow> arr option) \<Rightarrow> arguments \<Rightarrow> string \<Rightarrow> cell option" where
  "named_bool cast args name = scalar_of cast TBool (named args name)"

definition named_string :: "(arr \<Rightarrow> dtype \<Rightarrow> arr option) \<Rightarrow> arguments \<Rightarrow> string \<Rightarrow> cell option" where
  "named_string cast args name = scalar_of cast TString (named args name)"

subsection \<open>Seating the constants where they are declared\<close>

text \<open>What \<^verbatim>\<open>remap_positional\<close> reads of a declared argument: its position, if it has one, and whether it is a constant.\<close>

record arg_spec =
  as_index :: "int option"
  as_constant :: bool

definition spec_positions :: "arg_spec list \<Rightarrow> (nat \<times> bool) list" where
  "spec_positions specs =
     List.map_filter (\<lambda>s. case as_index s of None \<Rightarrow> None | Some i \<Rightarrow> if i < 0 then None else Some (nat i, as_constant s)) specs"

definition declared_positions :: "arg_spec list \<Rightarrow> nat list" where
  "declared_positions specs = map fst (filter snd (spec_positions specs))"

definition highest_position :: "arg_spec list \<Rightarrow> nat" where
  "highest_position specs = foldl (\<lambda>h p. max h (fst p)) 0 (spec_positions specs)"

fun reseat :: "nat list \<Rightarrow> 'a option list \<Rightarrow> 'a option list \<Rightarrow> 'a option list" where
  "reseat (d # ds) (x # xs) out = reseat ds xs (out[d := x])"
| "reseat _ _ out = out"

definition remap_positional :: "arg_spec list \<Rightarrow> arguments \<Rightarrow> arguments" where
  "remap_positional specs args =
     (let n = highest_position specs; ds = declared_positions specs in
      if positional_args args = [] \<or> specs = [] then args
      else if length ds = length specs then args
      else if length (positional_args args) > n then args
      else args\<lparr>positional_args := reseat ds (positional_args args) (replicate (n + 1) None),
        positional_fields := reseat ds (take (length (positional_args args)) (positional_fields args)) (replicate (n + 1) None)\<rparr>)"

subsection \<open>Writing\<close>

definition arg_columns :: "arr list \<Rightarrow> (string \<times> arr) list \<Rightarrow> (field \<times> arr) list" where
  "arg_columns ps ns =
     map (\<lambda>(i, a). (Field (''arg_'' @ show_nat i) (arr_type a) False, a)) (enumerate 0 ps) @
     map (\<lambda>(n, a). (Field n (arr_type a) False, a)) ns"

definition serialize_scan_arguments ::
    "(batch \<Rightarrow> bytes) \<Rightarrow> bytes \<Rightarrow> arr list \<Rightarrow> (string \<times> arr) list \<Rightarrow> bytes" where
  "serialize_scan_arguments enc empty_schema ps ns =
     (if ps = [] \<and> ns = [] then empty_schema
      else enc \<lparr>columns = arg_columns ps ns, num_rows = length (arr_cells (snd (hd (arg_columns ps ns))))\<rparr>)"

subsection \<open>Where the positional arguments end up\<close>

lemma place_Inr:
  assumes "\<forall>e \<in> set es. fst e < length xs"
  shows "\<exists>ys. place es xs = Inr ys \<and> length ys = length xs \<and>
    (\<forall>i < length xs. ys ! i = (case map_of (rev es) i of None \<Rightarrow> xs ! i | Some x \<Rightarrow> Some x))"
  using assms
proof (induction es xs rule: place.induct)
  case (2 i x es xs)
  then obtain ys where "place es (xs[i := Some x]) = Inr ys" "length ys = length xs"
    "\<forall>j < length xs. ys ! j = (case map_of (rev es) j of None \<Rightarrow> xs[i := Some x] ! j | Some x \<Rightarrow> Some x)" by auto
  with 2(2) show ?case by (auto simp: map_add_def nth_list_update split: option.splits)
qed simp

definition highest_index :: "(nat \<times> 'a) list \<Rightarrow> nat" where
  "highest_index es = Max (insert 0 (fst ` set es))"

lemma foldl_max_Max: "foldl (\<lambda>h e. max h (fst e)) h es = Max (insert h (fst ` set es))"
proof (induction es arbitrary: h)
  case (Cons e es)
  have "Max (insert (max h (fst e)) (fst ` set es)) = Max (insert h (insert (fst e) (fst ` set es)))"
    by (cases "es = []") (simp_all add: max.assoc)
  with Cons show ?case by simp
qed simp

lemma foldl_max_highest: "foldl (\<lambda>h e. max h (fst e)) 0 es = highest_index es"
  by (simp add: foldl_max_Max highest_index_def)

lemma place_out: "e \<in> set es \<Longrightarrow> length xs \<le> fst e \<Longrightarrow> place es xs = Inl OutOfRange"
  by (induction es xs rule: place.induct) auto

lemma highest_index_ge: "e \<in> set es \<Longrightarrow> fst e \<le> highest_index es"
  by (simp add: highest_index_def)

lemma highest_index_in:
  assumes "es \<noteq> []"
  shows "highest_index es \<in> fst ` set es"
proof -
  have "highest_index es = Max (fst ` set es)" using assms by (simp add: highest_index_def)
  with assms show ?thesis by simp
qed

text \<open>What sizing the vector and writing into it does, for indices of 64 bits.\<close>

lemma seat_outcome:
  assumes "\<forall>e \<in> set es. fst e < 2 ^ 64" "es \<noteq> []"
  shows "highest_index es = 2 ^ 64 - 1 \<Longrightarrow> seat es = Inl OutOfRange"
    and "max_elements \<le> highest_index es \<Longrightarrow> highest_index es < 2 ^ 64 - 1 \<Longrightarrow> seat es = Inl LengthError"
    and "highest_index es < max_elements \<Longrightarrow> \<exists>ys. seat es = Inr ys \<and> length ys = highest_index es + 1 \<and>
      (\<forall>i < length ys. ys ! i = map_of (rev es) i)"
proof -
  obtain e where e: "e \<in> set es" "fst e = highest_index es" using highest_index_in [OF assms(2)] by auto
  show "seat es = Inl OutOfRange" if "highest_index es = 2 ^ 64 - 1"
    using place_out [OF e(1), of "[]"] assms(2) that e(2) by (simp add: seat_def seats_def foldl_max_highest max_elements_def)
  show "seat es = Inl LengthError" if "max_elements \<le> highest_index es" "highest_index es < 2 ^ 64 - 1"
    using that assms(2) by (simp add: seat_def seats_def foldl_max_highest)
  assume h: "highest_index es < max_elements"
  then have n: "seats es = highest_index es + 1" "seats es \<le> max_elements"
    by (simp_all add: seats_def foldl_max_highest max_elements_def)
  have "\<forall>e \<in> set es. fst e < length (replicate (seats es) (None :: 'a option))" using highest_index_ge n by fastforce
  from place_Inr [OF this] obtain ys where ys: "place es (replicate (seats es) None) = Inr ys" "length ys = seats es"
    "\<forall>i < seats es. ys ! i = (case map_of (rev es) i of None \<Rightarrow> replicate (seats es) None ! i | Some x \<Rightarrow> Some x)" by auto
  then have "\<forall>i < length ys. ys ! i = map_of (rev es) i" by (simp split: option.splits)
  with ys n assms(2)
  show "\<exists>ys. seat es = Inr ys \<and> length ys = highest_index es + 1 \<and> (\<forall>i < length ys. ys ! i = map_of (rev es) i)"
    by (simp add: seat_def)
qed

lemma positional_index_bound: "positional_index name = Some i \<Longrightarrow> i < 2 ^ 64"
  by (auto simp: positional_index_def from_chars_def split: if_splits)

lemma positional_entries_bound: "e \<in> set (positional_entries cs) \<Longrightarrow> fst e < 2 ^ 64"
  by (auto simp: positional_entries_def map_filter_def dest: positional_index_bound [simplified] split: if_splits)

text \<open>An index on the wire with the array it stands for.\<close>

definition wire_arrays :: "(field \<times> arr) list \<Rightarrow> (nat \<times> arr) list" where
  "wire_arrays cs = map (\<lambda>(i, f, a). (i, a)) (positional_entries cs)"

definition wire_fields :: "(field \<times> arr) list \<Rightarrow> (nat \<times> field) list" where
  "wire_fields cs = map (\<lambda>(i, f, a). (i, f)) (positional_entries cs)"

lemma wire_bound: "\<forall>e \<in> set (wire_arrays cs). fst e < 2 ^ 64" "\<forall>e \<in> set (wire_fields cs). fst e < 2 ^ 64"
  using positional_entries_bound [of _ cs] by (force simp: wire_arrays_def wire_fields_def)+

lemma wire_same: "highest_index (wire_fields cs) = highest_index (wire_arrays cs)" "wire_fields cs = [] \<longleftrightarrow> wire_arrays cs = []"
  by (auto simp: wire_arrays_def wire_fields_def highest_index_def image_image case_prod_beta)

lemma above_highest: "highest_index es < i \<Longrightarrow> map_of (rev es) i = None"
  using highest_index_ge [of _ es] by (force simp: map_of_eq_None_iff)

lemma seat_lookup:
  assumes "\<forall>e \<in> set es. fst e < 2 ^ 64" "es = [] \<or> highest_index es < max_elements"
  shows "\<exists>ys. seat es = Inr ys \<and> (\<forall>i. (if i < length ys then ys ! i else None) = map_of (rev es) i)"
proof (cases "es = []")
  case False
  with seat_outcome(3) [OF assms(1)] assms(2) obtain ys where ys: "seat es = Inr ys" "length ys = highest_index es + 1"
    "\<forall>i < length ys. ys ! i = map_of (rev es) i" by blast
  moreover have "map_of (rev es) i = None" if "\<not> i < length ys" for i using that ys(2) by (intro above_highest) simp
  ultimately show ?thesis by auto
qed (simp add: seat_def)

text \<open>
  C36: Where the positional arguments of a call end up. Without an index from \<open>2\<close> to the \<open>59\<close> minus one on, the arguments
  are parsed, and position \<open>i\<close> has the array and the field of the last child whose name spells \<open>i\<close>, or
  nothing. The index \<open>2\<close> to the \<open>64\<close> minus one is accepted as a name, the size of the vector wraps to zero and the
  write goes past its end; any other index that high is a length error.
\<close>

theorem positional_arguments:
  assumes "bs \<noteq> []" "ipc bs = Inr (Some b)" "columns b = [(f, a)]" "field_name f = ''args''" "struct_children a = Some cs"
  shows "if wire_arrays cs = [] \<or> highest_index (wire_arrays cs) < max_elements
    then \<exists>args. parse_arguments ipc bs = Inr args \<and>
      (\<forall>i. positional args i = map_of (rev (wire_arrays cs)) i \<and> positional_field args i = map_of (rev (wire_fields cs)) i)
    else parse_arguments ipc bs =
      Inl (if highest_index (wire_arrays cs) = 2 ^ 64 - 1 then OutOfRange else LengthError)"
proof -
  have parse: "parse_arguments ipc bs = bindE (seat (wire_arrays cs)) (\<lambda>arrays. bindE (seat (wire_fields cs)) (\<lambda>fs.
      Inr \<lparr>positional_args = arrays, positional_fields = fs, named_args = add_named cs []\<rparr>))"
    using assms by (simp add: parse_arguments_def decode_ipc_def parse_struct_def wire_arrays_def wire_fields_def Let_def)
  show ?thesis
  proof (cases "wire_arrays cs = [] \<or> highest_index (wire_arrays cs) < max_elements")
    case True
    then have "wire_fields cs = [] \<or> highest_index (wire_fields cs) < max_elements" by (simp add: wire_same)
    with True obtain xs ys where xs: "seat (wire_arrays cs) = Inr xs" "\<forall>i. (if i < length xs then xs ! i else None) = map_of (rev (wire_arrays cs)) i"
      and ys: "seat (wire_fields cs) = Inr ys" "\<forall>i. (if i < length ys then ys ! i else None) = map_of (rev (wire_fields cs)) i"
      using seat_lookup [OF wire_bound(1), of cs] seat_lookup [OF wire_bound(2), of cs] by blast
    let ?args = "\<lparr>positional_args = xs, positional_fields = ys, named_args = add_named cs []\<rparr>"
    have "parse_arguments ipc bs = Inr ?args" using xs(1) ys(1) by (simp add: parse)
    moreover have "positional ?args i = map_of (rev (wire_arrays cs)) i" "positional_field ?args i = map_of (rev (wire_fields cs)) i" for i
      using xs(2) [rule_format, of i] ys(2) [rule_format, of i] by (auto simp: positional_def positional_field_def split: if_splits)
    ultimately show ?thesis using True by auto
  next
    case False
    then have ne: "wire_arrays cs \<noteq> []" and ge: "max_elements \<le> highest_index (wire_arrays cs)" by auto
    have lt: "highest_index (wire_arrays cs) < 2 ^ 64" using highest_index_in [OF ne] wire_bound(1) [of cs] by (metis imageE)
    show ?thesis
    proof (cases "highest_index (wire_arrays cs) = 2 ^ 64 - 1")
      case True
      then show ?thesis using seat_outcome(1) [OF wire_bound(1) ne True] False unfolding parse by (simp only: bindE.simps if_False if_True refl)
    next
      case other: False
      with lt have "highest_index (wire_arrays cs) < 2 ^ 64 - 1" by linarith
      then show ?thesis using seat_outcome(2) [OF wire_bound(1) ne ge] False other unfolding parse by (simp only: bindE.simps if_False)
    qed
  qed
qed

definition last_index_batch :: batch where
  "last_index_batch = \<lparr>columns = [(Field ''args'' (TStruct [Field ''positional_18446744073709551615'' TInt64 True]) True,
     \<lparr>arr_type = TStruct [Field ''positional_18446744073709551615'' TInt64 True], arr_cells = [VStruct [VInt 1]], arr_dictionary = []\<rparr>)],
     num_rows = 1\<rparr>"

theorem positional_arguments_witness:
  "parse_arguments (\<lambda>_. Inr (Some last_index_batch)) ''x'' = Inl OutOfRange"
proof -
  let ?f = "Field ''positional_18446744073709551615'' TInt64 True"
  let ?cs = "[(?f, \<lparr>arr_type = TInt64, arr_cells = [VInt 1], arr_dictionary = []\<rparr>)]"
  have "positional_index (field_name ?f) = Some (2 ^ 64 - 1)"
    by (simp add: positional_index_def positional_prefix_def starts_with_def from_chars_def dec_value_def is_digit_def digit_value_def)
  then have "wire_arrays ?cs = [(2 ^ 64 - 1, \<lparr>arr_type = TInt64, arr_cells = [VInt 1], arr_dictionary = []\<rparr>)]"
    by (simp add: wire_arrays_def positional_entries_def map_filter_simps)
  moreover have "struct_children (snd (hd (columns last_index_batch))) = Some ?cs"
    by (simp add: struct_children_def last_index_batch_def child_values_def enumerate_eq_zip)
  ultimately show ?thesis
    using positional_arguments [of "''x''" "\<lambda>_. Inr (Some last_index_batch)" last_index_batch _ _ ?cs]
    by (simp add: last_index_batch_def highest_index_def max_elements_def)
qed

subsection \<open>Seating the constants\<close>

lemma length_reseat [simp]: "length (reseat ds xs out) = length out"
  by (induction ds xs out rule: reseat.induct) auto

lemma reseat_other: "d \<notin> set (take (length xs) ds) \<Longrightarrow> reseat ds xs out ! d = out ! d"
  by (induction ds xs out rule: reseat.induct) auto

lemma reseat_nth:
  assumes "distinct ds" "i < length ds" "i < length xs" "\<forall>d \<in> set ds. d < length out"
  shows "reseat ds xs out ! (ds ! i) = xs ! i"
  using assms
proof (induction ds xs out arbitrary: i rule: reseat.induct)
  case (1 d ds x xs out)
  show ?case
  proof (cases i)
    case 0
    have "d \<notin> set (take (length xs) ds)" using "1.prems"(1) by (auto dest: in_set_takeD)
    then show ?thesis using 0 "1.prems"(4) by (simp add: reseat_other)
  next
    case (Suc j)
    then show ?thesis using "1.IH" [of j] "1.prems" by simp
  qed
qed auto

lemma declared_le_highest: "d \<in> set (declared_positions specs) \<Longrightarrow> d \<le> highest_position specs"
  using highest_index_ge [of _ "spec_positions specs"]
  by (auto simp: declared_positions_def highest_position_def foldl_max_highest)

text \<open>
  Seating the constants. When an argument that is not a constant is declared and the call sent no more arguments
  than positions were declared before the last, the \<open>i\<close>-th argument on the wire is found at the position of the
  \<open>i\<close>-th declared constant, and every position no constant was sent for is empty. Otherwise nothing moves.
\<close>

theorem constants_seated:
  assumes "distinct (declared_positions specs)"
  shows "if positional_args args \<noteq> [] \<and> specs \<noteq> [] \<and> length (declared_positions specs) \<noteq> length specs \<and>
      length (positional_args args) \<le> highest_position specs
    then (\<forall>i < length (declared_positions specs). i < length (positional_args args) \<longrightarrow>
        positional (remap_positional specs args) (declared_positions specs ! i) = positional args i) \<and>
      (\<forall>d. d \<notin> set (take (length (positional_args args)) (declared_positions specs)) \<longrightarrow>
        positional (remap_positional specs args) d = None)
    else remap_positional specs args = args"
proof (cases "positional_args args \<noteq> [] \<and> specs \<noteq> [] \<and> length (declared_positions specs) \<noteq> length specs \<and>
      length (positional_args args) \<le> highest_position specs")
  case True
  let ?n = "highest_position specs" and ?ds = "declared_positions specs"
  let ?out = "replicate (?n + 1) None :: arr option list"
  have args: "positional_args (remap_positional specs args) = reseat ?ds (positional_args args) ?out"
    using True by (simp add: remap_positional_def Let_def)
  have le: "\<forall>d \<in> set ?ds. d < length ?out" using declared_le_highest [of _ specs] by (auto simp: less_Suc_eq_le)
  have "positional (remap_positional specs args) (?ds ! i) = positional args i" if "i < length ?ds" "i < length (positional_args args)" for i
    using reseat_nth [OF assms that le] that le by (simp add: positional_def args del: replicate_Suc replicate.simps)
  moreover have "positional (remap_positional specs args) d = None" if "d \<notin> set (take (length (positional_args args)) ?ds)" for d
    using reseat_other [OF that, of ?out] by (simp add: positional_def args nth_replicate del: replicate_Suc replicate.simps)
  ultimately show ?thesis using True by auto
qed (auto simp: remap_positional_def Let_def)

text \<open>A column and then a constant: the one argument on the wire is the second of the call.\<close>

theorem constants_seated_witness:
  "positional (remap_positional [\<lparr>as_index = Some 0, as_constant = False\<rparr>, \<lparr>as_index = Some 1, as_constant = True\<rparr>]
     (parse_columns [(Field ''positional_0'' TInt64 True, one TInt64 (VInt 7))])) 1 = Some (one TInt64 (VInt 7))"
proof -
  let ?specs = "[\<lparr>as_index = Some 0, as_constant = False\<rparr>, \<lparr>as_index = Some 1, as_constant = True\<rparr>]"
  have "declared_positions ?specs = [1]" "highest_position ?specs = 1"
    by (simp_all add: declared_positions_def highest_position_def spec_positions_def map_filter_simps)
  then show ?thesis
    using constants_seated [of ?specs "parse_columns [(Field ''positional_0'' TInt64 True, one TInt64 (VInt 7))]"]
    by (simp add: parse_columns_def positional_def)
qed

end
