(* ===== verification/Settings.thy ===== *)
theory Settings
  imports Arguments
begin

section \<open>Settings and secrets\<close>

text \<open>
  \<^verbatim>\<open>src/src/settings.cpp\<close>: the settings and the secrets a call carries, each one batch with a column per entry. Both
  classes keep a \<^verbatim>\<open>std::map\<close>. Arrow's reader, its cast and the text it prints for a scalar are arguments.
\<close>

type_synonym settings = "(string \<times> arr) list"
type_synonym secret = "(string \<times> string) list"
type_synonym secrets = "(string \<times> secret) list"

definition parse_settings :: "(bytes \<Rightarrow> wire_error + batch option) \<Rightarrow> bytes \<Rightarrow> wire_error + settings" where
  "parse_settings ipc bs =
     (if bs = [] then Inr []
      else bindE (decode_ipc ipc bs) (\<lambda>b.
        Inr (case b of None \<Rightarrow> [] | Some b \<Rightarrow> foldl (\<lambda>m (f, a). om_put (field_name f) a m) [] (columns b))))"

definition get_setting :: "settings \<Rightarrow> string \<Rightarrow> arr option" where
  "get_setting m name = map_of m name"

definition setting_int64 :: "(arr \<Rightarrow> dtype \<Rightarrow> arr option) \<Rightarrow> settings \<Rightarrow> string \<Rightarrow> cell option" where
  "setting_int64 cast m name = scalar_of cast TInt64 (get_setting m name)"

definition setting_double :: "(arr \<Rightarrow> dtype \<Rightarrow> arr option) \<Rightarrow> settings \<Rightarrow> string \<Rightarrow> cell option" where
  "setting_double cast m name = scalar_of cast TDouble (get_setting m name)"

definition setting_string :: "(arr \<Rightarrow> dtype \<Rightarrow> arr option) \<Rightarrow> settings \<Rightarrow> string \<Rightarrow> cell option" where
  "setting_string cast m name = scalar_of cast TString (get_setting m name)"

definition setting_bool :: "(arr \<Rightarrow> dtype \<Rightarrow> arr option) \<Rightarrow> settings \<Rightarrow> string \<Rightarrow> cell option" where
  "setting_bool cast m name = scalar_of cast TBool (get_setting m name)"

subsection \<open>Secrets\<close>

definition render :: "(dtype \<Rightarrow> cell \<Rightarrow> string option) \<Rightarrow> arr \<Rightarrow> string" where
  "render show_scalar a =
     (if arr_cells a = [] \<or> hd (arr_cells a) = Null then []
      else if arr_type a = TString then text_of (hd (arr_cells a))
      else case show_scalar (arr_type a) (hd (arr_cells a)) of None \<Rightarrow> [] | Some s \<Rightarrow> s)"

definition secret_fields :: "(dtype \<Rightarrow> cell \<Rightarrow> string option) \<Rightarrow> field \<Rightarrow> arr \<Rightarrow> secret" where
  "secret_fields show_scalar f a =
     (case struct_children a of
        Some cs \<Rightarrow> foldl (\<lambda>m (g, c). om_put (field_name g) (render show_scalar c) m) [] cs
      | None \<Rightarrow> [(field_name f, render show_scalar a)])"

definition add_secrets :: "(dtype \<Rightarrow> cell \<Rightarrow> string option) \<Rightarrow> (field \<times> arr) list \<Rightarrow> secrets" where
  "add_secrets show_scalar cs = foldl (\<lambda>m (f, a). om_put (field_name f) (secret_fields show_scalar f a) m) [] cs"

definition parse_secrets ::
    "(bytes \<Rightarrow> wire_error + batch option) \<Rightarrow> (dtype \<Rightarrow> cell \<Rightarrow> string option) \<Rightarrow> bytes \<Rightarrow> wire_error + secrets" where
  "parse_secrets ipc show_scalar bs =
     (if bs = [] then Inr []
      else bindE (decode_ipc ipc bs) (\<lambda>b.
        Inr (case b of None \<Rightarrow> [] | Some b \<Rightarrow> add_secrets show_scalar (columns b))))"

definition secret_field :: "secrets \<Rightarrow> string \<Rightarrow> string \<Rightarrow> string option" where
  "secret_field m name field = (case map_of m name of None \<Rightarrow> None | Some fs \<Rightarrow> map_of fs field)"

definition find_secret :: "secrets \<Rightarrow> string \<Rightarrow> secret option" where
  "find_secret m name = map_of m name"

fun of_type :: "secrets \<Rightarrow> string \<Rightarrow> secret option" where
  "of_type [] type = None"
| "of_type ((name, fs) # m) type = (if map_of fs ''type'' = Some type then Some fs else of_type m type)"

definition typed_field :: "secrets \<Rightarrow> string \<Rightarrow> string \<Rightarrow> string option" where
  "typed_field m type field = (case of_type m type of None \<Rightarrow> None | Some fs \<Rightarrow> map_of fs field)"

text \<open>The scope of a secret: what a path must start with. The loop keeps the best so far and the length of its scope.\<close>

definition scope_of :: "secret \<Rightarrow> string" where
  "scope_of fs = (case map_of fs ''scope'' of None \<Rightarrow> [] | Some s \<Rightarrow> s)"

fun scope_loop :: "string \<Rightarrow> string \<Rightarrow> secret option \<Rightarrow> nat \<Rightarrow> secrets \<Rightarrow> secret option" where
  "scope_loop path type best best_length [] = best"
| "scope_loop path type best best_length ((name, fs) # m) =
     (if map_of fs ''type'' \<noteq> Some type then scope_loop path type best best_length m
      else let p = scope_of fs in
        if p \<noteq> [] \<and> \<not> starts_with path p then scope_loop path type best best_length m
        else if best = None \<or> length p > best_length then scope_loop path type (Some fs) (length p) m
        else scope_loop path type best best_length m)"

definition for_scope_of_type :: "secrets \<Rightarrow> string \<Rightarrow> string \<Rightarrow> secret option" where
  "for_scope_of_type m path type = scope_loop path type None 0 m"

subsection \<open>The most specific secret\<close>

text \<open>A secret of the type whose scope the path starts with.\<close>

definition covers :: "string \<Rightarrow> string \<Rightarrow> secret \<Rightarrow> bool" where
  "covers path type fs \<longleftrightarrow> map_of fs ''type'' = Some type \<and> prefix (scope_of fs) path"

lemma scope_loop_skip:
  "scope_loop path type best n ((name, fs) # m) =
     (if covers path type fs \<and> (best = None \<or> n < length (scope_of fs))
      then scope_loop path type (Some fs) (length (scope_of fs)) m else scope_loop path type best n m)"
  by (auto simp: covers_def Let_def starts_with_prefix)

text \<open>The entry the loop ends with: the first of the covering ones with the longest scope.\<close>

definition first_longest :: "(secret \<Rightarrow> bool) \<Rightarrow> secrets \<Rightarrow> secret \<Rightarrow> bool" where
  "first_longest P m fs \<longleftrightarrow>
     (\<exists>before name after. m = before @ (name, fs) # after \<and> P fs \<and>
       (\<forall>(n, g) \<in> set before. P g \<longrightarrow> length (scope_of g) < length (scope_of fs)) \<and>
       (\<forall>(n, g) \<in> set after. P g \<longrightarrow> length (scope_of g) \<le> length (scope_of fs)))"

lemma first_longest_here:
  assumes "P g" "\<forall>(n, h) \<in> set m. P h \<longrightarrow> length (scope_of h) \<le> length (scope_of g)"
  shows "first_longest P ((name, g) # m) g"
  unfolding first_longest_def using assms by (intro exI [of _ "[]"] exI [of _ name] exI [of _ m]) auto

lemma first_longest_later:
  assumes "first_longest P m fs" "P g \<longrightarrow> length (scope_of g) < length (scope_of fs)"
  shows "first_longest P ((name, g) # m) fs"
proof -
  from assms(1) obtain before n after where "m = before @ (n, fs) # after" "P fs"
    "\<forall>(n, h) \<in> set before. P h \<longrightarrow> length (scope_of h) < length (scope_of fs)"
    "\<forall>(n, h) \<in> set after. P h \<longrightarrow> length (scope_of h) \<le> length (scope_of fs)" unfolding first_longest_def by blast
  then show ?thesis unfolding first_longest_def using assms(2)
    by (intro exI [of _ "(name, g) # before"] exI [of _ n] exI [of _ after]) auto
qed

text \<open>From a best entry on, the loop ends with it or with a later entry of a longer scope.\<close>

lemma scope_loop_Some:
  "\<exists>fs. scope_loop path type (Some best) (length (scope_of best)) m = Some fs \<and>
     (fs = best \<and> (\<forall>(n, g) \<in> set m. covers path type g \<longrightarrow> length (scope_of g) \<le> length (scope_of best)) \<or>
      first_longest (covers path type) m fs \<and> length (scope_of best) < length (scope_of fs))"
proof (induction m arbitrary: best)
  case (Cons e m)
  obtain name g where e: "e = (name, g)" by (cases e)
  show ?case
  proof (cases "covers path type g \<and> length (scope_of best) < length (scope_of g)")
    case True
    with Cons.IH [of g] show ?thesis unfolding e scope_loop_skip
      by (auto intro: first_longest_here first_longest_later)
  next
    case False
    from Cons.IH [of best] obtain fs where fs: "scope_loop path type (Some best) (length (scope_of best)) m = Some fs"
      "fs = best \<and> (\<forall>(n, h) \<in> set m. covers path type h \<longrightarrow> length (scope_of h) \<le> length (scope_of best)) \<or>
       first_longest (covers path type) m fs \<and> length (scope_of best) < length (scope_of fs)" by blast
    with False show ?thesis unfolding e scope_loop_skip
      by (auto intro!: first_longest_later [of _ _ fs] simp: not_less)
  qed
qed simp

lemma scope_loop_None:
  "case scope_loop path type None 0 m of
     None \<Rightarrow> \<forall>(n, g) \<in> set m. \<not> covers path type g
   | Some fs \<Rightarrow> first_longest (covers path type) m fs"
proof (induction m)
  case (Cons e m)
  obtain name g where e: "e = (name, g)" by (cases e)
  show ?case
  proof (cases "covers path type g")
    case True
    with scope_loop_Some [of path type g m] show ?thesis unfolding e scope_loop_skip
      by (auto intro: first_longest_here first_longest_later)
  next
    case False
    with Cons.IH show ?thesis unfolding e scope_loop_skip by (auto intro: first_longest_later split: option.splits)
  qed
qed simp

text \<open>
  C38: The secret used for a path. There is none exactly when no secret of the type has a scope the path starts with;
  otherwise it is one of these with the longest scope, and of several with that scope the one with the smallest
  name: the map is ordered by name, whatever the order in which the secrets were registered.
\<close>

theorem longest_scope_wins:
  assumes "om_inv m"
  shows "case for_scope_of_type m path type of
      None \<Rightarrow> \<forall>(n, g) \<in> set m. \<not> covers path type g
    | Some fs \<Rightarrow> \<exists>name. map_of m name = Some fs \<and> covers path type fs \<and>
        (\<forall>(n, g) \<in> set m. covers path type g \<longrightarrow>
          length (scope_of g) < length (scope_of fs) \<or> length (scope_of g) = length (scope_of fs) \<and> string_le name n)"
proof (cases "for_scope_of_type m path type")
  case None
  with scope_loop_None [of m path type] show ?thesis by (simp add: for_scope_of_type_def)
next
  case (Some fs)
  with scope_loop_None [of m path type] obtain before name after where m: "m = before @ (name, fs) # after" "covers path type fs"
    "\<forall>(n, g) \<in> set before. covers path type g \<longrightarrow> length (scope_of g) < length (scope_of fs)"
    "\<forall>(n, g) \<in> set after. covers path type g \<longrightarrow> length (scope_of g) \<le> length (scope_of fs)"
    by (auto simp: for_scope_of_type_def first_longest_def)
  have "\<forall>(n, g) \<in> set after. string_le name n"
    using assms m(1) by (auto simp: om_inv_def sorted_wrt_append string_less_def)
  moreover have "map_of m name = Some fs" using map_of_eq_Some_iff [OF om_distinct [OF assms], of name fs] m(1) by simp
  moreover have "\<forall>(n, g) \<in> set m. covers path type g \<longrightarrow>
      length (scope_of g) < length (scope_of fs) \<or> length (scope_of g) = length (scope_of fs) \<and> string_le name n"
    using m(3,4) \<open>\<forall>(n, g) \<in> set after. string_le name n\<close> unfolding m(1) by (auto simp: nat_less_le)
  ultimately show ?thesis using m(2) unfolding Some option.case by blast
qed

lemma add_secrets_inv: "om_inv (add_secrets show_scalar cs)"
proof -
  have "om_inv m \<Longrightarrow> om_inv (foldl (\<lambda>m (f, a). om_put (field_name f) (secret_fields show_scalar f a) m) m cs)" for m
    by (induction cs arbitrary: m) (auto intro: om_inv_put)
  then show ?thesis by (simp add: add_secrets_def)
qed

text \<open>
  Two secrets of one scope: the one registered first loses to the one whose name comes first.
\<close>

definition two_secrets :: "(field \<times> arr) list" where
  "two_secrets =
     (let t = TStruct [Field ''type'' TString True, Field ''scope'' TString True, Field ''key'' TString True] in
      [(Field ''b'' t True, one t (VStruct [VText ''s3'', VText ''s3://x'', VText ''first''])),
       (Field ''a'' t True, one t (VStruct [VText ''s3'', VText ''s3://x'', VText ''second'']))])"

theorem longest_scope_wins_witness:
  "\<exists>fs. for_scope_of_type (add_secrets (\<lambda>_ _. None) two_secrets) ''s3://x/y'' ''s3'' = Some fs \<and> map_of fs ''key'' = Some ''second''"
proof -
  let ?m = "add_secrets (\<lambda>_ _. None) two_secrets"
  have m: "?m = [(''a'', [(''key'', ''second''), (''scope'', ''s3://x''), (''type'', ''s3'')]),
      (''b'', [(''key'', ''first''), (''scope'', ''s3://x''), (''type'', ''s3'')])]"
    by (simp add: add_secrets_def two_secrets_def Let_def secret_fields_def struct_children_def child_values_def enumerate_eq_zip render_def)
  have len: "length (scope_of (snd e)) = 6 \<and> covers ''s3://x/y'' ''s3'' (snd e)" if "e \<in> set ?m" for e
    using that unfolding m by (auto simp: covers_def scope_of_def)
  have "om_inv ?m" by (rule add_secrets_inv)
  note all = longest_scope_wins [OF this, of "''s3://x/y''" "''s3''"]
  then obtain fs name where fs: "for_scope_of_type ?m ''s3://x/y'' ''s3'' = Some fs" "map_of ?m name = Some fs"
    "\<forall>(n, g) \<in> set ?m. covers ''s3://x/y'' ''s3'' g \<longrightarrow> length (scope_of g) < length (scope_of fs) \<or> string_le name n"
    using len [of "hd ?m"] by (cases "for_scope_of_type ?m ''s3://x/y'' ''s3''") (auto simp: m)
  have "length (scope_of fs) = 6" using len [of "(name, fs)"] map_of_SomeD [OF fs(2)] by simp
  then have "string_le name ''a''" using fs(3) len [of "hd ?m"] by (auto simp: m)
  with fs(1,2) show ?thesis by (auto simp: m split: if_splits)
qed

end
