(* ===== verification/Spec2Isabelle.thy ===== *)
theory Spec2Isabelle
  imports Storage_Properties Storage_Progress Wire_Properties Attach_Service Split_Token
    Pushdown_Properties Pushdown_State Sql_Properties Sql_Literals Contents_Properties Memory_Properties Numeric Settings
begin

text \<open>
  Verification of vgi-cpp, the C++ library for workers of the VGI protocol: a worker process answers
  the calls of a database engine, each call a record batch with one row of parameters, and lets
  the engine query functions, tables and catalogs that live outside it.

  \<^bold>\<open>The parts of the program\<close> and the theories that model them (files under \<^verbatim>\<open>src/\<close>):

  \<^item> \<^emph>\<open>Function storage\<close> (\<^verbatim>\<open>src/storage.cpp\<close>, \<^verbatim>\<open>src/portable.cpp\<close>): key-value files, an append log and a work
    queue shared by all worker processes through the file system. \<open>File_System\<close> is the file system:
    files and directories with write times, and a record of the calls that fail. \<open>Storage\<close> has one
    definition per member of \<^verbatim>\<open>FilesystemStorage\<close>; \<open>Storage_KV\<close>, \<open>Storage_Log\<close> and \<open>Storage_Queue\<close> state the
    contracts of the three services as locales and interpret them on these definitions;
    \<open>Storage_Properties\<close> has the results for one process at a time. \<open>Storage_Concurrent\<close> is the same queue
    as a step relation, one step per file-system call of any number of processes that may crash, and
    \<open>Storage_Progress\<close> shows that a waiting item is delivered.
  \<^item> \<^emph>\<open>Wire layer\<close> (\<^verbatim>\<open>src/wire.cpp\<close>): \<open>Wire\<close> has the typed accessors over a model of Arrow types, arrays
    and batches, \<open>Wire_Result\<close> the \<^verbatim>\<open>ResultBuilder\<close>, \<open>Wire_Properties\<close> the round trips between them.
  \<^item> \<^emph>\<open>Attach tickets\<close> (\<^verbatim>\<open>src/attach_ticket.cpp\<close>, \<^verbatim>\<open>src/attach_ticket_service.cpp\<close>): \<open>Codec\<close> (fields, strict
    UTF-8), \<open>Crypto\<close> (what is asked of the cryptographic library), \<open>Attach_Ticket\<close>,
    \<open>Attach_Ticket_Properties\<close>, \<open>Attach_Service\<close>.
  \<^item> \<^emph>\<open>Opaque values\<close> (\<^verbatim>\<open>src/opaque_seal.cpp\<close>) and \<^emph>\<open>split tokens\<close> (\<^verbatim>\<open>src/split_token.cpp\<close>): \<open>Opaque_Seal\<close> and
    \<open>Split_Token\<close>, on the same \<open>Crypto\<close>.
  \<^item> \<^emph>\<open>Filter pushdown\<close> (\<^verbatim>\<open>src/pushdown.cpp\<close>): \<open>Filter_Types\<close> and \<open>Filter_Parser\<close> decode Filter Encoding v2,
    \<open>Filter_Eval\<close> evaluates predicates, \<open>Pushdown\<close> keeps the state of a scan and derives bounds and values
    from it. \<open>Filter_Semantics\<close>, \<open>Filter_Typing\<close>, \<open>Pushdown_Properties\<close> and \<open>Pushdown_State\<close> are about them.
  \<^item> \<^emph>\<open>Scalar SQL\<close> (\<^verbatim>\<open>src/sql_scalar.cpp\<close>): \<open>Sql_Lexer\<close>, \<open>Sql_Parser\<close>, \<open>Sql_Check\<close>; results in \<open>Sql_Total\<close>,
    \<open>Sql_Cycles\<close>, \<open>Sql_Literals\<close>, \<open>Sql_Properties\<close>.
  \<^item> \<^emph>\<open>Constraint records\<close> (\<^verbatim>\<open>src/constraints.cpp\<close>): \<open>Constraint_Records\<close> builds and decodes them, \<open>Constraint_Checks\<close>
    checks the records of a table and derives the schema it is served with, \<open>Capabilities\<close> negotiates what an
    attachment may use; \<open>Constraint_Properties\<close> is about the first two.
  \<^item> \<^emph>\<open>Column metadata\<close> (\<^verbatim>\<open>src/column_metadata.h\<close>, \<^verbatim>\<open>src/column_expressions.h\<close>): \<open>Column_Metadata\<close>.
  \<^item> \<^emph>\<open>Catalog contents\<close> (\<^verbatim>\<open>src/catalog_contents.cpp\<close>): \<open>Catalog_Contents\<close> and \<open>Contents_Properties\<close>.
  \<^item> \<^emph>\<open>The in-memory catalog\<close> (\<^verbatim>\<open>src/memory_catalog.cpp\<close>): \<open>Ordered_Map\<close> is \<^verbatim>\<open>std::map\<close> as a sorted association
    list, with its contract as a locale; \<open>Memory_Catalog\<close> has the state and the operations on it, \<open>Memory_Serve\<close>
    the method router with the handlers, built on the capabilities, the column metadata, the constraint records and
    the contents; \<open>Memory_Properties\<close> has the invariant of all reachable states and what follows from it.
  \<^item> \<^emph>\<open>Result types of arithmetic\<close> (\<^verbatim>\<open>src/numeric.cpp\<close>): \<open>Numeric\<close>.
  \<^item> \<^emph>\<open>Arguments, settings and secrets\<close> (\<^verbatim>\<open>src/arguments.cpp\<close>, \<^verbatim>\<open>src/settings.cpp\<close>): \<open>Arguments\<close>, \<open>Settings\<close>.

  \<open>Prelude\<close> holds the error monad, characters and decimal numbers the others share.

  \<^bold>\<open>How the code is translated.\<close> A class is a record and each member function a definition that takes
  and returns it; an exception is \<open>Inl\<close> of an error type of the component, with one branch per
  throw; a loop is a recursive function; a read outside an array or of an empty optional, which
  C++ leaves undefined, is an error value of its own. Byte strings are lists of characters. What
  is not under \<^verbatim>\<open>src/\<close> is an argument of the definitions that use it: Arrow's stream reader and writer,
  its compute kernels and the text it prints for a type, the JSON text parser, the cryptographic
  library, the clock and the random bytes. What the results need of them are named hypotheses
  (\<open>compute_laws\<close>, the laws of \<open>Crypto\<close>), and every result with such a hypothesis has a witness that instantiates it.

  \<^bold>\<open>What the lemmas show.\<close> Storage: pushes and pops refine a list, appends are replayed, a put is atomic
  whatever the system refuses; under any interleaving with crashes no item is delivered twice or with another
  value, and a waiting one is delivered. Tickets, opaque values and split tokens: round trips, and
  that each opens only for whom it was sealed. Filters: parsed predicates are well typed and bounded,
  evaluation fails closed, pruning by bounds and values is sound, deltas keep the state's invariant. Scalar
  SQL: accepted columns are exactly the readable acyclic ones, and every check ends. Constraint records:
  they are read back, accepted by a rule that does not depend on their order, and determine nullability.
  Catalogs: the snapshot of every reachable state passes the rules on contents, versions follow changes,
  the objects refine a map, and what a tag hashes determines what is served. Arithmetic: which result types
  hold all sums of their arguments. Arguments: where each positional argument is found, which index is written
  past the vector, and which secret a path uses.

  \<^bold>\<open>Bounds and fuel.\<close> The parser of filters and the parser of SQL recurse over the nesting levels the
  code allows (64 and 256); the loops of the SQL parser take the number of tokens left as fuel and the
  cycle search the number of columns: \<open>sql_checks_total\<close> shows that both are enough. Opening a nested request
  takes fuel: \<open>open_batch_fuel\<close> shows that when every nested record is smaller, in some measure, than the
  record it was decoded from, that measure plus two levels is enough. All other recursions terminate by a measure.

  \<^bold>\<open>Not modelled.\<close> The dispatch of catalog methods over a registered model (\<^verbatim>\<open>src/catalog.cpp\<close>) and of functions
  (\<^verbatim>\<open>src/function_dispatch.cpp\<close>, \<^verbatim>\<open>src/aggregate.cpp\<close>, \<^verbatim>\<open>src/buffering.cpp\<close>) move Arrow batches between the RPC library and the
  functions a user registers; worker, dispatcher and landing page are registration and transport;
  argument schemas, statistics and partitions read typed Arrow values. The generated service code and the
  example worker are left out. Permissions of directories, the lifetime of objects and running out of memory have
  no counterpart in the model, and a catalog's version is an unbounded integer.
\<close>

end
